(* ===== verification/Go_Lib.thy ===== *)
theory Go_Lib
  imports Prelude
begin

text \<open>
  The parts of the Go language and its standard library that the plugins use: big- and
  little-endian integers (\<open>encoding/binary\<close>), hexadecimal text (\<open>encoding/hex\<close>), byte-string
  searching (\<open>strings\<close>), decimal and hexadecimal numbers (\<open>strconv\<close>) and network addresses
  (\<open>net/netip\<close>). A Go \<open>string\<close> is a HOL \<open>string\<close> (a list of 256-valued characters, as Go's
  strings are byte sequences); a \<open>[]byte\<close> is a list of 8-bit words.
\<close>

section \<open>Strings and bytes\<close>

definition byte_of_char :: "char \<Rightarrow> byte" where
  "byte_of_char c = of_nat (of_char c)"

definition char_of_byte :: "byte \<Rightarrow> char" where
  "char_of_byte b = char_of (unat b)"

definition bytes_of :: "string \<Rightarrow> bytes" where
  "bytes_of s = map byte_of_char s"

definition string_of :: "bytes \<Rightarrow> string" where
  "string_of bs = map char_of_byte bs"

lemma unat_byte_of_char: "unat (byte_of_char c) = of_char c"
  by (simp add: byte_of_char_def unat_of_nat)

lemma char_of_byte_of_char [simp]: "char_of_byte (byte_of_char c) = c"
  by (simp add: char_of_byte_def unat_byte_of_char)

lemma byte_of_char_of_byte [simp]: "byte_of_char (char_of_byte b) = b"
proof -
  have "unat (byte_of_char (char_of_byte b)) = unat b"
    by (simp add: unat_byte_of_char char_of_byte_def)
  then show ?thesis by (simp add: word_unat_eq_iff)
qed

lemma byte_of_char_eq_iff [simp]: "byte_of_char a = byte_of_char b \<longleftrightarrow> a = b"
  by (metis char_of_byte_of_char)

lemma string_of_bytes_of [simp]: "string_of (bytes_of s) = s"
  by (simp add: string_of_def bytes_of_def comp_def)

lemma bytes_of_string_of [simp]: "bytes_of (string_of bs) = bs"
  by (simp add: string_of_def bytes_of_def comp_def)

lemma length_bytes_of [simp]: "length (bytes_of s) = length s"
  by (simp add: bytes_of_def)

lemma length_string_of [simp]: "length (string_of bs) = length bs"
  by (simp add: string_of_def)

section \<open>Fixed-width integers on the wire\<close>

text \<open>
  \<open>be_bytes n w\<close> is the \<open>n\<close>-octet big-endian form of \<open>w\<close>, \<open>be_val\<close> the number such octets
  denote; \<open>le_bytes\<close> and \<open>le_val\<close> are their little-endian counterparts.
\<close>

primrec be_bytes :: "nat \<Rightarrow> 'a::len word \<Rightarrow> bytes" where
  "be_bytes 0 w = []"
| "be_bytes (Suc n) w = ucast (drop_bit (8 * n) w) # be_bytes n w"

primrec be_val :: "bytes \<Rightarrow> nat" where
  "be_val [] = 0"
| "be_val (b # bs) = unat b * 256 ^ length bs + be_val bs"

definition le_bytes :: "nat \<Rightarrow> 'a::len word \<Rightarrow> bytes" where
  "le_bytes n w = rev (be_bytes n w)"

definition le_val :: "bytes \<Rightarrow> nat" where
  "le_val bs = be_val (rev bs)"

lemma length_be_bytes [simp, wire_simps]: "length (be_bytes n w) = n"
  by (induction n) auto

lemma length_le_bytes [simp, wire_simps]: "length (le_bytes n w) = n"
  by (simp add: le_bytes_def)

lemma be_val_less: "be_val bs < 256 ^ length bs"
proof (induction bs)
  case Nil
  show ?case by simp
next
  case (Cons b bs)
  have "unat b * 256 ^ length bs + be_val bs < unat b * 256 ^ length bs + 256 ^ length bs"
    using Cons.IH by simp
  also have "\<dots> = (unat b + 1) * 256 ^ length bs"
    by (simp add: algebra_simps)
  also have "\<dots> \<le> 256 * 256 ^ length bs"
  proof (rule mult_right_mono)
    show "unat b + 1 \<le> 256" using unat_byte_less [of b] by linarith
  qed simp
  finally show ?case by simp
qed

lemma be_val_be_bytes: "be_val (be_bytes n w) = unat w mod 256 ^ n"
proof (induction n)
  case 0
  show ?case by simp
next
  case (Suc n)
  have p: "(256::nat) ^ n = 2 ^ (8 * n)"
    by (simp add: power_mult)
  have "unat w mod 256 ^ Suc n = 256 ^ n * (unat w div 256 ^ n mod 256) + unat w mod 256 ^ n"
    by (simp add: mod_mult2_eq mult.commute [of 256])
  then show ?case
    using Suc.IH by (simp add: unat_drop_bit_div p mult.commute)
qed

lemma be_val_inj: "length xs = length ys \<Longrightarrow> be_val xs = be_val ys \<Longrightarrow> xs = ys"
proof (induction xs ys rule: list_induct2)
  case Nil
  show ?case by simp
next
  case (Cons x xs y ys)
  let ?k = "256 ^ length ys :: nat"
  have e: "unat x * ?k + be_val xs = unat y * ?k + be_val ys"
    using Cons.prems Cons.hyps by simp
  have lx: "be_val xs < ?k" and ly: "be_val ys < ?k"
    using be_val_less [of xs] be_val_less [of ys] Cons.hyps by simp_all
  have "(unat x * ?k + be_val xs) div ?k = (unat y * ?k + be_val ys) div ?k"
    using e by simp
  then have "unat x = unat y" using lx ly by simp
  with e show ?case using Cons.IH by (simp add: word_unat_eq_iff)
qed

lemma be_bytes_of_val:
  assumes "length bs = n" and "8 * n \<le> LENGTH('a)"
  shows "be_bytes n (of_nat (be_val bs) :: 'a::len word) = bs"
proof (rule be_val_inj)
  have "(256::nat) ^ n \<le> 2 ^ LENGTH('a)"
    using assms(2) power_increasing [of "8 * n" "LENGTH('a)" "2::nat"] by (simp add: power_mult)
  moreover have "be_val bs < 256 ^ n" using be_val_less [of bs] assms(1) by simp
  ultimately show "be_val (be_bytes n (of_nat (be_val bs) :: 'a word)) = be_val bs"
    by (simp add: be_val_be_bytes unat_of_nat)
qed (simp add: assms)

lemma of_nat_be_val_be_bytes:
  "LENGTH('a) \<le> 8 * n \<Longrightarrow> of_nat (be_val (be_bytes n w)) = (w :: 'a::len word)"
proof -
  assume le: "LENGTH('a) \<le> 8 * n"
  have "unat w < 2 ^ LENGTH('a)" by (rule unsigned_less)
  also have "\<dots> \<le> 256 ^ n"
    using le power_increasing [of "LENGTH('a)" "8 * n" "2::nat"] by (simp add: power_mult)
  finally show ?thesis by (simp add: be_val_be_bytes)
qed

text \<open>The concrete widths: \<open>binary.BigEndian\<close> and \<open>binary.LittleEndian\<close>.\<close>

definition putBE16 :: "u16 \<Rightarrow> bytes" where "putBE16 w = be_bytes 2 w"
definition putBE32 :: "u32 \<Rightarrow> bytes" where "putBE32 w = be_bytes 4 w"
definition putLE64 :: "u64 \<Rightarrow> bytes" where "putLE64 w = le_bytes 8 w"

text \<open>
  The readers panic in Go when the slice is too short; every caller in the plugins checks the
  length (or reads a fixed-size array) first, so here they only look at the leading octets.
\<close>

definition getBE16 :: "bytes \<Rightarrow> u16" where "getBE16 bs = of_nat (be_val (take 2 bs))"
definition getBE32 :: "bytes \<Rightarrow> u32" where "getBE32 bs = of_nat (be_val (take 4 bs))"
definition getLE64 :: "bytes \<Rightarrow> u64" where "getLE64 bs = of_nat (le_val (take 8 bs))"

lemma length_put [simp, wire_simps]:
  "length (putBE16 a) = 2" "length (putBE32 b) = 4" "length (putLE64 c) = 8"
  by (simp_all add: putBE16_def putBE32_def putLE64_def)

lemma getBE16_putBE16 [simp]: "getBE16 (putBE16 w @ rest) = w" "getBE16 (putBE16 w) = w"
  by (simp_all add: getBE16_def putBE16_def of_nat_be_val_be_bytes)

lemma getBE32_putBE32 [simp]: "getBE32 (putBE32 w @ rest) = w" "getBE32 (putBE32 w) = w"
  by (simp_all add: getBE32_def putBE32_def of_nat_be_val_be_bytes)

lemma getLE64_putLE64 [simp]: "getLE64 (putLE64 w) = w"
  by (simp add: getLE64_def putLE64_def le_bytes_def le_val_def of_nat_be_val_be_bytes)

lemma putBE16_getBE16: "2 \<le> length bs \<Longrightarrow> putBE16 (getBE16 bs) = take 2 bs"
  by (simp add: getBE16_def putBE16_def be_bytes_of_val)

lemma putBE32_getBE32: "4 \<le> length bs \<Longrightarrow> putBE32 (getBE32 bs) = take 4 bs"
  by (simp add: getBE32_def putBE32_def be_bytes_of_val)

lemma putBE16_inj [simp]: "putBE16 a = putBE16 b \<longleftrightarrow> a = b"
  by (metis getBE16_putBE16(2))

lemma putBE32_inj [simp]: "putBE32 a = putBE32 b \<longleftrightarrow> a = b"
  by (metis getBE32_putBE32(2))

lemma putLE64_inj [simp]: "putLE64 a = putLE64 b \<longleftrightarrow> a = b"
  by (metis getLE64_putLE64)

lemma unat_getBE16: "unat (getBE16 bs) = be_val (take 2 bs)"
proof -
  have "be_val (take 2 bs) < 256 ^ length (take 2 bs)" by (rule be_val_less)
  also have "\<dots> \<le> 256 ^ 2" by (rule power_increasing) auto
  finally show ?thesis by (simp add: getBE16_def unat_of_nat)
qed

section \<open>Byte-string searching\<close>

definition has_suffix :: "string \<Rightarrow> string \<Rightarrow> bool" where
  "has_suffix s suf \<longleftrightarrow> length suf \<le> length s \<and> drop (length s - length suf) s = suf"

definition trim_suffix :: "string \<Rightarrow> string \<Rightarrow> string" where
  "trim_suffix s suf = (if has_suffix s suf then take (length s - length suf) s else s)"

definition has_prefix :: "string \<Rightarrow> string \<Rightarrow> bool" where
  "has_prefix s pre \<longleftrightarrow> take (length pre) s = pre"

text \<open>\<open>strings.CutPrefix\<close>: the rest of the string, if the prefix is there.\<close>

definition cut_prefix :: "string \<Rightarrow> string \<Rightarrow> string option" where
  "cut_prefix s pre = (if has_prefix s pre then Some (drop (length pre) s) else None)"

text \<open>\<open>strings.IndexByte\<close> and \<open>LastIndexByte\<close>, \<open>None\<close> for the -1 they return when absent.\<close>

fun index_byte :: "string \<Rightarrow> char \<Rightarrow> nat option" where
  "index_byte [] c = None"
| "index_byte (x # xs) c = (if x = c then Some 0 else map_option Suc (index_byte xs c))"

fun last_index_byte :: "string \<Rightarrow> char \<Rightarrow> nat option" where
  "last_index_byte [] c = None"
| "last_index_byte (x # xs) c =
     (case last_index_byte xs c of
        Some i \<Rightarrow> Some (Suc i)
      | None \<Rightarrow> (if x = c then Some 0 else None))"

text \<open>\<open>filepath.Split\<close>: everything up to the last slash, and the rest.\<close>

definition split_path :: "string \<Rightarrow> string \<times> string" where
  "split_path path =
     (case last_index_byte path (CHR ''/'') of
        None \<Rightarrow> ([], path)
      | Some i \<Rightarrow> (take (Suc i) path, drop (Suc i) path))"

text \<open>\<open>strings.Split\<close> (and \<open>SplitSeq\<close>) on a one-byte separator, and \<open>strings.Join\<close>.\<close>

fun split_on :: "char \<Rightarrow> string \<Rightarrow> string list" where
  "split_on c [] = [[]]"
| "split_on c (x # xs) =
     (if x = c then [] # split_on c xs
      else (case split_on c xs of [] \<Rightarrow> [[x]] | l # ls \<Rightarrow> (x # l) # ls))"

fun join_on :: "char \<Rightarrow> string list \<Rightarrow> string" where
  "join_on c [] = []"
| "join_on c [l] = l"
| "join_on c (l # m # ls) = l @ c # join_on c (m # ls)"

lemma split_on_nonempty [simp]: "split_on c s \<noteq> []"
  by (induction s) (auto split: list.splits)

lemma join_split [simp]: "join_on c (split_on c s) = s"
proof (induction s)
  case Nil
  show ?case by simp
next
  case (Cons x s)
  obtain l ls where sp: "split_on c s = l # ls"
    by (metis split_on_nonempty list.exhaust)
  show ?case using Cons sp by (cases ls) auto
qed

lemma split_no_sep [simp]: "c \<notin> set s \<Longrightarrow> split_on c s = [s]"
  by (induction s) auto

lemma split_append_sep: "c \<notin> set l \<Longrightarrow> split_on c (l @ c # s) = l # split_on c s"
  by (induction l) auto

lemma split_join:
  "ls \<noteq> [] \<Longrightarrow> \<forall>l\<in>set ls. c \<notin> set l \<Longrightarrow> split_on c (join_on c ls) = ls"
proof (induction c ls rule: join_on.induct)
  case (3 c l m ls)
  then show ?case by (simp add: split_append_sep)
qed auto

lemma join_snoc: "ls \<noteq> [] \<Longrightarrow> join_on c (ls @ [l]) = join_on c ls @ c # l"
  by (induction c ls rule: join_on.induct) auto

lemma split_on_labels: "l \<in> set (split_on c s) \<Longrightarrow> c \<notin> set l"
proof (induction s arbitrary: l)
  case Nil
  then show ?case by simp
next
  case (Cons x s)
  then show ?case by (cases "split_on c s") (auto split: if_splits)
qed

lemma index_byte_Some:
  "index_byte s c = Some i \<Longrightarrow> i < length s \<and> s ! i = c \<and> c \<notin> set (take i s)"
proof (induction s arbitrary: i)
  case Nil
  then show ?case by simp
next
  case (Cons x xs)
  then show ?case by (cases i) (auto split: if_splits)
qed

lemma index_byte_None: "index_byte s c = None \<longleftrightarrow> c \<notin> set s"
  by (induction s) auto

lemma index_byte_append_sep: "c \<notin> set l \<Longrightarrow> index_byte (l @ c # s) c = Some (length l)"
  by (induction l) auto

lemma last_index_byte_None: "last_index_byte s c = None \<longleftrightarrow> c \<notin> set s"
  by (induction s) (auto split: option.splits)

lemma last_index_byte_append_sep:
  "c \<notin> set t \<Longrightarrow> last_index_byte (s @ c # t) c = Some (length s)"
  by (induction s) (auto simp: last_index_byte_None [THEN iffD2])

lemma last_index_byte_Some:
  "last_index_byte s c = Some i \<Longrightarrow> i < length s \<and> s ! i = c \<and> c \<notin> set (drop (Suc i) s)"
proof (induction s arbitrary: i)
  case Nil
  then show ?case by simp
next
  case (Cons x xs)
  then show ?case
    by (cases "last_index_byte xs c") (auto simp: last_index_byte_None split: if_splits)
qed

lemma trim_suffix_dot: "trim_suffix s ''.'' = (if s \<noteq> [] \<and> last s = CHR ''.'' then butlast s else s)"
proof (cases s rule: rev_cases)
  case (snoc xs x)
  then show ?thesis by (simp add: trim_suffix_def has_suffix_def)
qed (simp add: trim_suffix_def has_suffix_def)

lemma trim_suffix_dot_snoc [simp]: "trim_suffix (s @ ''.'') ''.'' = s"
  by (simp add: trim_suffix_dot)

end
