(* ===== verification/Siphash.thy ===== *)
theory Siphash
  imports Go_Lib
begin

text \<open>
  \<open>cookie/siphash.go\<close>: SipHash-2-4 over 64-bit words. The state is the Go struct, each operation
  the sequence of updates the method performs; the block loop is a recursion on the message.
\<close>

unbundle bit_operations_syntax

definition sipInit0 :: u64 where "sipInit0 = 0x736f6d6570736575"
definition sipInit1 :: u64 where "sipInit1 = 0x646f72616e646f6d"
definition sipInit2 :: u64 where "sipInit2 = 0x6c7967656e657261"
definition sipInit3 :: u64 where "sipInit3 = 0x7465646279746573"

record sipState =
  v0 :: u64
  v1 :: u64
  v2 :: u64
  v3 :: u64

definition sip_round :: "sipState \<Rightarrow> sipState" where
  "sip_round s =
     (let s = s\<lparr>v0 := v0 s + v1 s\<rparr>;
          s = s\<lparr>v1 := word_rotl 13 (v1 s)\<rparr>;
          s = s\<lparr>v1 := v1 s XOR v0 s\<rparr>;
          s = s\<lparr>v0 := word_rotl 32 (v0 s)\<rparr>;
          s = s\<lparr>v2 := v2 s + v3 s\<rparr>;
          s = s\<lparr>v3 := word_rotl 16 (v3 s)\<rparr>;
          s = s\<lparr>v3 := v3 s XOR v2 s\<rparr>;
          s = s\<lparr>v0 := v0 s + v3 s\<rparr>;
          s = s\<lparr>v3 := word_rotl 21 (v3 s)\<rparr>;
          s = s\<lparr>v3 := v3 s XOR v0 s\<rparr>;
          s = s\<lparr>v2 := v2 s + v1 s\<rparr>;
          s = s\<lparr>v1 := word_rotl 17 (v1 s)\<rparr>;
          s = s\<lparr>v1 := v1 s XOR v2 s\<rparr>;
          s = s\<lparr>v2 := word_rotl 32 (v2 s)\<rparr>
      in s)"

definition absorb :: "sipState \<Rightarrow> u64 \<Rightarrow> sipState" where
  "absorb s m =
     (let s = s\<lparr>v3 := v3 s XOR m\<rparr>;
          s = sip_round s;
          s = sip_round s
      in s\<lparr>v0 := v0 s XOR m\<rparr>)"

text \<open>The loop \<open>for len(msg) >= 8\<close>: it returns the state and the 0 to 7 octets left over.\<close>

function absorb_blocks :: "sipState \<Rightarrow> bytes \<Rightarrow> sipState \<times> bytes" where
  "absorb_blocks s msg =
     (if 8 \<le> length msg then absorb_blocks (absorb s (getLE64 msg)) (drop 8 msg) else (s, msg))"
  by pat_completeness auto
termination
  by (relation "measure (\<lambda>(s, msg). length msg)") auto

declare absorb_blocks.simps [simp del]

definition last_block :: "nat \<Rightarrow> bytes \<Rightarrow> u64" where
  "last_block n tail =
     fold (\<lambda>(i, b) acc. acc OR push_bit (8 * i) (ucast b)) (enumerate 0 tail)
       (push_bit 56 (of_nat n AND 0xff))"

definition siphash24 :: "bytes \<Rightarrow> bytes \<Rightarrow> u64" where
  "siphash24 key msg =
     (let k0 = getLE64 (take 8 key);
          k1 = getLE64 (drop 8 key);
          s = \<lparr>v0 = k0 XOR sipInit0, v1 = k1 XOR sipInit1, v2 = k0 XOR sipInit2, v3 = k1 XOR sipInit3\<rparr>;
          n = length msg;
          (s, rest) = absorb_blocks s msg;
          s = absorb s (last_block n rest);
          s = s\<lparr>v2 := v2 s XOR 0xff\<rparr>;
          s = sip_round s;
          s = sip_round s;
          s = sip_round s;
          s = sip_round s
      in v0 s XOR v1 s XOR v2 s XOR v3 s)"

lemma absorb_blocks_rest: "length (snd (absorb_blocks s msg)) < 8"
proof (induction s msg rule: absorb_blocks.induct)
  case (1 s msg)
  show ?case
  proof (cases "8 \<le> length msg")
    case True
    with 1 show ?thesis by (simp add: absorb_blocks.simps [of s msg])
  next
    case False
    then show ?thesis by (simp add: absorb_blocks.simps [of s msg])
  qed
qed

end
