(* ===== verification/Siphash_Spec.thy ===== *)
theory Siphash_Spec
  imports Siphash
begin

text \<open>
  SipHash-2-4 as its authors define it (Aumasson and Bernstein, INDOCRYPT 2012, section 2), and that \<open>siphash24\<close> of \<open>cookie/siphash.go\<close>
  computes it: the message is padded with zeros and its length to whole 64-bit little-endian words, each word goes through two
  rounds, and four rounds finish. A round does its additions, rotations and exclusive-ors two at a time, in the order of
  the paper's figure.
\<close>

unbundle bit_operations_syntax

section \<open>The reference\<close>

type_synonym sip_words = "u64 \<times> u64 \<times> u64 \<times> u64"

fun SipRound :: "sip_words \<Rightarrow> sip_words" where
  "SipRound (a, b, c, d) =
     (let (a, c) = (a + b, c + d);
          (b, d) = (word_rotl 13 b, word_rotl 16 d);
          (b, d) = (b XOR a, d XOR c);
          a = word_rotl 32 a;
          (c, a) = (c + b, a + d);
          (b, d) = (word_rotl 17 b, word_rotl 21 d);
          (b, d) = (b XOR c, d XOR a);
          c = word_rotl 32 c
      in (a, b, c, d))"

fun compress :: "u64 \<Rightarrow> sip_words \<Rightarrow> sip_words" where
  "compress m (a, b, c, d) = (let (a, b, c, d) = (SipRound ^^ 2) (a, b, c, d XOR m) in (a XOR m, b, c, d))"

definition padded :: "bytes \<Rightarrow> bytes" where
  "padded msg = msg @ replicate (7 - length msg mod 8) 0 @ [of_nat (length msg)]"

fun words64 :: "bytes \<Rightarrow> u64 list" where
  "words64 (a # b # c # d # e # f # g # h # rest) = getLE64 [a, b, c, d, e, f, g, h] # words64 rest"
| "words64 rest = []"

definition SipHash_2_4 :: "bytes \<Rightarrow> bytes \<Rightarrow> u64" where
  "SipHash_2_4 key msg =
     (let k0 = getLE64 (take 8 key); k1 = getLE64 (drop 8 key);
          start = (k0 XOR 0x736f6d6570736575, k1 XOR 0x646f72616e646f6d, k0 XOR 0x6c7967656e657261, k1 XOR 0x7465646279746573);
          (a, b, c, d) = fold compress (words64 (padded msg)) start;
          (a, b, c, d) = (SipRound ^^ 4) (a, b, c XOR 0xff, d)
      in a XOR b XOR c XOR d)"

section \<open>Rounds\<close>

definition sip_tuple :: "sipState \<Rightarrow> sip_words" where
  "sip_tuple s = (v0 s, v1 s, v2 s, v3 s)"

lemma sip_round_tuple: "sip_tuple (sip_round s) = SipRound (sip_tuple s)"
  by (simp add: sip_tuple_def sip_round_def Let_def)

lemma funpow_2_4: "(f ^^ 2) x = f (f x)" "(f ^^ 4) x = f (f (f (f x)))"
  by (simp_all add: numeral_eq_Suc)

lemma absorb_tuple: "sip_tuple (absorb s m) = compress m (sip_tuple s)"
proof -
  have "(SipRound ^^ 2) (v0 s, v1 s, v2 s, v3 s XOR m) = sip_tuple (sip_round (sip_round (s\<lparr>v3 := v3 s XOR m\<rparr>)))"
    by (simp only: funpow_2_4 sip_round_tuple) (simp add: sip_tuple_def)
  then show ?thesis by (simp add: absorb_def Let_def sip_tuple_def)
qed

section \<open>Words\<close>

lemma le_val_Cons: "le_val (b # bs) = unat b + 256 * le_val bs"
proof -
  have "be_val (xs @ [b]) = 256 * be_val xs + unat b" for xs
    by (induction xs) (simp_all add: algebra_simps)
  then show ?thesis by (simp add: le_val_def)
qed

abbreviation le64 :: "bytes \<Rightarrow> u64" where "le64 bs \<equiv> of_nat (le_val bs)"

lemma le64_Nil: "le64 [] = 0"
  by (simp add: le_val_def)

lemma le64_Cons: "le64 (b # bs) = ucast b OR push_bit 8 (le64 bs)"
proof -
  have "le64 (b # bs) = ucast b + push_bit 8 (le64 bs)"
    by (simp add: le_val_Cons push_bit_eq_mult)
  also have "\<dots> = ucast b OR push_bit 8 (le64 bs)"
    by (rule disjunctive_add_eq_or) (rule bit_word_eqI, auto simp: bit_simps dest: bit_imp_le_length)
  finally show ?thesis .
qed

lemma le64_append: "le64 (xs @ ys) = le64 xs OR push_bit (8 * length xs) (le64 ys)"
  by (induction xs) (simp_all add: le64_Nil le64_Cons push_bit_or or.assoc ac_simps)

lemma le64_zeros: "le64 (replicate n 0) = 0"
  by (induction n) (simp_all add: le64_Nil le64_Cons)

lemma fold_last_block:
  "fold (\<lambda>(i, b) acc. acc OR push_bit (8 * i) (ucast b)) (enumerate k tail) acc = acc OR push_bit (8 * k) (le64 tail)"
  by (induction tail arbitrary: k acc) (simp_all add: le64_Nil le64_Cons push_bit_or or.assoc ac_simps)

text \<open>The last block of the code is the last word of the padded message.\<close>

lemma last_block_is_padding:
  assumes "length tail < 8"
  shows "last_block n tail = getLE64 (tail @ replicate (7 - length tail) 0 @ [of_nat n])"
proof -
  have "(of_nat n AND 0xff :: u64) = ucast (of_nat n :: byte)"
  proof -
    have "(0xff :: u64) = mask 8" by (simp add: mask_eq_exp_minus_1)
    then have "(of_nat n AND 0xff :: u64) = take_bit 8 (of_nat n)" by (simp add: take_bit_eq_mask)
    then show ?thesis by (simp add: unsigned_of_nat take_bit_of_nat)
  qed
  moreover have "le64 [of_nat n] = ucast (of_nat n :: byte)" by (simp add: le64_Nil le64_Cons)
  moreover have "8 * length tail + 8 * (7 - length tail) = 56" using assms by simp
  ultimately show ?thesis
    using assms by (simp add: last_block_def fold_last_block getLE64_def le64_append le64_zeros le64_Nil le64_Cons or.commute)
qed

section \<open>The message\<close>

lemma words64_block: "length b = 8 \<Longrightarrow> words64 (b @ rest) = getLE64 b # words64 rest"
  by (auto simp: numeral_eq_Suc length_Suc_conv)

lemma absorb_blocks_words:
  "fold compress (words64 (msg @ replicate (7 - length msg mod 8) 0 @ [of_nat n])) (sip_tuple s) =
     (let (s', rest) = absorb_blocks s msg in compress (last_block n rest) (sip_tuple s'))"
proof (induction s msg rule: absorb_blocks.induct)
  case (1 s msg)
  show ?case
  proof (cases "8 \<le> length msg")
    case True
    then have sp: "msg = take 8 msg @ drop 8 msg" and l: "length (take 8 msg) = 8" by simp_all
    have w: "getLE64 (take 8 msg) = getLE64 msg" by (simp add: getLE64_def)
    have m: "length (drop 8 msg) mod 8 = length msg mod 8" using True by (simp add: le_mod_geq [of 8 "length msg"])
    have "words64 (msg @ replicate (7 - length msg mod 8) 0 @ [of_nat n]) =
        getLE64 msg # words64 (drop 8 msg @ replicate (7 - length (drop 8 msg) mod 8) 0 @ [of_nat n])"
      using words64_block [OF l] sp w m by (metis append.assoc)
    then show ?thesis
      using 1 [OF True] True by (simp add: absorb_blocks.simps [of s msg] absorb_tuple)
  next
    case False
    then have "length (msg @ replicate (7 - length msg mod 8) 0 @ [of_nat n :: byte]) = 8" by simp
    from words64_block [OF this, of "[]"] False show ?thesis
      by (simp add: absorb_blocks.simps [of s msg] last_block_is_padding)
  qed
qed

text \<open>
  C9: for every key and message \<open>siphash24\<close> is SipHash-2-4: the loop over whole blocks, the assembled last block and the
  sequential rounds of the code compute the padded, word-wise definition of the paper.
\<close>

theorem siphash24_is_SipHash: "siphash24 key msg = SipHash_2_4 key msg"
proof -
  let ?k0 = "getLE64 (take 8 key)" and ?k1 = "getLE64 (drop 8 key)"
  let ?s = "\<lparr>v0 = ?k0 XOR sipInit0, v1 = ?k1 XOR sipInit1, v2 = ?k0 XOR sipInit2, v3 = ?k1 XOR sipInit3\<rparr>"
  obtain s' rest where b: "absorb_blocks ?s msg = (s', rest)" by force
  let ?a = "absorb s' (last_block (length msg) rest)"
  have init: "(?k0 XOR 0x736f6d6570736575, ?k1 XOR 0x646f72616e646f6d, ?k0 XOR 0x6c7967656e657261, ?k1 XOR 0x7465646279746573) = sip_tuple ?s"
    by (simp add: sip_tuple_def sipInit0_def sipInit1_def sipInit2_def sipInit3_def)
  have words: "fold compress (words64 (padded msg)) (sip_tuple ?s) = (v0 ?a, v1 ?a, v2 ?a, v3 ?a)"
    using absorb_blocks_words [of msg "length msg" ?s] b by (simp add: padded_def absorb_tuple [symmetric]) (simp add: sip_tuple_def)
  have final: "(SipRound ^^ 4) (v0 ?a, v1 ?a, v2 ?a XOR 0xff, v3 ?a) =
      sip_tuple (sip_round (sip_round (sip_round (sip_round (?a\<lparr>v2 := v2 ?a XOR 0xff\<rparr>)))))"
    by (simp only: funpow_2_4 sip_round_tuple) (simp add: sip_tuple_def)
  have "SipHash_2_4 key msg = (let (a, b, c, d) = (SipRound ^^ 4) (v0 ?a, v1 ?a, v2 ?a XOR 0xff, v3 ?a) in a XOR b XOR c XOR d)"
    by (simp only: SipHash_2_4_def Let_def init words split)
  then show ?thesis by (simp only: final) (simp add: siphash24_def b Let_def sip_tuple_def)
qed

end
