(* ===== verification/Go_Net.thy ===== *)
theory Go_Net
  imports Go_Lib
begin

text \<open>
  Go's \<open>net/netip.Addr\<close>: the zero (invalid) address, an IPv4 address, or an IPv6 address with a
  zone. Addresses carry their 32 or 128 bits as machine words. \<open>Is6\<close> holds of IPv4-mapped IPv6
  addresses too, as the library documents. Parsing an address from text is library code the
  components take as a parameter where they need it.
\<close>

datatype addr = AddrZero | Addr4 "32 word" | Addr6 "128 word" string

fun Is4 :: "addr \<Rightarrow> bool" where
  "Is4 (Addr4 _) = True"
| "Is4 _ = False"

fun Is6 :: "addr \<Rightarrow> bool" where
  "Is6 (Addr6 _ _) = True"
| "Is6 _ = False"

fun Is4In6 :: "addr \<Rightarrow> bool" where
  "Is4In6 (Addr6 w _) = (drop_bit 32 w = 0xffff)"
| "Is4In6 _ = False"

fun Zone :: "addr \<Rightarrow> string" where
  "Zone (Addr6 _ z) = z"
| "Zone _ = []"

fun IsValid :: "addr \<Rightarrow> bool" where
  "IsValid AddrZero = False"
| "IsValid _ = True"

fun IsUnspecified :: "addr \<Rightarrow> bool" where
  "IsUnspecified AddrZero = False"
| "IsUnspecified (Addr4 w) = (w = 0)"
| "IsUnspecified (Addr6 w z) = (w = 0 \<and> z = [])"

text \<open>\<open>Unmap\<close> turns an IPv4-mapped IPv6 address into the IPv4 address and drops its zone.\<close>

fun Unmap :: "addr \<Rightarrow> addr" where
  "Unmap (Addr6 w z) = (if drop_bit 32 w = 0xffff then Addr4 (ucast w) else Addr6 w z)"
| "Unmap a = a"

text \<open>\<open>WithZone("")\<close> removes the zone; it leaves the other forms alone.\<close>

fun WithoutZone :: "addr \<Rightarrow> addr" where
  "WithoutZone (Addr6 w _) = Addr6 w []"
| "WithoutZone a = a"

fun AsSlice :: "addr \<Rightarrow> bytes" where
  "AsSlice AddrZero = []"
| "AsSlice (Addr4 w) = be_bytes 4 w"
| "AsSlice (Addr6 w _) = be_bytes 16 w"

text \<open>\<open>As16\<close> of an IPv4 address is its mapped form; it panics on the zero address.\<close>

fun As16 :: "addr \<Rightarrow> bytes" where
  "As16 AddrZero = []"
| "As16 (Addr4 w) = replicate 10 0 @ [0xff, 0xff] @ be_bytes 4 w"
| "As16 (Addr6 w _) = be_bytes 16 w"

definition AddrFrom16 :: "bytes \<Rightarrow> addr" where
  "AddrFrom16 bs = Addr6 (of_nat (be_val bs)) []"

lemma Unmap_idem [simp]: "Unmap (Unmap a) = Unmap a"
  by (cases a) auto

lemma not_mapped_Unmap [simp]: "\<not> Is4In6 (Unmap a)"
  by (cases a) auto

lemma length_AsSlice: "length (AsSlice a) \<in> {0, 4, 16}"
  by (cases a) auto

lemma AddrFrom16_As16 [simp]: "Is6 a \<Longrightarrow> Zone a = [] \<Longrightarrow> AddrFrom16 (As16 a) = a"
  by (cases a) (simp_all add: AddrFrom16_def of_nat_be_val_be_bytes)

lemma As16_AddrFrom16 [simp]: "length bs = 16 \<Longrightarrow> As16 (AddrFrom16 bs) = bs"
  by (simp add: AddrFrom16_def be_bytes_of_val)

lemma Is6_AddrFrom16 [simp]: "Is6 (AddrFrom16 bs)" "Zone (AddrFrom16 bs) = []"
  by (simp_all add: AddrFrom16_def)

lemma length_As16 [simp, wire_simps]: "Is6 a \<Longrightarrow> length (As16 a) = 16"
  by (cases a) auto

lemma be_bytes_inj:
  assumes "LENGTH('a) \<le> 8 * n" and "be_bytes n (v :: 'a::len word) = be_bytes n w"
  shows "v = w"
  using assms by (metis of_nat_be_val_be_bytes)

lemma be_bytes_length_eq: "be_bytes n v = be_bytes m w \<Longrightarrow> n = m"
  by (metis length_be_bytes)

text \<open>The hashed octets determine an unmapped, zone-free valid address.\<close>

lemma AsSlice_inj:
  assumes "IsValid a" "IsValid b" "Zone a = []" "Zone b = []"
    and "AsSlice a = AsSlice b"
  shows "a = b"
proof -
  show ?thesis
    using assms
    by (cases a; cases b) (auto dest: be_bytes_inj [rotated] be_bytes_length_eq)
qed

section \<open>Prefixes\<close>

text \<open>
  \<open>netip.Prefix\<close>: an address without zone and a number of bits; the zero prefix has the zero address and -1 bits,
  the value \<open>Bits\<close> returns for it. \<open>Prefix\<close> masks the address off to the bits; it returns the zero prefix for the zero
  address and fails when there are more bits than the address has.
\<close>

record prefix =
  PAddr :: addr
  Bits :: int

definition zero_prefix :: prefix where
  "zero_prefix = \<lparr>PAddr = AddrZero, Bits = -1\<rparr>"

definition prefix_valid :: "prefix \<Rightarrow> bool" where
  "prefix_valid p \<longleftrightarrow> Bits p \<ge> 0"

fun BitLen :: "addr \<Rightarrow> nat" where
  "BitLen AddrZero = 0"
| "BitLen (Addr4 _) = 32"
| "BitLen (Addr6 _ _) = 128"

definition keep_bits :: "nat \<Rightarrow> nat \<Rightarrow> 'a::len word \<Rightarrow> 'a word" where
  "keep_bits width b w = push_bit (width - b) (drop_bit (width - b) w)"

fun addr_Prefix :: "addr \<Rightarrow> nat \<Rightarrow> prefix option" where
  "addr_Prefix AddrZero b = Some zero_prefix"
| "addr_Prefix (Addr4 w) b = (if b > 32 then None else Some \<lparr>PAddr = Addr4 (keep_bits 32 b w), Bits = int b\<rparr>)"
| "addr_Prefix (Addr6 w z) b = (if b > 128 then None else Some \<lparr>PAddr = Addr6 (keep_bits 128 b w) [], Bits = int b\<rparr>)"

definition PrefixFrom :: "addr \<Rightarrow> nat \<Rightarrow> prefix" where
  "PrefixFrom a b =
     (if IsValid a \<and> b \<le> BitLen a then \<lparr>PAddr = WithoutZone a, Bits = int b\<rparr>
      else \<lparr>PAddr = WithoutZone a, Bits = -1\<rparr>)"

text \<open>\<open>AddrFromSlice\<close> takes four octets as IPv4 and sixteen as IPv6, and refuses other lengths.\<close>

definition AddrFromSlice :: "bytes \<Rightarrow> addr option" where
  "AddrFromSlice bs =
     (if length bs = 4 then Some (Addr4 (of_nat (be_val bs)))
      else if length bs = 16 then Some (AddrFrom16 bs) else None)"

lemma keep_bits_bit:
  fixes w :: "'a::len word"
  assumes "LENGTH('a) = width"
  shows "bit (keep_bits width b w) j \<longleftrightarrow> width - b \<le> j \<and> bit w j"
  using assms by (auto simp: keep_bits_def bit_simps dest: bit_imp_le_length)

text \<open>An address none of whose bits beyond the first \<open>b\<close> is set.\<close>

fun masked_to :: "nat \<Rightarrow> addr \<Rightarrow> bool" where
  "masked_to b AddrZero \<longleftrightarrow> False"
| "masked_to b (Addr4 w) \<longleftrightarrow> (\<forall>j < 32 - b. \<not> bit w j)"
| "masked_to b (Addr6 w z) \<longleftrightarrow> z = [] \<and> (\<forall>j < 128 - b. \<not> bit w j)"

lemma addr_Prefix_masked:
  "addr_Prefix a b = Some p \<Longrightarrow> IsValid a \<Longrightarrow> Bits p = int b \<and> masked_to b (PAddr p) \<and> b \<le> BitLen a"
  by (cases a) (auto simp: keep_bits_bit split: if_splits)

end
