(* ===== verification/Go_Text.thy ===== *)
theory Go_Text
  imports Go_Lib
begin

text \<open>
  Text routines of Go's standard library used by the plugins: ASCII case folding (the reference
  the plugins' own folding loops are compared with, RFC 4343 section 3), \<open>encoding/hex\<close> and
  \<open>strconv.ParseUint\<close>.
\<close>

section \<open>ASCII folding\<close>

definition is_upper :: "char \<Rightarrow> bool" where
  "is_upper c \<longleftrightarrow> CHR ''A'' \<le> c \<and> c \<le> CHR ''Z''"

text \<open>The source writes the fold as \<open>c += 'a' - 'A'\<close> under the test \<open>'A' <= c && c <= 'Z'\<close>.\<close>

definition lower_char :: "char \<Rightarrow> char" where
  "lower_char c = (if is_upper c then char_of (of_char c + 32 :: nat) else c)"

definition lower_ascii :: "string \<Rightarrow> string" where
  "lower_ascii s = map lower_char s"

lemma is_upper_alt: "is_upper c \<longleftrightarrow> 65 \<le> (of_char c :: nat) \<and> (of_char c :: nat) \<le> 90"
  by (simp add: is_upper_def less_eq_char_def)

lemma of_lower_char: "(of_char (lower_char c) :: nat) = (if is_upper c then of_char c + 32 else of_char c)"
  by (auto simp: lower_char_def is_upper_alt)

lemma not_upper_lower [simp, fold_simps]: "\<not> is_upper (lower_char c)"
  unfolding is_upper_alt [of "lower_char c"] of_lower_char by (auto simp: is_upper_alt)

lemma lower_char_idem [simp, fold_simps]: "lower_char (lower_char c) = lower_char c"
  using not_upper_lower [of c] by (simp add: lower_char_def [of "lower_char c"])

lemma lower_char_fix [fold_simps]: "\<not> is_upper c \<Longrightarrow> lower_char c = c"
  by (simp add: lower_char_def)

lemma lower_char_eq_iff:
  assumes "(of_char d :: nat) < 65 \<or> 90 < (of_char d :: nat) \<and> (of_char d :: nat) < 97"
  shows "lower_char c = d \<longleftrightarrow> c = d"
proof (cases "is_upper c")
  case True
  then have r: "65 \<le> (of_char c :: nat)" "(of_char c :: nat) \<le> 90" by (simp_all add: is_upper_alt)
  have "(of_char (lower_char c) :: nat) \<noteq> of_char d"
    using True r assms by (auto simp: of_lower_char)
  moreover have "c \<noteq> d" using r assms by auto
  ultimately show ?thesis by auto
qed (simp add: lower_char_fix)

lemma lower_char_punct [simp, fold_simps]:
  "lower_char c = CHR ''.'' \<longleftrightarrow> c = CHR ''.''"
  "lower_char c = CHR ''_'' \<longleftrightarrow> c = CHR ''_''"
  "lower_char c = CHR ''-'' \<longleftrightarrow> c = CHR ''-''"
  by (rule lower_char_eq_iff, simp)+

lemma lower_ascii_idem [simp, fold_simps]: "lower_ascii (lower_ascii s) = lower_ascii s"
  by (simp add: lower_ascii_def comp_def)

lemma length_lower_ascii [simp, fold_simps]: "length (lower_ascii s) = length s"
  by (simp add: lower_ascii_def)

lemma lower_ascii_append [simp, fold_simps]: "lower_ascii (a @ b) = lower_ascii a @ lower_ascii b"
  by (simp add: lower_ascii_def)

lemma lower_ascii_Nil_iff [simp, fold_simps]: "lower_ascii s = [] \<longleftrightarrow> s = []"
  by (simp add: lower_ascii_def)

lemma fold_eq_nth:
  "length a = length b \<and> list_all (\<lambda>i. lower_char (a ! i) = lower_char (b ! i)) [0..<length a] \<longleftrightarrow>
     lower_ascii a = lower_ascii b"
proof (cases "length a = length b")
  case True
  then show ?thesis
    unfolding lower_ascii_def list_eq_iff_nth_eq [of "map lower_char a"]
    by (simp add: list_all_iff atLeast0LessThan Ball_def)
next
  case False
  then show ?thesis by (metis length_lower_ascii)
qed

lemma lower_ascii_id: "\<forall>c\<in>set s. \<not> is_upper c \<Longrightarrow> lower_ascii s = s"
  by (simp add: lower_ascii_def map_idI lower_char_fix)

text \<open>
  The plugins fold with one optimisation: they skip the prefix that needs no folding and return the string
  unchanged when there is nothing else.
\<close>

lemma fold_after_prefix:
  "(let i = length (takeWhile (\<lambda>c. \<not> is_upper c) s) in
    if i = length s then s else take i s @ map lower_char (drop i s)) = lower_ascii s"
proof -
  let ?P = "\<lambda>c. \<not> is_upper c"
  let ?t = "takeWhile ?P s"
  have "drop (length ?t) s = dropWhile ?P s" by (metis append_eq_conv_conj takeWhile_dropWhile_id)
  moreover have "take (length ?t) s = ?t" by (simp add: takeWhile_eq_take [symmetric])
  moreover have "map lower_char ?t = ?t" by (auto intro!: map_idI lower_char_fix dest: set_takeWhileD)
  moreover have "lower_ascii s = map lower_char ?t @ map lower_char (dropWhile ?P s)"
    by (simp add: lower_ascii_def flip: map_append)
  moreover have "dropWhile ?P s = []" if "length ?t = length s"
    using that by (metis calculation(1) drop_all order_refl)
  ultimately show ?thesis by (auto simp: Let_def)
qed

section \<open>Hexadecimal text\<close>

definition hex_digit_val :: "char \<Rightarrow> nat option" where
  "hex_digit_val c =
     (if CHR ''0'' \<le> c \<and> c \<le> CHR ''9'' then Some (of_char c - 48)
      else if CHR ''a'' \<le> c \<and> c \<le> CHR ''f'' then Some (of_char c - 87)
      else if CHR ''A'' \<le> c \<and> c \<le> CHR ''F'' then Some (of_char c - 55)
      else None)"

definition hex_digit :: "nat \<Rightarrow> char" where
  "hex_digit n = (if n < 10 then char_of (n + 48) else char_of (n + 87))"

text \<open>\<open>hex.DecodeString\<close>: an odd length or a non-digit is an error.\<close>

fun hex_decode :: "string \<Rightarrow> bytes option" where
  "hex_decode [] = Some []"
| "hex_decode [_] = None"
| "hex_decode (h # l # rest) =
     do { a \<leftarrow> hex_digit_val h; b \<leftarrow> hex_digit_val l; bs \<leftarrow> hex_decode rest;
          Some (of_nat (16 * a + b) # bs) }"

fun hex_encode :: "bytes \<Rightarrow> string" where
  "hex_encode [] = []"
| "hex_encode (b # bs) = hex_digit (unat b div 16) # hex_digit (unat b mod 16) # hex_encode bs"

lemma hex_digit_val_hex_digit [simp]: "n < 16 \<Longrightarrow> hex_digit_val (hex_digit n) = Some n"
  by (auto simp: hex_digit_val_def hex_digit_def less_eq_char_def)

lemma hex_decode_encode [simp]: "hex_decode (hex_encode bs) = Some bs"
proof (induction bs)
  case Nil
  show ?case by simp
next
  case (Cons b bs)
  have "unat b div 16 < 16" using unat_byte_less [of b] by linarith
  moreover have "16 * of_nat (unat b div 16) + of_nat (unat b mod 16) = b"
  proof -
    have "16 * of_nat (unat b div 16) + of_nat (unat b mod 16) =
        (of_nat (16 * (unat b div 16) + unat b mod 16) :: byte)"
      by (simp only: of_nat_add of_nat_mult of_nat_numeral)
    also have "\<dots> = b" by (simp only: mult_div_mod_eq) simp
    finally show ?thesis .
  qed
  ultimately show ?case using Cons by simp
qed

lemma length_hex_encode [simp]: "length (hex_encode bs) = 2 * length bs"
  by (induction bs) auto

lemma length_hex_decode: "hex_decode s = Some bs \<Longrightarrow> length s = 2 * length bs"
  by (induction s arbitrary: bs rule: hex_decode.induct) (auto split: bind_splits)

lemma of_char_hex_digit: "n < 16 \<Longrightarrow> (of_char (hex_digit n) :: nat) = (if n < 10 then n + 48 else n + 87)"
  by (simp add: hex_digit_def)

lemma hex_digit_val_Some: "hex_digit_val c = Some d \<longleftrightarrow> d < 16 \<and> lower_char c = hex_digit d"
proof -
  have eq: "lower_char c = hex_digit d \<longleftrightarrow> (of_char (lower_char c) :: nat) = of_char (hex_digit d)"
    by simp
  show ?thesis
    by (cases "d < 16")
      (auto simp: eq of_char_hex_digit of_lower_char is_upper_alt hex_digit_val_def less_eq_char_def split: if_splits)
qed

text \<open>The verb \<open>%04x\<close> of a 16-bit value: four digits, zero-padded, in lower case.\<close>

definition hex4 :: "u16 \<Rightarrow> string" where
  "hex4 w = [hex_digit (unat w div 4096), hex_digit (unat w div 256 mod 16), hex_digit (unat w div 16 mod 16),
     hex_digit (unat w mod 16)]"

lemma length_hex4 [simp]: "length (hex4 w) = 4"
  by (simp add: hex4_def)

section \<open>Numbers\<close>

text \<open>
  \<open>strconv.ParseUint(s, base, bits)\<close> for the bases 10 and 16 the plugins use: no sign, no
  underscore, at least one digit, and a value below \<open>2 ^ bits\<close>.
\<close>

fun digits_val :: "nat \<Rightarrow> nat \<Rightarrow> string \<Rightarrow> nat option" where
  "digits_val base acc [] = Some acc"
| "digits_val base acc (c # cs) =
     (case hex_digit_val c of
        None \<Rightarrow> None
      | Some d \<Rightarrow> if d < base then digits_val base (acc * base + d) cs else None)"

definition parse_uint :: "nat \<Rightarrow> nat \<Rightarrow> string \<Rightarrow> nat option" where
  "parse_uint base bits s =
     (if s = [] then None
      else case digits_val base 0 s of
             None \<Rightarrow> None
           | Some n \<Rightarrow> if n < 2 ^ bits then Some n else None)"

text \<open>\<open>strconv.Itoa\<close> of a number that is not negative.\<close>

fun itoa :: "nat \<Rightarrow> string" where
  "itoa n = (if n < 10 then [hex_digit n] else itoa (n div 10) @ [hex_digit (n mod 10)])"

declare itoa.simps [simp del]

lemma parse_uint_less: "parse_uint base bits s = Some n \<Longrightarrow> n < 2 ^ bits"
  by (auto simp: parse_uint_def split: if_splits option.splits)

text \<open>Four digits are a 16-bit value, in one way up to case.\<close>

lemma base16_digits:
  "(n::nat) = ((a * 16 + b) * 16 + c) * 16 + d \<and> a < 16 \<and> b < 16 \<and> c < 16 \<and> d < 16 \<longleftrightarrow>
   n < 65536 \<and> a = n div 4096 \<and> b = n div 256 mod 16 \<and> c = n div 16 mod 16 \<and> d = n mod 16"
proof
  assume "n = ((a * 16 + b) * 16 + c) * 16 + d \<and> a < 16 \<and> b < 16 \<and> c < 16 \<and> d < 16"
  then have n: "n = 16 * (16 * (16 * a + b) + c) + d" and l: "a < 16" "b < 16" "c < 16" "d < 16" by auto
  have dm: "(16 * q + r) div 16 = q" "(16 * q + r) mod 16 = r" if "r < 16" for q r :: nat
    using that by simp_all
  have q1: "n div 16 = 16 * (16 * a + b) + c" and r1: "n mod 16 = d" unfolding n using dm [OF l(4)] by blast+
  have q2: "n div 16 div 16 = 16 * a + b" and r2: "n div 16 mod 16 = c" unfolding q1 using dm [OF l(3)] by blast+
  have q3: "n div 16 div 16 div 16 = a" and r3: "n div 16 div 16 mod 16 = b" unfolding q2 using dm [OF l(2)] by blast+
  show "n < 65536 \<and> a = n div 4096 \<and> b = n div 256 mod 16 \<and> c = n div 16 mod 16 \<and> d = n mod 16"
    using n l r1 r2 r3 q3 by (simp add: div_mult2_eq [symmetric])
next
  assume r: "n < 65536 \<and> a = n div 4096 \<and> b = n div 256 mod 16 \<and> c = n div 16 mod 16 \<and> d = n mod 16"
  have "n = 16 * (n div 16) + d" "n div 16 = 16 * (n div 256) + c" "n div 256 = 16 * a + b"
    using r div_mult2_eq [of n 16 16] div_mult2_eq [of n 256 16] mult_div_mod_eq [of 16 n]
      mult_div_mod_eq [of 16 "n div 16"] mult_div_mod_eq [of 16 "n div 256"] by simp_all
  then obtain q1 q2 where "n = 16 * q1 + d" "q1 = 16 * q2 + c" "q2 = 16 * a + b" by blast
  then have "n = ((a * 16 + b) * 16 + c) * 16 + d" by simp
  moreover have "a < 16" "b < 16" "c < 16" "d < 16" using r by (auto simp: less_mult_imp_div_less)
  ultimately show "n = ((a * 16 + b) * 16 + c) * 16 + d \<and> a < 16 \<and> b < 16 \<and> c < 16 \<and> d < 16" by blast
qed

lemma digits_val_Cons:
  "digits_val 16 acc (c # cs) = Some n \<longleftrightarrow>
     (\<exists>d<16. lower_char c = hex_digit d \<and> digits_val 16 (acc * 16 + d) cs = Some n)"
proof (cases "hex_digit_val c")
  case None
  then have "\<not> (d < 16 \<and> lower_char c = hex_digit d)" for d using hex_digit_val_Some [of c d] by simp
  then show ?thesis using None by auto
next
  case (Some e)
  then have e: "d < 16 \<and> lower_char c = hex_digit d \<longleftrightarrow> d = e" for d using hex_digit_val_Some [of c d] by auto
  have ee: "e < 16" "lower_char c = hex_digit e" using e [of e] by blast+
  have "digits_val 16 acc (c # cs) = digits_val 16 (acc * 16 + e) cs"
    unfolding digits_val.simps Some option.case using ee(1) by (rule if_P)
  then show ?thesis using e ee by metis
qed

lemma hex4_iff:
  "[hex_digit a, hex_digit b, hex_digit c, hex_digit d] = hex4 w \<and> a < 16 \<and> b < 16 \<and> c < 16 \<and> d < 16 \<longleftrightarrow>
   unat w = ((a * 16 + b) * 16 + c) * 16 + d \<and> a < 16 \<and> b < 16 \<and> c < 16 \<and> d < 16"
proof -
  have lt: "unat w < 65536" using unsigned_less [of w, where ?'a = nat] by simp
  have inj: "hex_digit i = hex_digit j \<longleftrightarrow> i = j" if "i < 16" "j < 16" for i j
    using that hex_digit_val_hex_digit by (metis option.inject)
  have "unat w div 4096 < 16" using lt by (simp add: less_mult_imp_div_less)
  then have "a < 16 \<and> b < 16 \<and> c < 16 \<and> d < 16 \<Longrightarrow> [hex_digit a, hex_digit b, hex_digit c, hex_digit d] = hex4 w \<longleftrightarrow>
      a = unat w div 4096 \<and> b = unat w div 256 mod 16 \<and> c = unat w div 16 mod 16 \<and> d = unat w mod 16"
    unfolding hex4_def by (simp add: inj)
  then show ?thesis using base16_digits [of "unat w" a b c d] lt by blast
qed

lemma parse_uint_hex4:
  "length p = 4 \<and> parse_uint 16 16 p = Some n \<longleftrightarrow> (\<exists>w. n = unat w \<and> lower_ascii p = hex4 w)"
proof (cases "length p = 4")
  case True
  then obtain x1 x2 x3 x4 where p: "p = [x1, x2, x3, x4]"
    by (auto simp: length_Suc_conv numeral_eq_Suc)
  have "parse_uint 16 16 p = Some n \<longleftrightarrow> n < 65536 \<and> digits_val 16 0 p = Some n"
    by (auto simp: parse_uint_def p split: option.splits if_splits)
  also have "\<dots> \<longleftrightarrow> n < 65536 \<and> (\<exists>a<16. \<exists>b<16. \<exists>c<16. \<exists>d<16.
      lower_ascii p = [hex_digit a, hex_digit b, hex_digit c, hex_digit d] \<and> n = ((a * 16 + b) * 16 + c) * 16 + d)"
    unfolding p digits_val_Cons by (auto simp: lower_ascii_def)
  also have "\<dots> \<longleftrightarrow> (\<exists>w. n = unat w \<and> lower_ascii p = hex4 w)"
  proof
    assume "\<exists>w. n = unat w \<and> lower_ascii p = hex4 w"
    then obtain w where w: "n = unat w" "lower_ascii p = hex4 w" by blast
    have "n < 65536" using w(1) unsigned_less [of w, where ?'a = nat] by simp
    moreover obtain a b c d where dg: "n = ((a * 16 + b) * 16 + c) * 16 + d \<and> a < 16 \<and> b < 16 \<and> c < 16 \<and> d < 16"
      using base16_digits [of n] \<open>n < 65536\<close> by blast
    moreover have "hex4 w = [hex_digit a, hex_digit b, hex_digit c, hex_digit d]"
      using hex4_iff [of a b c d w] dg w(1) by metis
    ultimately show "n < 65536 \<and> (\<exists>a<16. \<exists>b<16. \<exists>c<16. \<exists>d<16.
        lower_ascii p = [hex_digit a, hex_digit b, hex_digit c, hex_digit d] \<and> n = ((a * 16 + b) * 16 + c) * 16 + d)"
      unfolding w(2) by blast
  next
    assume a: "n < 65536 \<and> (\<exists>a<16. \<exists>b<16. \<exists>c<16. \<exists>d<16.
        lower_ascii p = [hex_digit a, hex_digit b, hex_digit c, hex_digit d] \<and> n = ((a * 16 + b) * 16 + c) * 16 + d)"
    then have "unat (of_nat n :: u16) = n" by (simp add: unat_of_nat)
    with a hex4_iff [of _ _ _ _ "of_nat n"] have "lower_ascii p = hex4 (of_nat n)" by metis
    with \<open>unat (of_nat n :: u16) = n\<close> show "\<exists>w. n = unat w \<and> lower_ascii p = hex4 w" by metis
  qed
  finally show ?thesis using True by simp
next
  case False
  then show ?thesis using length_lower_ascii [of p] length_hex4 by metis
qed

text \<open>\<open>Itoa\<close> and \<open>ParseUint\<close> are inverse on 16-bit numbers, which take at most five digits.\<close>

lemma digits_val_snoc:
  "digits_val base acc (cs @ [c]) =
     (case digits_val base acc cs of
        None \<Rightarrow> None
      | Some n \<Rightarrow> (case hex_digit_val c of None \<Rightarrow> None | Some d \<Rightarrow> if d < base then Some (n * base + d) else None))"
  by (induction cs arbitrary: acc) (auto split: option.splits)

lemma digits_val_itoa: "digits_val 10 0 (itoa n) = Some n"
proof (induction n rule: itoa.induct)
  case (1 n)
  then show ?case by (subst itoa.simps) (simp add: digits_val_snoc)
qed

lemma itoa_nonempty [simp]: "itoa n \<noteq> []"
  by (subst itoa.simps) simp

lemma parse_uint_itoa: "n < 65536 \<Longrightarrow> parse_uint 10 16 (itoa n) = Some n"
  by (simp add: parse_uint_def digits_val_itoa)

lemma itoa_digits: "c \<in> set (itoa n) \<Longrightarrow> CHR ''0'' \<le> c \<and> c \<le> CHR ''9''"
proof (induction n rule: itoa.induct)
  case (1 n)
  have d: "CHR ''0'' \<le> hex_digit k \<and> hex_digit k \<le> CHR ''9''" if "k < 10" for k
    using that by (simp add: less_eq_char_def of_char_hex_digit)
  show ?case
  proof (cases "n < 10")
    case True
    then show ?thesis using 1(2) d [of n] by (subst (asm) itoa.simps) simp
  next
    case False
    then show ?thesis using 1 d [of "n mod 10"] by (subst (asm) (2) itoa.simps) auto
  qed
qed

lemma length_itoa: "n < 10 ^ k \<Longrightarrow> 0 < k \<Longrightarrow> length (itoa n) \<le> k"
proof (induction k arbitrary: n)
  case (Suc k)
  show ?case
  proof (cases "n < 10")
    case False
    then have "k \<noteq> 0" using Suc.prems by (cases k) auto
    moreover have "n div 10 < 10 ^ k" using Suc.prems(1) by (simp add: less_mult_imp_div_less mult.commute)
    ultimately show ?thesis using Suc.IH [of "n div 10"] False by (subst itoa.simps) simp
  qed (subst itoa.simps, simp)
qed simp

end
