(* ===== verification/Cookie.thy ===== *)
theory Cookie
  imports Siphash Go_Net Go_Text
begin

text \<open>
  \<open>cookie/cookie.go\<close>: the option classes of RFC 7873, the version 1 server cookie of RFC 9018, its
  verification window in 32-bit serial arithmetic, and the generating and verify-only secrets.
  Fixed-size Go arrays are lists whose lengths the statements give.
\<close>

section \<open>Definitions\<close>

abbreviation (input) "clientCookieLen \<equiv> 8 :: nat"
abbreviation (input) "serverCookieLen \<equiv> 16 :: nat"
abbreviation (input) "minWithServer \<equiv> clientCookieLen + 8"
abbreviation (input) "maxWithServer \<equiv> clientCookieLen + 32"
abbreviation (input) "versionSIPHash24 \<equiv> 1 :: byte"
abbreviation (input) "maxAgeSeconds \<equiv> 3600 :: u32"

datatype cookie_class = classMalformed | classClientOnly | classWithServer

definition classify :: "nat \<Rightarrow> cookie_class" where
  "classify optLen =
     (if optLen = clientCookieLen then classClientOnly
      else if minWithServer \<le> optLen \<and> optLen \<le> maxWithServer then classWithServer
      else classMalformed)"

definition hashInput :: "bytes \<Rightarrow> byte \<Rightarrow> bytes \<Rightarrow> u32 \<Rightarrow> bytes \<Rightarrow> bytes" where
  "hashInput client version reserved ts ip = client @ [version] @ reserved @ putBE32 ts @ ip"

definition addrBytes :: "addr \<Rightarrow> bytes" where
  "addrBytes ip = AsSlice (Unmap ip)"

definition serverCookie :: "bytes \<Rightarrow> bytes \<Rightarrow> u32 \<Rightarrow> addr \<Rightarrow> bytes" where
  "serverCookie secret client ts ip =
     (let h = siphash24 secret (hashInput client versionSIPHash24 [0, 0, 0] ts (addrBytes ip))
      in [versionSIPHash24] @ [0, 0, 0] @ putBE32 ts @ putLE64 h)"

text \<open>\<open>1<<32 - maxFutureSeconds\<close> is 4294966996; the difference is taken modulo \<open>2 ^ 32\<close>.\<close>

definition inWindow :: "u32 \<Rightarrow> u32 \<Rightarrow> bool" where
  "inWindow now ts = (let age = now - ts in age \<le> maxAgeSeconds \<or> 4294966996 \<le> age)"

definition verify :: "bytes \<Rightarrow> bytes \<Rightarrow> bytes \<Rightarrow> addr \<Rightarrow> u32 \<Rightarrow> bool" where
  "verify secret client server ip now =
     (if length server \<noteq> serverCookieLen \<or> server ! 0 \<noteq> versionSIPHash24 then False
      else
        let ts = getBE32 (take 4 (drop 4 server)) in
        if \<not> inWindow now ts then False
        else
          let reserved = take 3 (drop 1 server);
              h = siphash24 secret (hashInput client (server ! 0) reserved ts (addrBytes ip));
              want = putLE64 h
          in want = drop 8 server)"

datatype status =
  statusNone | statusMalformed | statusClientOnly | statusInvalidServer | statusValid | statusValidPrevious

record secrets =
  verifyOnly :: "bytes list"
  generate :: bytes

text \<open>The loop over the verify-only secrets stops at the first that verifies.\<close>

fun check_previous :: "bytes list \<Rightarrow> bytes \<Rightarrow> bytes \<Rightarrow> addr \<Rightarrow> u32 \<Rightarrow> status" where
  "check_previous [] client server ip now = statusInvalidServer"
| "check_previous (k # ks) client server ip now =
     (if verify k client server ip now then statusValidPrevious
      else check_previous ks client server ip now)"

definition check :: "secrets \<Rightarrow> bytes \<Rightarrow> bytes \<Rightarrow> addr \<Rightarrow> u32 \<Rightarrow> status" where
  "check s client server ip now =
     (if verify (generate s) client server ip now then statusValid
      else check_previous (verifyOnly s) client server ip now)"

definition validated :: "status \<Rightarrow> bool" where
  "validated s \<longleftrightarrow> s = statusValid \<or> s = statusValidPrevious"

section \<open>Cookies and their verification\<close>

lemma length_serverCookie [simp, wire_simps]: "length (serverCookie secret client ts ip) = 16"
  by (simp add: serverCookie_def Let_def)

lemma list_split_8: "length xs = 16 \<Longrightarrow> xs = xs ! 0 # take 3 (drop 1 xs) @ take 4 (drop 4 xs) @ drop 8 xs"
proof -
  assume l: "length xs = 16"
  then obtain y ys where xs: "xs = y # ys" by (cases xs) auto
  have "ys = take 3 ys @ take 4 (drop 3 ys) @ drop 4 (drop 3 ys)"
    by (simp only: append_take_drop_id)
  then show ?thesis by (simp add: xs)
qed

text \<open>What verification accepts, exactly: the shape of RFC 9018 with the hash of its own fields.\<close>

lemma verify_iff:
  "verify secret client server ip now \<longleftrightarrow>
     (\<exists>reserved ts. length reserved = 3 \<and> inWindow now ts \<and>
        server = [versionSIPHash24] @ reserved @ putBE32 ts @
          putLE64 (siphash24 secret (hashInput client versionSIPHash24 reserved ts (addrBytes ip))))"
  (is "?v \<longleftrightarrow> ?shape")
proof
  assume v: ?v
  then have len: "length server = 16" and ver: "server ! 0 = 1"
    by (auto simp: verify_def split: if_splits)
  let ?ts = "getBE32 (take 4 (drop 4 server))" and ?r = "take 3 (drop 1 server)"
  have "putBE32 ?ts = take 4 (drop 4 server)"
    using len by (simp add: putBE32_getBE32)
  then have "server = [1] @ ?r @ putBE32 ?ts @ drop 8 server"
    using list_split_8 [OF len] ver by simp
  moreover have "inWindow now ?ts"
    and "drop 8 server = putLE64 (siphash24 secret (hashInput client 1 ?r ?ts (addrBytes ip)))"
    using v len ver by (simp_all add: verify_def Let_def split: if_splits)
  moreover have "length ?r = 3" using len by simp
  ultimately show ?shape by metis
next
  assume ?shape
  then show ?v
    by (auto simp: verify_def Let_def)
qed

lemma serverCookie_shape:
  "serverCookie secret client ts ip =
     [versionSIPHash24] @ [0, 0, 0] @ putBE32 ts @
       putLE64 (siphash24 secret (hashInput client versionSIPHash24 [0, 0, 0] ts (addrBytes ip)))"
  by (simp add: serverCookie_def Let_def)

lemma cookie_fields_eq_iff:
  "length r1 = 3 \<Longrightarrow> length r2 = 3 \<Longrightarrow>
     [v] @ r1 @ putBE32 t1 @ putLE64 h1 = [w] @ r2 @ putBE32 t2 @ putLE64 h2 \<longleftrightarrow>
       v = w \<and> r1 = r2 \<and> t1 = t2 \<and> h1 = h2"
  by (auto simp: append_eq_append_conv)

lemma verify_minted: "verify secret client (serverCookie secret client ts ip) ip now \<longleftrightarrow> inWindow now ts"
proof
  assume "verify secret client (serverCookie secret client ts ip) ip now"
  then obtain r t where r: "length r = 3" and w: "inWindow now t"
    and eq: "serverCookie secret client ts ip = [1] @ r @ putBE32 t @
      putLE64 (siphash24 secret (hashInput client 1 r t (addrBytes ip)))"
    unfolding verify_iff by blast
  have z: "length [0, 0, 0 :: byte] = 3" by simp
  have "ts = t"
    using eq unfolding serverCookie_shape cookie_fields_eq_iff [OF z r] by simp
  with w show "inWindow now ts" by simp
next
  assume "inWindow now ts"
  then show "verify secret client (serverCookie secret client ts ip) ip now"
    unfolding verify_iff
    by (intro exI [of _ "[0, 0, 0]"] exI [of _ ts]) (simp add: serverCookie_shape)
qed

lemma check_previous_iff:
  "check_previous ks client server ip now =
     (if \<exists>k\<in>set ks. verify k client server ip now then statusValidPrevious else statusInvalidServer)"
  by (induction ks) auto

text \<open>
  C7: a server cookie minted by \<open>serverCookie\<close> under any of the configured secrets, generating or
  verify-only, is validated by \<open>secrets.check\<close> exactly while its timestamp is in the window. This
  is what makes the three-stage secret rollover of RFC 9018 section 5 seamless across an anycast set.
\<close>

theorem rollover_accepts_configured_secrets:
  assumes "k \<in> set (generate s # verifyOnly s)" and "inWindow now ts"
  shows "validated (check s client (serverCookie k client ts ip) ip now)"
  using assms by (auto simp: validated_def check_def check_previous_iff verify_minted)

theorem rollover_accepts_configured_secrets_witness:
  "validated (check \<lparr>verifyOnly = [replicate 16 7], generate = replicate 16 9\<rparr> (replicate 8 1)
     (serverCookie (replicate 16 7) (replicate 8 1) 4294967295 (Addr4 5)) (Addr4 5) 100)"
  by (rule rollover_accepts_configured_secrets) (simp_all add: inWindow_def)

text \<open>
  C8: \<open>verify\<close> accepts exactly the server cookies of RFC 9018's shape: sixteen octets, version 1,
  any three Reserved octets (they are hashed, not enforced), a timestamp in the window, and the
  SipHash of precisely those fields with the client cookie and address.
\<close>

theorem verify_characterisation:
  "verify secret client server ip now \<longleftrightarrow>
     (\<exists>reserved ts. length reserved = 3 \<and> inWindow now ts \<and>
        server = [1] @ reserved @ putBE32 ts @
          putLE64 (siphash24 secret (hashInput client 1 reserved ts (addrBytes ip))))"
  by (rule verify_iff)

section \<open>The timestamp window\<close>

lemma inWindow_uint:
  "inWindow now ts \<longleftrightarrow> (uint now - uint ts) mod 2 ^ 32 \<le> 3600 \<or> 2 ^ 32 - 300 \<le> (uint now - uint ts) mod 2 ^ 32"
  by (simp add: inWindow_def Let_def word_le_def uint_word_ariths)

lemma inWindow_of_int:
  fixes now ts :: int
  assumes "now - ts < 2 ^ 32 - 300" and "ts - now < 2 ^ 32 - 3600"
  shows "inWindow (of_int now) (of_int ts) \<longleftrightarrow> ts - 300 \<le> now \<and> now \<le> ts + 3600"
proof -
  let ?d = "now - ts"
  have m: "(uint (of_int now :: u32) - uint (of_int ts :: u32)) mod 2 ^ 32 = ?d mod 2 ^ 32"
    by (simp add: uint_word_of_int mod_diff_eq)
  show ?thesis
  proof (cases "0 \<le> ?d")
    case True
    then have "?d mod 2 ^ 32 = ?d" using assms by (simp add: mod_pos_pos_trivial)
    then show ?thesis unfolding inWindow_uint m using True assms by auto
  next
    case False
    then have "?d mod 2 ^ 32 = ?d + 2 ^ 32"
      using assms by (smt (verit) mod_add_self2 mod_pos_pos_trivial)
    then show ?thesis unfolding inWindow_uint m using False assms by auto
  qed
qed

text \<open>
  for clocks that differ by less than the wrap allows, the 32-bit serial comparison of
  \<open>inWindow\<close> is the unbounded-integer rule of RFC 9018 section 4.3 (at most an hour old, at most
  five minutes ahead), also across the wrap of the timestamp field in 2106.
\<close>

lemma inWindow_is_integer_rule:
  fixes now ts :: int
  assumes "now - ts < 2 ^ 32 - 300" and "ts - now < 2 ^ 32 - 3600"
  shows "inWindow (of_int now) (of_int ts) \<longleftrightarrow> ts - 300 \<le> now \<and> now \<le> ts + 3600"
  using assms by (rule inWindow_of_int)

lemma inWindow_is_integer_rule_witness:
  "inWindow (of_int 4294967300) (of_int 4294967290) \<longleftrightarrow> (4294967290::int) - 300 \<le> 4294967300 \<and> (4294967300::int) \<le> 4294967290 + 3600"
  by (rule inWindow_is_integer_rule) simp_all

section \<open>The hashed input\<close>

text \<open>
  C10: the SipHash input determines its parts, also across IPv4 and IPv6: for eight-octet client
  cookies, three Reserved octets and valid zone-free addresses, two inputs are equal exactly if client
  cookie, version, Reserved, timestamp and unmapped address are.
\<close>

theorem hashInput_injective:
  assumes len: "length c1 = 8" "length c2 = 8" "length r1 = 3" "length r2 = 3"
    and addr: "IsValid ip1" "IsValid ip2" "Zone ip1 = []" "Zone ip2 = []"
  shows "hashInput c1 ver1 r1 ts1 (addrBytes ip1) = hashInput c2 ver2 r2 ts2 (addrBytes ip2) \<longleftrightarrow>
    c1 = c2 \<and> ver1 = ver2 \<and> r1 = r2 \<and> ts1 = ts2 \<and> Unmap ip1 = Unmap ip2"
proof -
  have "hashInput c1 ver1 r1 ts1 (addrBytes ip1) = hashInput c2 ver2 r2 ts2 (addrBytes ip2) \<longleftrightarrow>
      c1 = c2 \<and> ver1 = ver2 \<and> r1 = r2 \<and> ts1 = ts2 \<and> addrBytes ip1 = addrBytes ip2"
    using len by (auto simp: hashInput_def append_eq_append_conv)
  moreover have "IsValid (Unmap ip1)" "IsValid (Unmap ip2)" "Zone (Unmap ip1) = []" "Zone (Unmap ip2) = []"
    using addr by (cases ip1; cases ip2; simp)+
  ultimately show ?thesis
    using AsSlice_inj [of "Unmap ip1" "Unmap ip2"] by (auto simp: addrBytes_def)
qed

text \<open>The next second and another address give another input, the IPv4-mapped form of the address the same.\<close>

theorem hashInput_injective_witness:
  "let h = (\<lambda>ts ip. hashInput (replicate 8 1) 1 (replicate 3 0) ts (addrBytes ip)) in
   h 7 (Addr4 9) \<noteq> h 8 (Addr4 9) \<and> h 7 (Addr4 9) \<noteq> h 7 (Addr6 9 []) \<and> h 7 (Addr4 9) = h 7 (Addr6 0xffff00000009 [])"
proof -
  have "Unmap (Addr4 9) \<noteq> Unmap (Addr6 9 [])" "Unmap (Addr4 9) = Unmap (Addr6 0xffff00000009 [])" by code_simp+
  then show ?thesis
    by (simp add: Let_def hashInput_injective)
qed

text \<open>
  Address binding: once a server cookie verifies for one client address, it verifies for
  another address exactly if SipHash-2-4 under the secret maps the two hash inputs, which differ
  only in the address, to the same value.
\<close>

lemma cookie_binds_address:
  assumes "verify k client server ip1 now"
  shows "verify k client server ip2 now \<longleftrightarrow>
    siphash24 k (hashInput client 1 (take 3 (drop 1 server)) (getBE32 (take 4 (drop 4 server))) (addrBytes ip2)) =
    siphash24 k (hashInput client 1 (take 3 (drop 1 server)) (getBE32 (take 4 (drop 4 server))) (addrBytes ip1))"
proof -
  have "length server = 16" "server ! 0 = 1" "inWindow now (getBE32 (take 4 (drop 4 server)))"
    and "drop 8 server = putLE64 (siphash24 k (hashInput client 1 (take 3 (drop 1 server))
      (getBE32 (take 4 (drop 4 server))) (addrBytes ip1)))"
    using assms by (auto simp: verify_def Let_def split: if_splits)
  then show ?thesis by (simp add: verify_def Let_def)
qed

end
