(* ===== verification/Cookie_Vectors.thy ===== *)
theory Cookie_Vectors
  imports Cookie
begin

text \<open>
  The server cookies printed in RFC 9018, Appendix A.1 (IPv4) and A.4 (IPv6), evaluated in the
  kernel one absorbed 64-bit word at a time. They pin the octet order of the key, of the message
  blocks and of the result, and the layout of the hashed input.
\<close>

unbundle bit_operations_syntax

section \<open>Stepwise evaluation\<close>

definition sip_start :: "bytes \<Rightarrow> sipState" where
  "sip_start key =
     \<lparr>v0 = getLE64 (take 8 key) XOR sipInit0, v1 = getLE64 (drop 8 key) XOR sipInit1,
      v2 = getLE64 (take 8 key) XOR sipInit2, v3 = getLE64 (drop 8 key) XOR sipInit3\<rparr>"

definition sip_finish :: "sipState \<Rightarrow> u64" where
  "sip_finish s =
     (let s = sip_round (sip_round (s\<lparr>v2 := v2 s XOR 0xff\<rparr>)); s = sip_round (sip_round s)
      in v0 s XOR v1 s XOR v2 s XOR v3 s)"

definition secretA :: bytes where
  "secretA = [0xe5, 0xe9, 0x73, 0xe5, 0xa6, 0xb2, 0xa4, 0x3f, 0x48, 0xe7, 0xdc, 0x84, 0x9e, 0x37, 0xbf, 0xcf]"

definition secretB :: bytes where
  "secretB = [0x44, 0x55, 0x36, 0xbc, 0xd2, 0x51, 0x32, 0x98, 0x7, 0x5a, 0x5d, 0x37, 0x96, 0x63, 0xc9, 0x62]"

definition clientA1 :: bytes where
  "clientA1 = [0x24, 0x64, 0xc4, 0xab, 0xcf, 0x10, 0xc9, 0x57]"

definition clientA4 :: bytes where
  "clientA4 = [0x22, 0x68, 0x1a, 0xb9, 0x7d, 0x52, 0xc2, 0x98]"

definition addrA4 :: addr where
  "addrA4 = Addr6 0x20010db80220000159ded0f4876982b8 []"

lemma absorb_blocks_word:
  "length b = 8 \<Longrightarrow> absorb_blocks s (b @ rest) = absorb_blocks (absorb s (getLE64 b)) rest"
  by (subst absorb_blocks.simps) (simp add: getLE64_def)

lemma absorb_blocks_short: "length b < 8 \<Longrightarrow> absorb_blocks s b = (s, b)"
  by (subst absorb_blocks.simps) simp

lemma siphash24_split:
  assumes "absorb_blocks (sip_start key) msg = (s, rest)" and "length msg = n"
  shows "siphash24 key msg = sip_finish (absorb s (last_block n rest))"
  using assms by (simp add: siphash24_def sip_start_def sip_finish_def Let_def)

lemma be_bytes_4: "be_bytes 4 w = map (\<lambda>n. ucast (drop_bit n w)) [24, 16, 8, 0]"
  by (simp add: numeral_eq_Suc)

lemma be_bytes_8: "be_bytes 8 w = map (\<lambda>n. ucast (drop_bit n w)) [56, 48, 40, 32, 24, 16, 8, 0]"
  by (simp add: numeral_eq_Suc)

lemma be_bytes_16:
  "be_bytes 16 w = map (\<lambda>n. ucast (drop_bit n w))
     [120, 112, 104, 96, 88, 80, 72, 64, 56, 48, 40, 32, 24, 16, 8, 0]"
  by (simp add: numeral_eq_Suc)

lemma A1_start:
  "sip_start [0xe5, 0xe9, 0x73, 0xe5, 0xa6, 0xb2, 0xa4, 0x3f, 0x48, 0xe7, 0xdc, 0x84, 0x9e, 0x37, 0xbf, 0xcf] =
     \<lparr>v0 = 0x4ccbdfc395008c90, v1 = 0xabd045ffeab88825, v2 = 0x53ddd5c38b169b84, v3 = 0xbbda53fcfda8823b\<rparr>"
  by (simp add: sip_start_def getLE64_def le_val_def sipInit0_def sipInit1_def sipInit2_def sipInit3_def)

lemma A1_absorb0:
  "absorb \<lparr>v0 = 0x4ccbdfc395008c90, v1 = 0xabd045ffeab88825, v2 = 0x53ddd5c38b169b84, v3 = 0xbbda53fcfda8823b\<rparr> 0x57c910cfabc46424 =
     \<lparr>v0 = 0x547149eec0ed001a, v1 = 0x53d1de687fa21307, v2 = 0xb2bde35477a6468b, v3 = 0x4ca5f71b14f4901e\<rparr>"
  by code_simp

lemma A1_absorb1:
  "absorb \<lparr>v0 = 0x547149eec0ed001a, v1 = 0x53d1de687fa21307, v2 = 0xb2bde35477a6468b, v3 = 0x4ca5f71b14f4901e\<rparr> 0x119ff75c00000001 =
     \<lparr>v0 = 0x88970b25cb70607, v1 = 0xe7a159367a049e77, v2 = 0x5734e7cf8a0aa0fd, v3 = 0x84d57133ce2de7fd\<rparr>"
  by code_simp

lemma A1_absorb2:
  "absorb \<lparr>v0 = 0x88970b25cb70607, v1 = 0xe7a159367a049e77, v2 = 0x5734e7cf8a0aa0fd, v3 = 0x84d57133ce2de7fd\<rparr> 0x14000000646433c6 =
     \<lparr>v0 = 0xa7bd36809375688c, v1 = 0xcd279010a28393d5, v2 = 0x464c5afd6507bc08, v3 = 0xe98a2c1d30f2138b\<rparr>"
  by code_simp

lemma A1_rounds12:
  "sip_round (sip_round \<lparr>v0 = 0xa7bd36809375688c, v1 = 0xcd279010a28393d5, v2 = 0x464c5afd6507bcf7, v3 = 0xe98a2c1d30f2138b\<rparr>) =
     \<lparr>v0 = 0x2aac65236500af47, v1 = 0x99c09030f0da55b0, v2 = 0x42533a0e5a2ff24e, v3 = 0x6aae9aa7e6dba48e\<rparr>"
  by code_simp

lemma A1_rounds34:
  "sip_round (sip_round \<lparr>v0 = 0x2aac65236500af47, v1 = 0x99c09030f0da55b0, v2 = 0x42533a0e5a2ff24e, v3 = 0x6aae9aa7e6dba48e\<rparr>) =
     \<lparr>v0 = 0xa146057691943b7c, v1 = 0x62162511b9427aa0, v2 = 0xc4b703ffdd66163d, v3 = 0x8773c1763680d6fe\<rparr>"
  by code_simp

lemma A1_finish:
  "sip_finish \<lparr>v0 = 0xa7bd36809375688c, v1 = 0xcd279010a28393d5, v2 = 0x464c5afd6507bc08, v3 = 0xe98a2c1d30f2138b\<rparr> = 0x8094e2eec330811f"
  by (simp add: sip_finish_def A1_rounds12 A1_rounds34)

lemma A1_word0: "getLE64 [0x24, 0x64, 0xc4, 0xab, 0xcf, 0x10, 0xc9, 0x57] = 0x57c910cfabc46424"
  by (simp add: getLE64_def le_val_def)

lemma A1_word1: "getLE64 [0x1, 0x0, 0x0, 0x0, 0x5c, 0xf7, 0x9f, 0x11] = 0x119ff75c00000001"
  by (simp add: getLE64_def le_val_def)

lemma A1_last: "last_block 20 [0xc6, 0x33, 0x64, 0x64] = 0x14000000646433c6"
  by code_simp

lemma A1_blocks:
  "absorb_blocks (sip_start [0xe5, 0xe9, 0x73, 0xe5, 0xa6, 0xb2, 0xa4, 0x3f, 0x48, 0xe7, 0xdc, 0x84, 0x9e, 0x37, 0xbf, 0xcf])
     ([0x24, 0x64, 0xc4, 0xab, 0xcf, 0x10, 0xc9, 0x57] @ [0x1, 0x0, 0x0, 0x0, 0x5c, 0xf7, 0x9f, 0x11] @ [0xc6, 0x33, 0x64, 0x64]) =
     (\<lparr>v0 = 0x88970b25cb70607, v1 = 0xe7a159367a049e77, v2 = 0x5734e7cf8a0aa0fd, v3 = 0x84d57133ce2de7fd\<rparr>, [0xc6, 0x33, 0x64, 0x64])"
  by (simp only: A1_start absorb_blocks_word absorb_blocks_short list.size numeral_nat
      A1_word0 A1_absorb0 A1_word1 A1_absorb1)

lemma A1_hash:
  "siphash24 [0xe5, 0xe9, 0x73, 0xe5, 0xa6, 0xb2, 0xa4, 0x3f, 0x48, 0xe7, 0xdc, 0x84, 0x9e, 0x37, 0xbf, 0xcf]
     ([0x24, 0x64, 0xc4, 0xab, 0xcf, 0x10, 0xc9, 0x57] @ [0x1, 0x0, 0x0, 0x0, 0x5c, 0xf7, 0x9f, 0x11] @ [0xc6, 0x33, 0x64, 0x64]) = 0x8094e2eec330811f"
  by (subst siphash24_split [OF A1_blocks, where n = 20]) (simp_all add: A1_last A1_absorb2 A1_finish)

lemma A4_start:
  "sip_start [0x44, 0x55, 0x36, 0xbc, 0xd2, 0x51, 0x32, 0x98, 0x7, 0x5a, 0x5d, 0x37, 0x96, 0x63, 0xc9, 0x62] =
     \<lparr>v0 = 0xeb5d3cb7cc453031, v1 = 0x6a611f75939356a, v2 = 0xf44b36b7d2532725, v3 = 0x16ac07f44e293f74\<rparr>"
  by (simp add: sip_start_def getLE64_def le_val_def sipInit0_def sipInit1_def sipInit2_def sipInit3_def)

lemma A4_absorb0:
  "absorb \<lparr>v0 = 0xeb5d3cb7cc453031, v1 = 0x6a611f75939356a, v2 = 0xf44b36b7d2532725, v3 = 0x16ac07f44e293f74\<rparr> 0x98c2527db91a6822 =
     \<lparr>v0 = 0xeb201d562d59c7c5, v1 = 0xbfbf07b65cc2676a, v2 = 0x265047dd70b2c662, v3 = 0xe551fa989968c72e\<rparr>"
  by code_simp

lemma A4_absorb1:
  "absorb \<lparr>v0 = 0xeb201d562d59c7c5, v1 = 0xbfbf07b65cc2676a, v2 = 0x265047dd70b2c662, v3 = 0xe551fa989968c72e\<rparr> 0x9c6f75c00000001 =
     \<lparr>v0 = 0xfd10a40001035c94, v1 = 0xb207f09470e18e68, v2 = 0xe077eeec31b5a5b8, v3 = 0x952ca20ed9e8dc32\<rparr>"
  by code_simp

lemma A4_absorb2:
  "absorb \<lparr>v0 = 0xfd10a40001035c94, v1 = 0xb207f09470e18e68, v2 = 0xe077eeec31b5a5b8, v3 = 0x952ca20ed9e8dc32\<rparr> 0x1002002b80d0120 =
     \<lparr>v0 = 0x5d3136c84aac4bea, v1 = 0x726928a7d52cd171, v2 = 0x7b1be113b71c0f7c, v3 = 0xebe23c02a90730fb\<rparr>"
  by code_simp

lemma A4_absorb3:
  "absorb \<lparr>v0 = 0x5d3136c84aac4bea, v1 = 0x726928a7d52cd171, v2 = 0x7b1be113b71c0f7c, v3 = 0xebe23c02a90730fb\<rparr> 0xb8826987f4d0de59 =
     \<lparr>v0 = 0xcd98ee84ee2d3c3e, v1 = 0xfe1b47e8a705367c, v2 = 0x39821f74017d7387, v3 = 0xc87716335d682e95\<rparr>"
  by code_simp

lemma A4_absorb4:
  "absorb \<lparr>v0 = 0xcd98ee84ee2d3c3e, v1 = 0xfe1b47e8a705367c, v2 = 0x39821f74017d7387, v3 = 0xc87716335d682e95\<rparr> 0x2000000000000000 =
     \<lparr>v0 = 0x16aa5e3a9c662034, v1 = 0x56146d5fa0321ec4, v2 = 0xd39a8b9db2a35774, v3 = 0xbdc3bc1a07106e96\<rparr>"
  by code_simp

lemma A4_rounds12:
  "sip_round (sip_round \<lparr>v0 = 0x16aa5e3a9c662034, v1 = 0x56146d5fa0321ec4, v2 = 0xd39a8b9db2a3578b, v3 = 0xbdc3bc1a07106e96\<rparr>) =
     \<lparr>v0 = 0xc17a2ab8d50903e3, v1 = 0x68f32e07e90965b6, v2 = 0x5581558cce3868d0, v3 = 0x9811969998cca166\<rparr>"
  by code_simp

lemma A4_rounds34:
  "sip_round (sip_round \<lparr>v0 = 0xc17a2ab8d50903e3, v1 = 0x68f32e07e90965b6, v2 = 0x5581558cce3868d0, v3 = 0x9811969998cca166\<rparr>) =
     \<lparr>v0 = 0x3097925f29ab4fa7, v1 = 0xf0bb8bfc9cff5d3d, v2 = 0x38c4efad77370575, v3 = 0x82b8d368131aac49\<rparr>"
  by code_simp

lemma A4_finish:
  "sip_finish \<lparr>v0 = 0x16aa5e3a9c662034, v1 = 0x56146d5fa0321ec4, v2 = 0xd39a8b9db2a35774, v3 = 0xbdc3bc1a07106e96\<rparr> = 0x7a502566d179bba6"
  by (simp add: sip_finish_def A4_rounds12 A4_rounds34)

lemma A4_word0: "getLE64 [0x22, 0x68, 0x1a, 0xb9, 0x7d, 0x52, 0xc2, 0x98] = 0x98c2527db91a6822"
  by (simp add: getLE64_def le_val_def)

lemma A4_word1: "getLE64 [0x1, 0x0, 0x0, 0x0, 0x5c, 0xf7, 0xc6, 0x9] = 0x9c6f75c00000001"
  by (simp add: getLE64_def le_val_def)

lemma A4_word2: "getLE64 [0x20, 0x1, 0xd, 0xb8, 0x2, 0x20, 0x0, 0x1] = 0x1002002b80d0120"
  by (simp add: getLE64_def le_val_def)

lemma A4_word3: "getLE64 [0x59, 0xde, 0xd0, 0xf4, 0x87, 0x69, 0x82, 0xb8] = 0xb8826987f4d0de59"
  by (simp add: getLE64_def le_val_def)

lemma A4_last: "last_block 32 [] = 0x2000000000000000"
  by code_simp

lemma A4_blocks:
  "absorb_blocks (sip_start [0x44, 0x55, 0x36, 0xbc, 0xd2, 0x51, 0x32, 0x98, 0x7, 0x5a, 0x5d, 0x37, 0x96, 0x63, 0xc9, 0x62])
     ([0x22, 0x68, 0x1a, 0xb9, 0x7d, 0x52, 0xc2, 0x98] @ [0x1, 0x0, 0x0, 0x0, 0x5c, 0xf7, 0xc6, 0x9] @ [0x20, 0x1, 0xd, 0xb8, 0x2, 0x20, 0x0, 0x1] @ [0x59, 0xde, 0xd0, 0xf4, 0x87, 0x69, 0x82, 0xb8] @ []) =
     (\<lparr>v0 = 0xcd98ee84ee2d3c3e, v1 = 0xfe1b47e8a705367c, v2 = 0x39821f74017d7387, v3 = 0xc87716335d682e95\<rparr>, [])"
  by (simp only: A4_start absorb_blocks_word absorb_blocks_short list.size numeral_nat
      A4_word0 A4_absorb0 A4_word1 A4_absorb1 A4_word2 A4_absorb2 A4_word3 A4_absorb3)

lemma A4_hash:
  "siphash24 [0x44, 0x55, 0x36, 0xbc, 0xd2, 0x51, 0x32, 0x98, 0x7, 0x5a, 0x5d, 0x37, 0x96, 0x63, 0xc9, 0x62]
     ([0x22, 0x68, 0x1a, 0xb9, 0x7d, 0x52, 0xc2, 0x98] @ [0x1, 0x0, 0x0, 0x0, 0x5c, 0xf7, 0xc6, 0x9] @ [0x20, 0x1, 0xd, 0xb8, 0x2, 0x20, 0x0, 0x1] @ [0x59, 0xde, 0xd0, 0xf4, 0x87, 0x69, 0x82, 0xb8] @ []) = 0x7a502566d179bba6"
  by (subst siphash24_split [OF A4_blocks, where n = 32]) (simp_all add: A4_last A4_absorb4 A4_finish)

section \<open>The cookies\<close>

lemma A1_input:
  "hashInput clientA1 1 [0, 0, 0] 1559731985 (addrBytes (Addr4 0xc6336464)) = [0x24, 0x64, 0xc4, 0xab, 0xcf, 0x10, 0xc9, 0x57, 0x1, 0x0, 0x0, 0x0, 0x5c, 0xf7, 0x9f, 0x11, 0xc6, 0x33, 0x64, 0x64]"
  by (simp add: hashInput_def clientA1_def addrBytes_def putBE32_def be_bytes_4)

lemma A4_input:
  "hashInput clientA4 1 [0, 0, 0] 1559741961 (addrBytes addrA4) = [0x22, 0x68, 0x1a, 0xb9, 0x7d, 0x52, 0xc2, 0x98, 0x1, 0x0, 0x0, 0x0, 0x5c, 0xf7, 0xc6, 0x9, 0x20, 0x1, 0xd, 0xb8, 0x2, 0x20, 0x0, 0x1, 0x59, 0xde, 0xd0, 0xf4, 0x87, 0x69, 0x82, 0xb8]"
  by (simp add: hashInput_def clientA4_def addrBytes_def addrA4_def putBE32_def be_bytes_4 be_bytes_16)

text \<open>
  the model reproduces the server cookies of RFC 9018, Appendix A.1 and A.4, octet for octet:
  \<open>serverCookie\<close> over the RFC's secrets, client cookies, timestamps and addresses.
\<close>

lemma rfc9018_appendix_A:
  "hex_encode (serverCookie secretA clientA1 1559731985 (Addr4 0xc6336464)) =
     ''010000005cf79f111f8130c3eee29480'' \<and>
   hex_encode (serverCookie secretB clientA4 1559741961 addrA4) =
     ''010000005cf7c609a6bb79d16625507a''"
proof
  show "hex_encode (serverCookie secretA clientA1 1559731985 (Addr4 0xc6336464)) =
     ''010000005cf79f111f8130c3eee29480''"
    using A1_hash
    by (simp add: serverCookie_def A1_input secretA_def)
      (simp add: putBE32_def putLE64_def le_bytes_def be_bytes_4 be_bytes_8 hex_digit_def char_of_def bit_Suc_0_iff)
  show "hex_encode (serverCookie secretB clientA4 1559741961 addrA4) =
     ''010000005cf7c609a6bb79d16625507a''"
    using A4_hash
    by (simp add: serverCookie_def A4_input secretB_def)
      (simp add: putBE32_def putLE64_def le_bytes_def be_bytes_4 be_bytes_8 hex_digit_def char_of_def bit_Suc_0_iff)
qed

end
