(* ===== verification/Dns_Msg.thy ===== *)
theory Dns_Msg
  imports Go_Lib
begin

text \<open>
  The parts of a DNS message the plugins read and write, in the shape the Go DNS library gives
  them: record headers, the record data the plugins look into, EDNS options, the OPT pseudo-record
  and the message itself. The message's OPT record, which the library keeps in the additional
  section, is a field of its own (\<open>Opt\<close>, what \<open>IsEdns0\<close> returns).
\<close>

section \<open>Codes\<close>

abbreviation (input) TypeA :: u16 where "TypeA \<equiv> 1"
abbreviation (input) TypeNS :: u16 where "TypeNS \<equiv> 2"
abbreviation (input) TypeCNAME :: u16 where "TypeCNAME \<equiv> 5"
abbreviation (input) TypeSOA :: u16 where "TypeSOA \<equiv> 6"
abbreviation (input) TypeNULL :: u16 where "TypeNULL \<equiv> 10"
abbreviation (input) TypePTR :: u16 where "TypePTR \<equiv> 12"
abbreviation (input) TypeTXT :: u16 where "TypeTXT \<equiv> 16"
abbreviation (input) TypeAAAA :: u16 where "TypeAAAA \<equiv> 28"
abbreviation (input) TypeSRV :: u16 where "TypeSRV \<equiv> 33"
abbreviation (input) TypeOPT :: u16 where "TypeOPT \<equiv> 41"
abbreviation (input) TypeRRSIG :: u16 where "TypeRRSIG \<equiv> 46"
abbreviation (input) TypeNSEC :: u16 where "TypeNSEC \<equiv> 47"
abbreviation (input) TypeDNSKEY :: u16 where "TypeDNSKEY \<equiv> 48"
abbreviation (input) TypeSVCB :: u16 where "TypeSVCB \<equiv> 64"
abbreviation (input) TypeHTTPS :: u16 where "TypeHTTPS \<equiv> 65"
abbreviation (input) TypeNXNAME :: u16 where "TypeNXNAME \<equiv> 128"
abbreviation (input) TypeANY :: u16 where "TypeANY \<equiv> 255"

abbreviation (input) ClassINET :: u16 where "ClassINET \<equiv> 1"
abbreviation (input) ClassNONE :: u16 where "ClassNONE \<equiv> 254"
abbreviation (input) ClassANY :: u16 where "ClassANY \<equiv> 255"

abbreviation (input) RcodeSuccess :: int where "RcodeSuccess \<equiv> 0"
abbreviation (input) RcodeFormatError :: int where "RcodeFormatError \<equiv> 1"
abbreviation (input) RcodeServerFailure :: int where "RcodeServerFailure \<equiv> 2"
abbreviation (input) RcodeNameError :: int where "RcodeNameError \<equiv> 3"
abbreviation (input) RcodeRefused :: int where "RcodeRefused \<equiv> 5"
abbreviation (input) RcodeYXDomain :: int where "RcodeYXDomain \<equiv> 6"
abbreviation (input) RcodeYXRrset :: int where "RcodeYXRrset \<equiv> 7"
abbreviation (input) RcodeNXRrset :: int where "RcodeNXRrset \<equiv> 8"
abbreviation (input) RcodeNotAuth :: int where "RcodeNotAuth \<equiv> 9"
abbreviation (input) RcodeNotZone :: int where "RcodeNotZone \<equiv> 10"
abbreviation (input) RcodeBadCookie :: int where "RcodeBadCookie \<equiv> 23"

abbreviation (input) OpcodeQuery :: int where "OpcodeQuery \<equiv> 0"
abbreviation (input) OpcodeUpdate :: int where "OpcodeUpdate \<equiv> 5"

section \<open>Records\<close>

text \<open>
  The Go type of a record, as a type assertion sees it: an SOA with its fields, the types the plugins
  build themselves, or another type with its data in presentation form.
\<close>

record soa_data =
  Ns_name :: string
  Mbox :: string
  Serial :: u32
  Refresh :: u32
  Retry :: u32
  Expire :: u32
  Minttl :: u32

record rrsig_data =
  TypeCovered :: u16
  Algorithm :: byte
  Labels :: byte
  OrigTtl :: u32
  Expiration :: u32
  Inception :: u32
  SigKeyTag :: u16
  SignerName :: string
  Signature :: string

text \<open>The service-binding parameters in use: the ALPN list and the ECH configuration list.\<close>

record svcb_data =
  SvcPriority :: u16
  SvcTarget :: string
  SvcAlpn :: "string list"
  SvcECH :: bytes

datatype rdata =
  SOA soa_data
| Other string
| NS_rr string
| A_rr bytes
| AAAA_rr bytes
| TXT_rr "string list"
| PTR_rr string
| SRV_rr u16 u16 u16 string
| SVCB_rr svcb_data
| NSEC_rr string "u16 list"
| RRSIG_rr rrsig_data

record rr =
  Name :: string
  Rrtype :: u16
  Class :: u16
  Ttl :: u32
  Rdlength :: u16
  Rdata :: rdata

record question =
  QName :: string
  Qtype :: u16
  Qclass :: u16

section \<open>EDNS\<close>

record edns_subnet =
  Family :: u16
  SourceNetmask :: byte
  Address :: bytes

record edns_zoneversion =
  LabelCount :: byte
  ZVType :: byte
  Version :: bytes

datatype edns0 =
  EDNS0_COOKIE string
| EDNS0_EDE u16 string
| EDNS0_REPORTING string
| EDNS0_ZONEVERSION edns_zoneversion
| EDNS0_SUBNET edns_subnet
| EDNS0_LOCAL u16 bytes
| EDNS0_OTHER u16

record opt =
  OptTtl :: u32
  UDPSize :: u16
  Options :: "edns0 list"

definition Do :: "opt \<Rightarrow> bool" where
  "Do o' = bit (OptTtl o') 15"

record msg =
  Id :: u16
  Opcode :: int
  Rcode :: int
  Authoritative :: bool
  Truncated :: bool
  Question :: "question list"
  Answer :: "rr list"
  Ns :: "rr list"
  Extra :: "rr list"
  Opt :: "opt option"

definition is_cookie :: "edns0 \<Rightarrow> bool" where
  "is_cookie e = (case e of EDNS0_COOKIE _ \<Rightarrow> True | _ \<Rightarrow> False)"

end
