(* ===== verification/Cookie_Handler.thy ===== *)
theory Cookie_Handler
  imports Cookie Dns_Msg
begin

text \<open>
  \<open>cookie/handler.go\<close> and \<open>cookie/setup.go\<close>: classifying a request's COOKIE option, the plugin's
  handler as the sequence of counter updates and writes it performs, the response writer that puts
  exactly one COOKIE option on a message, and the Corefile block with its secret rules.

  Parameters, for code outside the repository: \<open>parseAddr\<close> is \<open>netip.ParseAddr\<close>, \<open>setRcode r rc\<close> is
  \<open>new(dns.Msg).SetRcode(r, rc)\<close>, \<open>setEdns0 m size do\<close> the OPT record \<open>m.SetEdns0\<close> adds to a message
  without one.
\<close>

section \<open>State\<close>

datatype cookie_mode = modePermissive | modeEnforce

record cookie_config =
  cfg_verifyOnly :: "bytes list"
  cfg_mode :: cookie_mode
  cfg_secret :: bytes

record cookie_plugin =
  keys :: secrets
  mode :: cookie_mode

definition newCookie :: "cookie_config \<Rightarrow> cookie_plugin" where
  "newCookie cfg =
     \<lparr>keys = \<lparr>verifyOnly = cfg_verifyOnly cfg, generate = cfg_secret cfg\<rparr>, mode = cfg_mode cfg\<rparr>"

record request_state =
  Req :: msg
  IP :: string
  Proto :: string

record inspected =
  in_ip :: addr
  in_status :: status
  in_client :: bytes

abbreviation (input) no_inspection :: "status \<Rightarrow> inspected" where
  "no_inspection st \<equiv> \<lparr>in_ip = AddrZero, in_status = st, in_client = replicate 8 0\<rparr>"

section \<open>Classification of a request\<close>

fun first_cookie :: "edns0 list \<Rightarrow> string option" where
  "first_cookie [] = None"
| "first_cookie (EDNS0_COOKIE c # os) = Some c"
| "first_cookie (_ # os) = first_cookie os"

text \<open>The clock as Unix seconds; \<open>timestamp\<close> keeps its low 32 bits.\<close>

definition timestamp :: "int \<Rightarrow> u32" where
  "timestamp unix = of_int unix"

definition clientAddr :: "(string \<Rightarrow> addr option) \<Rightarrow> request_state \<Rightarrow> addr" where
  "clientAddr parseAddr state =
     (case parseAddr (IP state) of None \<Rightarrow> AddrZero | Some ip \<Rightarrow> Unmap (WithoutZone ip))"

definition inspect :: "(string \<Rightarrow> addr option) \<Rightarrow> cookie_plugin \<Rightarrow> request_state \<Rightarrow> int \<Rightarrow> inspected" where
  "inspect parseAddr c state unix =
     (case Opt (Req state) of
        None \<Rightarrow> no_inspection statusNone
      | Some op \<Rightarrow>
        (case first_cookie (Options op) of
           None \<Rightarrow> no_inspection statusNone
         | Some raw \<Rightarrow>
           (case hex_decode raw of
              None \<Rightarrow> no_inspection statusMalformed
            | Some data \<Rightarrow>
              let cl = classify (length data) in
              if cl = classMalformed then no_inspection statusMalformed
              else
                let i = \<lparr>in_ip = clientAddr parseAddr state, in_status = statusNone, in_client = take 8 data\<rparr> in
                if cl = classClientOnly then i\<lparr>in_status := statusClientOnly\<rparr>
                else if \<not> IsValid (in_ip i) then i\<lparr>in_status := statusInvalidServer\<rparr>
                else i\<lparr>in_status := check (keys c) (in_client i) (drop 8 data) (in_ip i) (timestamp unix)\<rparr>)))"

section \<open>The handler\<close>

text \<open>\<open>Cookie.option\<close>: the request's client cookie and a fresh server cookie, as hex text.\<close>

definition cookie_option :: "cookie_plugin \<Rightarrow> inspected \<Rightarrow> int \<Rightarrow> edns0" where
  "cookie_option c i unix =
     (let server = serverCookie (generate (keys c)) (in_client i) (timestamp unix) (in_ip i)
      in EDNS0_COOKIE (hex_encode (in_client i @ server)))"

record cookieWriter =
  cw_option :: edns0
  cw_udpSize :: u16
  cw_do :: bool

definition cookie_WriteMsg :: "(msg \<Rightarrow> u16 \<Rightarrow> bool \<Rightarrow> opt) \<Rightarrow> cookieWriter \<Rightarrow> msg \<Rightarrow> msg" where
  "cookie_WriteMsg setEdns0 w m =
     (let op = (case Opt m of None \<Rightarrow> setEdns0 m (cw_udpSize w) (cw_do w) | Some op \<Rightarrow> op);
          kept = filter (\<lambda>e. \<not> is_cookie e) (Options op)
      in m\<lparr>Opt := Some (op\<lparr>Options := kept @ [cw_option w]\<rparr>)\<rparr>)"

text \<open>
  What one call of \<open>ServeDNS\<close> does: the counters it bumps, in order, and whether it hands the
  request on (with the original writer, or with a \<open>cookieWriter\<close>) or writes a message itself.
\<close>

datatype cookie_count = requests_inc status | formerrs_inc | badCookies_inc

datatype cookie_action = CallNext "cookieWriter option" | WriteMsg msg

definition ServeDNS ::
  "(string \<Rightarrow> addr option) \<Rightarrow> (msg \<Rightarrow> int \<Rightarrow> msg) \<Rightarrow> (msg \<Rightarrow> u16 \<Rightarrow> bool \<Rightarrow> opt) \<Rightarrow>
     cookie_plugin \<Rightarrow> request_state \<Rightarrow> int \<Rightarrow> int \<Rightarrow> cookie_count list \<times> cookie_action" where
  "ServeDNS parseAddr setRcode setEdns0 c state unix1 unix2 =
     (let r = Req state; i = inspect parseAddr c state unix1; cnt = [requests_inc (in_status i)] in
      if in_status i = statusNone then (cnt, CallNext None)
      else if in_status i = statusMalformed
      then (cnt @ [formerrs_inc], WriteMsg (setRcode r RcodeFormatError))
      else
        let cw = (case Opt r of
                    None \<Rightarrow> \<lparr>cw_option = cookie_option c i unix2, cw_udpSize = 0, cw_do = False\<rparr>
                  | Some op \<Rightarrow> \<lparr>cw_option = cookie_option c i unix2, cw_udpSize = UDPSize op, cw_do = Do op\<rparr>) in
        if \<not> validated (in_status i) \<and> mode c = modeEnforce \<and> Proto state = ''udp''
        then (cnt @ [badCookies_inc], WriteMsg (cookie_WriteMsg setEdns0 cw (setRcode r RcodeBadCookie)))
        else (cnt, CallNext (Some cw)))"

section \<open>Configuration\<close>

datatype setup_error =
  BadSecret | TooManyVerifyOnly | BadMode | UnknownProperty | SecretAndFile | FileError
| VerifyWithoutSecret | RandError | DuplicateSecret | DuplicateProperty | ArgErr | GivenTwice

abbreviation (input) "maxVerifyOnly \<equiv> 4 :: nat"

record block =
  b_file :: string
  b_cfg :: cookie_config
  b_haveSecret :: bool

definition parseSecret :: "string \<Rightarrow> bytes option" where
  "parseSecret s =
     (case hex_decode s of
        None \<Rightarrow> None
      | Some b \<Rightarrow> if length b \<noteq> 16 then None else Some b)"

definition property :: "block \<Rightarrow> string \<Rightarrow> string \<Rightarrow> setup_error + block" where
  "property b name value =
     (if name = ''secret'' then
        (case parseSecret value of
           None \<Rightarrow> Inl BadSecret
         | Some k \<Rightarrow> Inr (b\<lparr>b_cfg := (b_cfg b)\<lparr>cfg_secret := k\<rparr>, b_haveSecret := True\<rparr>))
      else if name = ''secret_file'' then Inr (b\<lparr>b_file := value\<rparr>)
      else if name = ''verify_secret'' then
        (case parseSecret value of
           None \<Rightarrow> Inl BadSecret
         | Some k \<Rightarrow>
           if length (cfg_verifyOnly (b_cfg b)) = maxVerifyOnly then Inl TooManyVerifyOnly
           else Inr (b\<lparr>b_cfg := (b_cfg b)\<lparr>cfg_verifyOnly := cfg_verifyOnly (b_cfg b) @ [k]\<rparr>\<rparr>))
      else if name = ''mode'' then
        (if value = ''permissive'' then Inr (b\<lparr>b_cfg := (b_cfg b)\<lparr>cfg_mode := modePermissive\<rparr>\<rparr>)
         else if value = ''enforce'' then Inr (b\<lparr>b_cfg := (b_cfg b)\<lparr>cfg_mode := modeEnforce\<rparr>\<rparr>)
         else Inl BadMode)
      else Inl UnknownProperty)"

text \<open>The pairwise comparison of \<open>finish\<close>: some secret occurs twice.\<close>

fun listed_twice :: "bytes list \<Rightarrow> bool" where
  "listed_twice [] = False"
| "listed_twice (k # ks) = (k \<in> set ks \<or> listed_twice ks)"

text \<open>
  \<open>readFile\<close> is \<open>readSecretFile\<close>'s file access (its text and modification time), \<open>rand\<close> the sixteen
  random octets, \<open>now\<close> the clock. The result is the configuration and the secret's installation time.
\<close>

definition readSecretFile :: "(string \<Rightarrow> (string \<times> int) option) \<Rightarrow> (string \<Rightarrow> string) \<Rightarrow> string \<Rightarrow> setup_error + bytes \<times> int" where
  "readSecretFile readFile trimSpace path =
     (case readFile path of
        None \<Rightarrow> Inl FileError
      | Some (raw, mtime) \<Rightarrow>
        (case parseSecret (trimSpace raw) of None \<Rightarrow> Inl BadSecret | Some k \<Rightarrow> Inr (k, mtime)))"

definition finish ::
  "(string \<Rightarrow> (string \<times> int) option) \<Rightarrow> (string \<Rightarrow> string) \<Rightarrow> bytes option \<Rightarrow> int \<Rightarrow> block \<Rightarrow>
     setup_error + cookie_config \<times> int" where
  "finish readFile trimSpace rand now b =
     (if b_haveSecret b \<and> b_file b \<noteq> [] then Inl SecretAndFile
      else
        let settled =
          (if b_file b \<noteq> [] then
             (case readSecretFile readFile trimSpace (b_file b) of
                Inl e \<Rightarrow> Inl e
              | Inr (k, mtime) \<Rightarrow> Inr ((b_cfg b)\<lparr>cfg_secret := k\<rparr>, mtime))
           else if \<not> b_haveSecret b then
             (if cfg_verifyOnly (b_cfg b) \<noteq> [] then Inl VerifyWithoutSecret
              else case rand of
                     None \<Rightarrow> Inl RandError
                   | Some k \<Rightarrow> Inr ((b_cfg b)\<lparr>cfg_secret := k\<rparr>, now))
           else Inr (b_cfg b, now))
        in case settled of
             Inl e \<Rightarrow> Inl e
           | Inr (cfg, since) \<Rightarrow>
             if listed_twice (cfg_secret cfg # cfg_verifyOnly cfg) then Inl DuplicateSecret
             else Inr (cfg, since))"

text \<open>
  \<open>parse\<close> over the Corefile as the Caddy tokenizer delivers it: one entry per \<open>cookie\<close> directive,
  with its arguments and the lines of its block (a property name and its arguments).
\<close>

type_synonym corefile = "(string list \<times> (string \<times> string list) list) list"

definition empty_block :: block where
  "empty_block =
     \<lparr>b_file = [], b_cfg = \<lparr>cfg_verifyOnly = [], cfg_mode = modePermissive, cfg_secret = replicate 16 0\<rparr>,
      b_haveSecret = False\<rparr>"

fun parse_lines :: "string list \<Rightarrow> block \<Rightarrow> (string \<times> string list) list \<Rightarrow> setup_error + block" where
  "parse_lines seen b [] = Inr b"
| "parse_lines seen b ((name, args) # rest) =
     (if name \<in> set seen \<and> name \<noteq> ''verify_secret'' then Inl DuplicateProperty
      else (case args of
              [value] \<Rightarrow>
                (case property b name value of
                   Inl e \<Rightarrow> Inl e
                 | Inr b' \<Rightarrow> parse_lines (name # seen) b' rest)
            | _ \<Rightarrow> Inl ArgErr))"

definition parse ::
  "(string \<Rightarrow> (string \<times> int) option) \<Rightarrow> (string \<Rightarrow> string) \<Rightarrow> bytes option \<Rightarrow> int \<Rightarrow> corefile \<Rightarrow>
     setup_error + cookie_config \<times> int" where
  "parse readFile trimSpace rand now cf =
     (case cf of
        [] \<Rightarrow> Inl ArgErr
      | (args, lines) # others \<Rightarrow>
        if args \<noteq> [] then Inl ArgErr
        else
          (case parse_lines [] empty_block lines of
             Inl e \<Rightarrow> Inl e
           | Inr b \<Rightarrow> if others \<noteq> [] then Inl GivenTwice else finish readFile trimSpace rand now b))"

section \<open>What a response carries\<close>

text \<open>
  whatever message is written through a \<open>cookieWriter\<close>, the response carries exactly one
  COOKIE option, the plugin's own, as its last option; every other option is kept, in order, and
  nothing but the OPT record changes.
\<close>

lemma response_has_exactly_one_cookie:
  "let out = cookie_WriteMsg setEdns0 (w\<lparr>cw_option := EDNS0_COOKIE c\<rparr>) m;
       before = (case Opt m of None \<Rightarrow> setEdns0 m (cw_udpSize w) (cw_do w) | Some o' \<Rightarrow> o')
   in \<exists>op. Opt out = Some op \<and> filter is_cookie (Options op) = [EDNS0_COOKIE c] \<and>
        last (Options op) = EDNS0_COOKIE c \<and>
        filter (\<lambda>e. \<not> is_cookie e) (Options op) = filter (\<lambda>e. \<not> is_cookie e) (Options before) \<and>
        out\<lparr>Opt := Opt m\<rparr> = m"
  unfolding cookie_WriteMsg_def Let_def
  by (auto simp: is_cookie_def filter_empty_conv split: option.splits)

section \<open>Which requests are refused\<close>

text \<open>
  C12: a BADCOOKIE response is written exactly for a request over UDP, in enforce mode, that carried a
  COOKIE option of a legal length without a valid server cookie; never over another transport, never in
  permissive mode and never to a client without the option (RFC 7873 section 5.2). The counter counts
  exactly these, the response carries exactly one COOKIE option, the fresh one that a retry can
  present, and every other request but a malformed one goes on to the next plugin.
\<close>

theorem badcookie_exactly_unvalidated_udp_enforce:
  assumes "\<And>r rc. Rcode (setRcode r rc) = rc"
  shows "case ServeDNS parseAddr setRcode setEdns0 c state unix1 unix2 of (counts, act) \<Rightarrow>
    let i = inspect parseAddr c state unix1;
        refuse = (in_status i \<in> {statusClientOnly, statusInvalidServer} \<and> mode c = modeEnforce \<and> Proto state = ''udp'') in
    ((\<exists>m. act = WriteMsg m \<and> Rcode m = RcodeBadCookie) \<longleftrightarrow> refuse) \<and>
    (badCookies_inc \<in> set counts \<longleftrightarrow> refuse) \<and>
    (\<forall>m. act = WriteMsg m \<and> Rcode m = RcodeBadCookie \<longrightarrow>
       (\<exists>op. Opt m = Some op \<and> filter is_cookie (Options op) = [cookie_option c i unix2])) \<and>
    ((\<exists>w. act = CallNext w) \<longleftrightarrow> \<not> refuse \<and> in_status i \<noteq> statusMalformed)"
proof -
  have code: "Rcode (cookie_WriteMsg setEdns0 w m) = Rcode m" for w m
    by (simp add: cookie_WriteMsg_def Let_def)
  have one: "\<exists>op. Opt (cookie_WriteMsg setEdns0 \<lparr>cw_option = e, cw_udpSize = u, cw_do = d\<rparr> m) = Some op \<and>
      filter is_cookie (Options op) = [e]" if "is_cookie e" for e u d m
    using that by (auto simp: cookie_WriteMsg_def Let_def filter_empty_conv)
  have ck: "is_cookie (cookie_option c i unix2)" for i by (simp add: cookie_option_def Let_def is_cookie_def)
  show ?thesis
    by (cases "in_status (inspect parseAddr c state unix1)")
      (auto simp: ServeDNS_def Let_def validated_def assms code one [OF ck] split: option.splits)
qed

text \<open>A first request over UDP, answered in enforce mode and served in permissive mode.\<close>

definition first_request :: request_state where
  "first_request =
     \<lparr>Req = \<lparr>Id = 1, Opcode = 0, Rcode = 0, Authoritative = False, Truncated = False, Question = [], Answer = [], Ns = [], Extra = [],
        Opt = Some \<lparr>OptTtl = 0, UDPSize = 1232, Options = [EDNS0_COOKIE (hex_encode (replicate 8 1))]\<rparr>\<rparr>,
      IP = ''192.0.2.5'', Proto = ''udp''\<rparr>"

theorem badcookie_exactly_unvalidated_udp_enforce_witness:
  "let serve = (\<lambda>md. snd (ServeDNS (\<lambda>_. Some (Addr4 5)) (\<lambda>r rc. r\<lparr>Rcode := rc\<rparr>) (\<lambda>_ _ _. \<lparr>OptTtl = 0, UDPSize = 1232, Options = []\<rparr>)
       \<lparr>keys = \<lparr>verifyOnly = [], generate = replicate 16 9\<rparr>, mode = md\<rparr> first_request 1000 1001)) in
   (\<exists>m. serve modeEnforce = WriteMsg m \<and> Rcode m = RcodeBadCookie) \<and> (\<exists>w. serve modePermissive = CallNext w)"
proof -
  have st: "in_status (inspect (\<lambda>_. Some (Addr4 5)) c first_request 1000) = statusClientOnly" for c
    by (simp add: inspect_def first_request_def classify_def Let_def)
  note use = badcookie_exactly_unvalidated_udp_enforce [where setRcode = "\<lambda>r rc. r\<lparr>Rcode := rc\<rparr>" and parseAddr = "\<lambda>_. Some (Addr4 5)"
      and ?setEdns0.0 = "\<lambda>_ _ _. \<lparr>OptTtl = 0, UDPSize = 1232, Options = []\<rparr>" and state = first_request and ?unix1.0 = 1000 and ?unix2.0 = 1001]
  show ?thesis
    using use [of "\<lparr>keys = \<lparr>verifyOnly = [], generate = replicate 16 9\<rparr>, mode = modeEnforce\<rparr>"]
      use [of "\<lparr>keys = \<lparr>verifyOnly = [], generate = replicate 16 9\<rparr>, mode = modePermissive\<rparr>"]
    by (simp add: Let_def st case_prod_beta) (simp add: first_request_def)
qed

section \<open>Bootstrap\<close>

lemma inspect_with_cookie:
  assumes "Opt (Req state) = Some op" "first_cookie (Options op) = Some (hex_encode (client @ server))"
    and "length client = 8" "length server = 16" "IsValid (clientAddr parseAddr state)"
  shows "in_status (inspect parseAddr c state unix) =
    check (keys c) client server (clientAddr parseAddr state) (timestamp unix)"
  using assms by (simp add: inspect_def classify_def Let_def)

lemma inspect_client_length: "length (in_client (inspect parseAddr c state unix)) = 8"
  by (auto simp: inspect_def classify_def Let_def split: option.splits)

lemma inspect_ip:
  "in_status (inspect parseAddr c state unix) \<notin> {statusNone, statusMalformed} \<Longrightarrow>
     in_ip (inspect parseAddr c state unix) = clientAddr parseAddr state"
  by (auto simp: inspect_def Let_def split: option.splits if_splits)

lemma timestamp_in_window:
  "unix2 - 300 \<le> unix \<Longrightarrow> unix \<le> unix2 + 3600 \<Longrightarrow> inWindow (timestamp unix) (timestamp unix2)"
  by (simp add: timestamp_def inWindow_of_int)

text \<open>
  C11: bootstrap. A client whose request carried a well-formed COOKIE option and which sends the
  option of the response back, from the same address and within the window, has its server cookie
  validated under the generating secret.
\<close>

theorem response_cookie_is_accepted_back:
  assumes first: "in_status (inspect parseAddr c state1 unix1) \<notin> {statusNone, statusMalformed}"
    and opt: "cookie_option c (inspect parseAddr c state1 unix1) unix2 = EDNS0_COOKIE raw"
    and sent: "Opt (Req state2) = Some op" "first_cookie (Options op) = Some raw"
    and same: "IP state2 = IP state1" and valid: "IsValid (clientAddr parseAddr state1)"
    and window: "unix2 - 300 \<le> unix3" "unix3 \<le> unix2 + 3600"
  shows "in_status (inspect parseAddr c state2 unix3) = statusValid"
proof -
  let ?i = "inspect parseAddr c state1 unix1" and ?ip = "clientAddr parseAddr state1"
  let ?sc = "serverCookie (generate (keys c)) (in_client ?i) (timestamp unix2) ?ip"
  have ip: "in_ip ?i = ?ip" using first by (rule inspect_ip)
  have addr: "clientAddr parseAddr state2 = ?ip" using same by (simp add: clientAddr_def)
  have raw: "raw = hex_encode (in_client ?i @ ?sc)"
    using opt by (simp add: cookie_option_def ip)
  have "in_status (inspect parseAddr c state2 unix3) =
      check (keys c) (in_client ?i) ?sc (clientAddr parseAddr state2) (timestamp unix3)"
  proof (rule inspect_with_cookie)
    show "first_cookie (Options op) = Some (hex_encode (in_client ?i @ ?sc))"
      using sent(2) raw by simp
  qed (simp_all add: sent inspect_client_length addr valid)
  moreover have "verify (generate (keys c)) (in_client ?i) ?sc ?ip (timestamp unix3)"
    using timestamp_in_window [OF window] by (simp add: verify_minted)
  ultimately show ?thesis by (simp add: check_def addr)
qed

definition example_request :: "string \<Rightarrow> request_state" where
  "example_request raw =
     \<lparr>Req = \<lparr>Id = 1, Opcode = 0, Rcode = 0, Authoritative = False, Truncated = False, Question = [],
        Answer = [], Ns = [], Extra = [],
        Opt = Some \<lparr>OptTtl = 0, UDPSize = 1232, Options = [EDNS0_COOKIE raw]\<rparr>\<rparr>,
      IP = ''192.0.2.5'', Proto = ''udp''\<rparr>"

definition example_plugin :: cookie_plugin where
  "example_plugin = \<lparr>keys = \<lparr>verifyOnly = [], generate = replicate 16 9\<rparr>, mode = modeEnforce\<rparr>"

definition example_parseAddr :: "string \<Rightarrow> addr option" where
  "example_parseAddr s = Some (Addr4 5)"

theorem response_cookie_is_accepted_back_witness:
  "\<exists>raw. cookie_option example_plugin
      (inspect example_parseAddr example_plugin (example_request (hex_encode (replicate 8 1))) 1000) 1001 =
        EDNS0_COOKIE raw \<and>
    in_status (inspect example_parseAddr example_plugin (example_request raw) 2000) = statusValid"
proof -
  let ?i = "inspect example_parseAddr example_plugin (example_request (hex_encode (replicate 8 1))) 1000"
  obtain raw where raw: "cookie_option example_plugin ?i 1001 = EDNS0_COOKIE raw"
    by (simp add: cookie_option_def)
  have st: "in_status ?i = statusClientOnly"
    by (simp add: inspect_def example_request_def classify_def Let_def)
  have "in_status (inspect example_parseAddr example_plugin (example_request raw) 2000) = statusValid"
  proof (rule response_cookie_is_accepted_back [OF _ raw])
    show "in_status ?i \<notin> {statusNone, statusMalformed}" by (simp add: st)
    show "Opt (Req (example_request raw)) = Some \<lparr>OptTtl = 0, UDPSize = 1232, Options = [EDNS0_COOKIE raw]\<rparr>"
      by (simp add: example_request_def)
  qed (simp_all add: example_request_def example_parseAddr_def clientAddr_def)
  with raw show ?thesis by blast
qed

section \<open>The configuration the Corefile may give\<close>

lemma parseSecret_length: "parseSecret s = Some k \<Longrightarrow> length k = 16"
  by (auto simp: parseSecret_def split: option.splits if_splits)

lemma listed_twice_iff: "listed_twice ks \<longleftrightarrow> \<not> distinct ks"
  by (induction ks) auto

text \<open>What every line keeps: at most four verify-only secrets, every secret sixteen octets.\<close>

definition block_ok :: "block \<Rightarrow> bool" where
  "block_ok b \<longleftrightarrow> length (cfg_verifyOnly (b_cfg b)) \<le> maxVerifyOnly \<and>
     (\<forall>k\<in>set (cfg_secret (b_cfg b) # cfg_verifyOnly (b_cfg b)). length k = 16)"

lemma property_block_ok: "block_ok b \<Longrightarrow> property b name value = Inr b' \<Longrightarrow> block_ok b'"
  by (auto simp: property_def block_ok_def parseSecret_length split: if_splits option.splits)

lemma parse_lines_block_ok: "block_ok b \<Longrightarrow> parse_lines seen b ls = Inr b' \<Longrightarrow> block_ok b'"
  by (induction seen b ls rule: parse_lines.induct)
    (auto split: if_splits list.splits sum.splits dest: property_block_ok)

lemma finish_ok:
  assumes "block_ok b" and "\<forall>k. rand = Some k \<longrightarrow> length k = 16"
    and "finish readFile trimSpace rand now b = Inr (cfg, since)"
  shows "block_ok (b\<lparr>b_cfg := cfg\<rparr>) \<and> distinct (cfg_secret cfg # cfg_verifyOnly cfg)"
  using assms
  by (auto simp: finish_def block_ok_def Let_def listed_twice_iff readSecretFile_def parseSecret_length
      split: if_splits option.splits sum.splits)

text \<open>
  C13: whatever the Corefile and the secret file say, an accepted configuration has sixteen-octet
  secrets only (so \<open>siphash24\<close> is always keyed as it requires), at most four verify-only secrets, and
  no secret twice; the same holds of the plugin \<open>newCookie\<close> builds from it.
\<close>

theorem accepted_configuration_is_sound:
  assumes "parse readFile trimSpace rand now cf = Inr (cfg, since)"
    and "\<forall>k. rand = Some k \<longrightarrow> length k = 16"
  shows "let s = keys (newCookie cfg); all = generate s # verifyOnly s in
    distinct all \<and> (\<forall>k\<in>set all. length k = 16) \<and> length (verifyOnly s) \<le> 4"
proof -
  from assms(1) obtain lines b where "parse_lines [] empty_block lines = Inr b"
    and fin: "finish readFile trimSpace rand now b = Inr (cfg, since)"
    by (auto simp: parse_def split: list.splits if_splits sum.splits)
  moreover have "block_ok empty_block" by (simp add: block_ok_def empty_block_def)
  ultimately have "block_ok b" by (blast intro: parse_lines_block_ok)
  from finish_ok [OF this assms(2) fin] show ?thesis
    by (simp add: newCookie_def block_ok_def Let_def)
qed

theorem accepted_configuration_is_sound_witness:
  "let s = keys (newCookie \<lparr>cfg_verifyOnly = [replicate 16 2], cfg_mode = modeEnforce, cfg_secret = replicate 16 1\<rparr>) in
    distinct (generate s # verifyOnly s) \<and> length (generate s) = 16 \<and> length (verifyOnly s) \<le> 4"
proof -
  let ?cfg = "\<lparr>cfg_verifyOnly = [replicate 16 2], cfg_mode = modeEnforce, cfg_secret = replicate 16 1\<rparr> :: cookie_config"
  have "parse (\<lambda>_. None) id None 0
      [([], [(''secret'', [hex_encode (replicate 16 1)]), (''verify_secret'', [hex_encode (replicate 16 2)]),
             (''mode'', [''enforce''])])] = Inr (?cfg, 0)"
    by (simp add: parse_def empty_block_def property_def parseSecret_def finish_def)
  from accepted_configuration_is_sound [OF this] show ?thesis by (simp add: Let_def)
qed

end
