(* ===== verification/Cookie_Metrics.thy ===== *)
theory Cookie_Metrics
  imports Cookie_Handler
begin

text \<open>
  \<open>cookie/metrics.go\<close>, the metadata provider of \<open>cookie/handler.go\<close> and the registration in \<open>cookie/setup.go\<close>: the counters of
  the process as a state that requests and set-ups step through, the names of their labels, and the age of the secret. A counter
  never set is at zero; the age is the duration the gauge converts to seconds.
\<close>

section \<open>Names\<close>

fun status_label :: "status \<Rightarrow> string" where
  "status_label statusNone = ''no_cookie''"
| "status_label statusMalformed = ''malformed''"
| "status_label statusClientOnly = ''client_only''"
| "status_label statusInvalidServer = ''invalid_server''"
| "status_label statusValid = ''valid''"
| "status_label statusValidPrevious = ''valid_previous''"

fun class_String :: "cookie_class \<Rightarrow> string" where
  "class_String classMalformed = ''malformed''"
| "class_String classClientOnly = ''client_only''"
| "class_String classWithServer = ''with_server''"

fun mode_String :: "cookie_mode \<Rightarrow> string" where
  "mode_String modeEnforce = ''enforce''"
| "mode_String modePermissive = ''permissive''"

definition cookie_Metadata :: "(string \<Rightarrow> addr option) \<Rightarrow> cookie_plugin \<Rightarrow> request_state \<Rightarrow> int \<Rightarrow> string \<times> string" where
  "cookie_Metadata parseAddr c state unix = (''cookie/status'', status_label (in_status (inspect parseAddr c state unix)))"

section \<open>The collectors\<close>

record cookie_metrics =
  requests :: "string \<Rightarrow> nat"
  badCookies :: nat
  formerrs :: nat
  secretSince :: int

definition fresh_metrics :: cookie_metrics where
  "fresh_metrics = \<lparr>requests = (\<lambda>_. 0), badCookies = 0, formerrs = 0, secretSince = 0\<rparr>"

fun cookie_Inc :: "cookie_count \<Rightarrow> cookie_metrics \<Rightarrow> cookie_metrics" where
  "cookie_Inc (requests_inc st) m = m\<lparr>requests := (requests m)(status_label st := Suc (requests m (status_label st)))\<rparr>"
| "cookie_Inc formerrs_inc m = m\<lparr>formerrs := Suc (formerrs m)\<rparr>"
| "cookie_Inc badCookies_inc m = m\<lparr>badCookies := Suc (badCookies m)\<rparr>"

text \<open>\<open>time.Since\<close> saturates; \<open>nowNs\<close> is the clock in nanoseconds.\<close>

definition saturate64 :: "int \<Rightarrow> int" where
  "saturate64 d = max (- (2 ^ 63)) (min (2 ^ 63 - 1) d)"

definition secret_age :: "cookie_metrics \<Rightarrow> int \<Rightarrow> int" where
  "secret_age m nowNs = (if secretSince m = 0 then 0 else saturate64 (nowNs - secretSince m * 1000000000))"

text \<open>\<open>setup\<close>: a Corefile that parses stores the time of its secret and gives a plugin.\<close>

definition cookie_setup ::
  "(string \<Rightarrow> (string \<times> int) option) \<Rightarrow> (string \<Rightarrow> string) \<Rightarrow> bytes option \<Rightarrow> int \<Rightarrow> corefile \<Rightarrow> cookie_metrics \<Rightarrow>
     (setup_error + cookie_plugin) \<times> cookie_metrics" where
  "cookie_setup readFile trimSpace rand now cf m =
     (case parse readFile trimSpace rand now cf of
        Inl e \<Rightarrow> (Inl e, m)
      | Inr (cfg, since) \<Rightarrow> (Inr (newCookie cfg), m\<lparr>secretSince := since\<rparr>))"

section \<open>What the counters say\<close>

text \<open>
  The process: requests are handled by some instance of the plugin, with any clock and any behaviour of the library, and
  instances are set up in between.
\<close>

inductive cookie_run :: "(status \<times> bool) list \<Rightarrow> cookie_metrics \<Rightarrow> bool" where
  start: "cookie_run [] fresh_metrics"
| request: "cookie_run log m \<Longrightarrow> ServeDNS parseAddr setRcode setEdns0 c state unix1 unix2 = (counts, act) \<Longrightarrow>
    cookie_run (log @ [(in_status (inspect parseAddr c state unix1), mode c = modeEnforce \<and> Proto state = ''udp'')]) (fold cookie_Inc counts m)"
| configure: "cookie_run log m \<Longrightarrow> cookie_setup readFile trimSpace rand now cf m = (r, m') \<Longrightarrow> cookie_run log m'"

definition labels :: "string list" where
  "labels = [''no_cookie'', ''malformed'', ''client_only'', ''invalid_server'', ''valid'', ''valid_previous'']"

lemma status_label_inj: "status_label a = status_label b \<longleftrightarrow> a = b"
  by (cases a; cases b) simp_all

lemma status_label_malformed: "status_label st = ''malformed'' \<longleftrightarrow> st = statusMalformed"
  by (cases st) simp_all

lemma status_label_labels: "status_label st \<in> set labels"
  by (cases st) (simp_all add: labels_def)

lemma labels_distinct: "distinct labels"
  by (simp add: labels_def)

definition refused :: "status \<times> bool \<Rightarrow> bool" where
  "refused x \<longleftrightarrow> snd x \<and> fst x \<in> {statusClientOnly, statusInvalidServer}"

text \<open>The counter updates of one request are those of its status.\<close>

lemma ServeDNS_counts:
  assumes "ServeDNS parseAddr setRcode setEdns0 c state unix1 unix2 = (counts, act)"
  shows "counts =
    (let st = in_status (inspect parseAddr c state unix1) in
     requests_inc st #
       (if st = statusMalformed then [formerrs_inc]
        else if refused (st, mode c = modeEnforce \<and> Proto state = ''udp'') then [badCookies_inc] else []))"
proof -
  let ?st = "in_status (inspect parseAddr c state unix1)"
  show ?thesis using assms
    by (cases ?st) (auto simp: ServeDNS_def Let_def refused_def validated_def split: if_splits)
qed

definition counted :: "(status \<times> bool) list \<Rightarrow> cookie_metrics \<Rightarrow> bool" where
  "counted log m \<longleftrightarrow>
     (\<forall>st. requests m (status_label st) = length (filter (\<lambda>x. fst x = st) log)) \<and>
     (\<forall>l. l \<notin> set labels \<longrightarrow> requests m l = 0) \<and>
     formerrs m = length (filter (\<lambda>x. fst x = statusMalformed) log) \<and>
     badCookies m = length (filter refused log)"

lemma counted_request:
  assumes "counted log m"
  shows "counted (log @ [(st, e)])
    (fold cookie_Inc (requests_inc st # (if st = statusMalformed then [formerrs_inc]
       else if refused (st, e) then [badCookies_inc] else [])) m)"
  using assms status_label_labels [of st] by (auto simp: counted_def status_label_inj status_label_malformed refused_def)

lemma cookie_run_counted: "cookie_run log m \<Longrightarrow> counted log m"
proof (induction rule: cookie_run.induct)
  case start
  show ?case by (simp add: counted_def fresh_metrics_def)
next
  case (request log m parseAddr setRcode setEdns0 c state unix1 unix2 counts act)
  show ?case
    using counted_request [OF request.IH] ServeDNS_counts [OF request.hyps(2)] by (simp add: Let_def)
next
  case (configure log m readFile trimSpace rand now cf r m')
  then show ?case by (auto simp: cookie_setup_def counted_def split: sum.splits prod.splits)
qed

text \<open>
  In every history the cases partition the requests, nothing from a request becomes a label, the FORMERR counter is the
  malformed case, and the BADCOOKIE counter is at most the two unvalidated ones.
\<close>

lemma length_by_status:
  "length log = (\<Sum>st \<leftarrow> [statusNone, statusMalformed, statusClientOnly, statusInvalidServer, statusValid, statusValidPrevious].
     length (filter (\<lambda>x. fst x = st) log))"
proof (induction log)
  case (Cons x log)
  then show ?case by (cases "fst x") simp_all
qed simp

lemma cookie_counters_add_up:
  assumes "cookie_run log m"
  shows "(\<Sum>l\<leftarrow>labels. requests m l) = length log" and "l \<notin> set labels \<Longrightarrow> requests m l = 0"
    and "formerrs m = requests m ''malformed''" and "badCookies m \<le> requests m ''client_only'' + requests m ''invalid_server''"
proof -
  have c: "counted log m" by (rule cookie_run_counted [OF assms])
  then have r: "requests m (status_label st) = length (filter (\<lambda>x. fst x = st) log)" for st
    by (simp add: counted_def)
  note rs = r [of statusNone] r [of statusMalformed] r [of statusClientOnly] r [of statusInvalidServer] r [of statusValid] r [of statusValidPrevious]
  show "(\<Sum>l\<leftarrow>labels. requests m l) = length log"
    using length_by_status [of log] rs by (simp add: labels_def)
  show "l \<notin> set labels \<Longrightarrow> requests m l = 0" using c by (simp add: counted_def)
  show "formerrs m = requests m ''malformed''" using c rs(2) by (simp add: counted_def)
  have "length (filter refused log) \<le>
      length (filter (\<lambda>x. fst x = statusClientOnly) log) + length (filter (\<lambda>x. fst x = statusInvalidServer) log)"
    by (induction log) (auto simp: refused_def)
  then show "badCookies m \<le> requests m ''client_only'' + requests m ''invalid_server''"
    using c rs(3,4) by (simp add: counted_def)
qed

text \<open>The metadata of a request names the series its handling counts, when the clock is read at the same second.\<close>

lemma metadata_names_the_counted_case:
  assumes "ServeDNS parseAddr setRcode setEdns0 c state unix unix2 = (counts, act)"
  shows "requests (fold cookie_Inc counts m) (snd (cookie_Metadata parseAddr c state unix)) =
    Suc (requests m (snd (cookie_Metadata parseAddr c state unix)))"
  using ServeDNS_counts [OF assms] by (auto simp: cookie_Metadata_def Let_def)

text \<open>The gauge: a failed set-up leaves it, an accepted one restarts it from the secret file's time or from now.\<close>

lemma setup_restarts_the_age:
  assumes "cookie_setup readFile trimSpace rand now cf m = (r, m')"
  shows "case r of
      Inl e \<Rightarrow> m' = m
    | Inr p \<Rightarrow> secretSince m' = now \<or> (\<exists>path raw. readFile path = Some (raw, secretSince m'))"
  using assms
  by (auto simp: cookie_setup_def parse_def finish_def readSecretFile_def Let_def split: sum.splits prod.splits option.splits if_splits list.splits)

end
