(* ===== verification/Dyn_Zone.thy ===== *)
theory Dyn_Zone
  imports Dns_Msg Go_Text "HOL-Library.Multiset"
begin

text \<open>
  \<open>dynupdate/zone.go\<close>: owner-name comparison, RRset selection, record identity, serial arithmetic
  and the record types an update may carry, over the zone as the flat record list the plugin keeps.
  Go's records are pointers the plugin never writes through (it replaces an element by a changed
  copy), so records are values here.

  \<open>dns_lib\<close> holds what the code calls in the DNS library and in Go's Unicode tables. \<open>dns_lib_ok\<close>
  states the documented behaviour of canonical names that some of the theorems rely on.
\<close>

section \<open>The DNS library\<close>

record dns_lib =
  CanonicalName :: "string \<Rightarrow> string"
  ToLower :: "string \<Rightarrow> string"
  IsSubDomain :: "string \<Rightarrow> string \<Rightarrow> bool"
  rr_String :: "rr \<Rightarrow> string"
  TypeKnown :: "u16 \<Rightarrow> bool"
  IsTsig :: "msg \<Rightarrow> bool"
  SetRcode :: "msg \<Rightarrow> int \<Rightarrow> msg"

definition canon :: "dns_lib \<Rightarrow> string \<Rightarrow> string" where
  "canon lib name = ToLower lib (CanonicalName lib name)"

section \<open>Names\<close>

definition isASCII :: "string \<Rightarrow> bool" where
  "isASCII s = list_all (\<lambda>c. (of_char c :: nat) < 128) s"

definition equalFoldASCII :: "string \<Rightarrow> string \<Rightarrow> bool" where
  "equalFoldASCII a b =
     (if length a \<noteq> length b then False
      else list_all (\<lambda>i. lower_char (a ! i) = lower_char (b ! i)) [0..<length a])"

definition sameName :: "dns_lib \<Rightarrow> rr \<Rightarrow> string \<Rightarrow> bool" where
  "sameName lib rr canonical =
     (let name = Name rr in
      if \<not> isASCII name then canon lib name = canonical
      else if name = [] \<or> last name \<noteq> CHR ''.'' then
        length canonical = length name + 1 \<and> canonical ! length name = CHR ''.'' \<and>
        equalFoldASCII name (take (length name) canonical)
      else equalFoldASCII name canonical)"

definition inZone :: "dns_lib \<Rightarrow> string \<Rightarrow> string \<Rightarrow> bool" where
  "inZone lib zone name = (let n = canon lib name in n = zone \<or> IsSubDomain lib zone n)"

section \<open>Record sets\<close>

definition nameInUse :: "dns_lib \<Rightarrow> rr list \<Rightarrow> string \<Rightarrow> bool" where
  "nameInUse lib rrs name = (let c = canon lib name in list_ex (\<lambda>rr. sameName lib rr c) rrs)"

definition rrsetOf :: "dns_lib \<Rightarrow> rr list \<Rightarrow> string \<Rightarrow> u16 \<Rightarrow> rr list" where
  "rrsetOf lib rrs name rrtype =
     (let c = canon lib name in filter (\<lambda>rr. sameName lib rr c \<and> Rrtype rr = rrtype) rrs)"

definition rrsetExists :: "dns_lib \<Rightarrow> rr list \<Rightarrow> string \<Rightarrow> u16 \<Rightarrow> bool" where
  "rrsetExists lib rrs name rrtype = (0 < length (rrsetOf lib rrs name rrtype))"

definition rdataKey :: "dns_lib \<Rightarrow> rr \<Rightarrow> string" where
  "rdataKey lib rr = rr_String lib (rr\<lparr>Name := canon lib (Name rr), Ttl := 0, Class := ClassINET\<rparr>)"

text \<open>\<open>indexOfRR\<close>, \<open>None\<close> for the -1 the code returns; the rendering of \<open>want\<close> it caches is constant.\<close>

fun indexOfRR :: "dns_lib \<Rightarrow> rr list \<Rightarrow> rr \<Rightarrow> nat option" where
  "indexOfRR lib [] want = None"
| "indexOfRR lib (rr # rrs) want =
     (if Rrtype rr \<noteq> Rrtype want \<or> \<not> sameName lib rr (canon lib (Name want))
      then map_option Suc (indexOfRR lib rrs want)
      else if rdataKey lib rr = rdataKey lib want then Some 0
      else map_option Suc (indexOfRR lib rrs want))"

text \<open>\<open>sameRRset\<close>: the counting map as a function from keys, and the loop that uses it up.\<close>

fun count_down :: "dns_lib \<Rightarrow> (string \<Rightarrow> nat) \<Rightarrow> rr list \<Rightarrow> bool" where
  "count_down lib counts [] = True"
| "count_down lib counts (rr # want) =
     (let k = rdataKey lib rr in
      if counts k = 0 then False else count_down lib (counts(k := counts k - 1)) want)"

definition sameRRset :: "dns_lib \<Rightarrow> rr list \<Rightarrow> rr list \<Rightarrow> bool" where
  "sameRRset lib have_rrs want =
     (if length have_rrs \<noteq> length want then False
      else count_down lib
        (fold (\<lambda>rr counts. counts(rdataKey lib rr := counts (rdataKey lib rr) + 1)) have_rrs (\<lambda>_. 0)) want)"

definition deleteWhere :: "rr list \<Rightarrow> bool \<Rightarrow> (rr \<Rightarrow> bool) \<Rightarrow> rr list \<times> bool" where
  "deleteWhere rrs changed match_rr =
     (filter (\<lambda>rr. \<not> match_rr rr) rrs, changed \<or> list_ex match_rr rrs)"

definition countRRset :: "dns_lib \<Rightarrow> rr list \<Rightarrow> string \<Rightarrow> u16 \<Rightarrow> nat" where
  "countRRset lib rrs canonical rrtype =
     length (filter (\<lambda>rr. sameName lib rr canonical \<and> Rrtype rr = rrtype) rrs)"

definition hasCNAME :: "dns_lib \<Rightarrow> rr list \<Rightarrow> string \<Rightarrow> bool" where
  "hasCNAME lib rrs canonical =
     list_ex (\<lambda>rr. sameName lib rr canonical \<and> Rrtype rr = TypeCNAME) rrs"

definition hasNonCNAME :: "dns_lib \<Rightarrow> rr list \<Rightarrow> string \<Rightarrow> bool" where
  "hasNonCNAME lib rrs canonical =
     list_ex (\<lambda>rr. sameName lib rr canonical \<and>
       \<not> (Rrtype rr = TypeCNAME \<or> Rrtype rr = TypeRRSIG \<or> Rrtype rr = TypeNSEC)) rrs"

fun soaOf :: "rr list \<Rightarrow> soa_data option" where
  "soaOf [] = None"
| "soaOf (rr # rrs) = (case Rdata rr of SOA s \<Rightarrow> Some s | _ \<Rightarrow> soaOf rrs)"

section \<open>Serials and types\<close>

definition serialGreater :: "u32 \<Rightarrow> u32 \<Rightarrow> bool" where
  "serialGreater a b \<longleftrightarrow> a \<noteq> b \<and> ((a < b \<and> 2147483648 < b - a) \<or> (b < a \<and> a - b < 2147483648))"

definition next_serial :: "u32 \<Rightarrow> u32" where
  "next_serial s = (if s + 1 = 0 then 1 else s + 1)"

fun bumpSerial :: "rr list \<Rightarrow> rr list" where
  "bumpSerial [] = []"
| "bumpSerial (rr # rrs) =
     (case Rdata rr of
        SOA s \<Rightarrow> rr\<lparr>Rdata := SOA (s\<lparr>Serial := next_serial (Serial s)\<rparr>)\<rparr> # rrs
      | _ \<Rightarrow> rr # bumpSerial rrs)"

definition isUpdatableType :: "dns_lib \<Rightarrow> u16 \<Rightarrow> bool" where
  "isUpdatableType lib t =
     (if t = 0 \<or> t = TypeOPT \<or> (128 \<le> t \<and> t \<le> 255) then False else TypeKnown lib t)"

section \<open>Facts about names\<close>

text \<open>
  A name in the form the DNS library gives names it unpacked from a message: it ends in a dot, and
  that dot is not escaped (an even number of backslashes stands before it).
\<close>

definition wire_name :: "string \<Rightarrow> bool" where
  "wire_name n \<longleftrightarrow> n \<noteq> [] \<and> last n = CHR ''.'' \<and>
     even (length (takeWhile (\<lambda>c. c = CHR 0x5C) (rev (butlast n))))"

definition dns_lib_ok :: "dns_lib \<Rightarrow> bool" where
  "dns_lib_ok lib \<longleftrightarrow>
     (\<forall>n. isASCII n \<and> wire_name n \<longrightarrow> canon lib n = lower_ascii n) \<and>
     (\<forall>n. isASCII n \<and> (n = [] \<or> last n \<noteq> CHR ''.'') \<longrightarrow> canon lib n = lower_ascii n @ ''.'') \<and>
     (\<forall>n. lower_ascii (canon lib n) = canon lib n) \<and>
     (\<forall>n. wire_name n \<longrightarrow> canon lib (canon lib n) = canon lib n)"

abbreviation owner :: "dns_lib \<Rightarrow> rr \<Rightarrow> string" where
  "owner lib rr \<equiv> canon lib (Name rr)"

lemma equalFoldASCII_iff: "equalFoldASCII a b \<longleftrightarrow> lower_ascii a = lower_ascii b"
  by (simp add: equalFoldASCII_def flip: fold_eq_nth)

lemma snoc_dot_iff: "length c = n + 1 \<and> c ! n = x \<longleftrightarrow> (\<exists>ys. length ys = n \<and> c = ys @ [x])"
  by (cases c rule: rev_cases) auto

lemma sameName_canon:
  assumes lib: "dns_lib_ok lib" and name: "wire_name (Name rr) \<or> Name rr = [] \<or> last (Name rr) \<noteq> CHR ''.''"
    and c: "lower_ascii c = c"
  shows "sameName lib rr c \<longleftrightarrow> owner lib rr = c"
proof -
  let ?n = "Name rr"
  consider (other) "\<not> isASCII ?n" | (bare) "isASCII ?n" "?n = [] \<or> last ?n \<noteq> CHR ''.''"
    | (fqdn) "isASCII ?n" "wire_name ?n" "\<not> (?n = [] \<or> last ?n \<noteq> CHR ''.'')"
    using name by blast
  then show ?thesis
  proof cases
    case other
    then show ?thesis by (simp add: sameName_def)
  next
    case bare
    have "canon lib ?n = lower_ascii ?n @ ''.''"
      using lib bare unfolding dns_lib_ok_def by blast
    moreover have "sameName lib rr c \<longleftrightarrow> (\<exists>ys. length ys = length ?n \<and> c = ys @ ''.'' \<and> lower_ascii ?n = lower_ascii ys)"
    proof -
      have "sameName lib rr c \<longleftrightarrow>
          (length c = length ?n + 1 \<and> c ! length ?n = CHR ''.'') \<and> lower_ascii ?n = lower_ascii (take (length ?n) c)"
        using bare by (simp only: sameName_def Let_def equalFoldASCII_iff if_True not_True_eq_False if_False conj_assoc)
      then show ?thesis unfolding snoc_dot_iff by auto
    qed
    moreover have "lower_ascii ys = ys" if "c = ys @ ''.''" for ys
      using c that by simp
    ultimately show ?thesis by (auto simp: lower_ascii_def)
  next
    case fqdn
    have "canon lib ?n = lower_ascii ?n"
      using lib fqdn unfolding dns_lib_ok_def by blast
    with fqdn c show ?thesis by (simp add: sameName_def Let_def equalFoldASCII_iff)
  qed
qed

section \<open>The example library\<close>

text \<open>
  A library that satisfies \<open>dns_lib_ok\<close>, for evaluating the model on concrete zones: names are
  qualified and folded, a record prints its name, type and data.
\<close>

definition example_lib :: dns_lib where
  "example_lib =
     \<lparr>CanonicalName = (\<lambda>n. lower_ascii (if n = [] \<or> last n \<noteq> CHR ''.'' then n @ ''.'' else n)),
      ToLower = lower_ascii, IsSubDomain = (\<lambda>parent child. has_suffix child (CHR ''.'' # parent)),
      rr_String = (\<lambda>rr. Name rr @ char_of (unat (Rrtype rr)) #
        (case Rdata rr of Other d \<Rightarrow> d | SOA s \<Rightarrow> Ns_name s @ char_of (unat (Serial s)) # [] | _ \<Rightarrow> [])),
      TypeKnown = (\<lambda>t. t < 70), IsTsig = (\<lambda>m. True), SetRcode = (\<lambda>m rc. m\<lparr>Rcode := rc\<rparr>)\<rparr>"

lemma lower_char_dot [simp]: "lower_char CHR ''.'' = CHR ''.''"
  by simp

lemma canon_example:
  "canon example_lib n = (if n = [] \<or> last n \<noteq> CHR ''.'' then lower_ascii n @ ''.'' else lower_ascii n)"
  by (simp add: canon_def example_lib_def lower_ascii_def comp_def)

lemma last_lower_ascii [simp]: "n \<noteq> [] \<Longrightarrow> last (lower_ascii n) = lower_char (last n)"
  by (simp add: lower_ascii_def last_map)

lemma example_lib_ok: "dns_lib_ok example_lib"
  unfolding dns_lib_ok_def canon_example wire_name_def
  by (auto simp: lower_ascii_def comp_def last_map)

section \<open>Serial numbers\<close>

text \<open>
  \<open>serialGreater\<close> is the comparison of RFC 1982 on the wrapped difference: the first serial
  is ahead of the second by between one and \<open>2 ^ 31 - 1\<close> steps, modulo \<open>2 ^ 32\<close>.
\<close>

lemma serialGreater_is_rfc1982:
  "serialGreater a b \<longleftrightarrow> (let ahead = (uint a - uint b) mod 2 ^ 32 in 0 < ahead \<and> ahead < 2 ^ 31)"
proof -
  have bnd: "0 \<le> uint a" "0 \<le> uint b" "uint a < 2 ^ 32" "uint b < 2 ^ 32"
    using unsigned_less [of a, where ?'a = int] unsigned_less [of b, where ?'a = int] by simp_all
  have ab: "(uint a - uint b) mod 2 ^ 32 = (if uint b \<le> uint a then uint a - uint b else uint a - uint b + 2 ^ 32)"
    using bnd by (smt (verit) mod_add_self2 mod_pos_pos_trivial)
  have ba: "uint (b - a) = (if uint a \<le> uint b then uint b - uint a else uint b - uint a + 2 ^ 32)"
    and ab': "uint (a - b) = (if uint b \<le> uint a then uint a - uint b else uint a - uint b + 2 ^ 32)"
    using bnd by (simp_all add: uint_sub_if_size word_size)
  show ?thesis
    unfolding serialGreater_def Let_def ab word_less_def ba ab' word_uint_eq_iff
    using bnd by simp (use bnd in presburger)
qed

lemma next_serial_greater: "serialGreater (next_serial s) s" "next_serial s \<noteq> 0"
proof -
  show "next_serial s \<noteq> 0" by (simp add: next_serial_def)
  show "serialGreater (next_serial s) s"
  proof (cases "s + 1 = 0")
    case True
    then have "s = -1" by (simp add: eq_neg_iff_add_eq_0)
    then have "s = 4294967295" by simp
    then show ?thesis by (simp add: next_serial_def serialGreater_def)
  next
    case False
    then have "s < s + 1"
      unfolding word_less_def word_uint_eq_iff
      using unsigned_less [of s, where ?'a = int] by (simp add: uint_plus_if_size word_size split: if_splits)
    with False show ?thesis by (simp add: next_serial_def serialGreater_def)
  qed
qed

section \<open>Record sets compared\<close>

lemma fold_counts:
  "fold (\<lambda>rr counts. counts(key rr := counts (key rr) + 1)) rrs f = (\<lambda>k. f k + count (mset (map key rrs)) k)"
  by (induction rrs arbitrary: f) (auto simp: fun_eq_iff)

lemma count_down_iff:
  "count_down lib f want \<longleftrightarrow> (\<forall>k. count (mset (map (rdataKey lib) want)) k \<le> f k)"
proof (induction want arbitrary: f)
  case Nil
  show ?case by simp
next
  case (Cons rr want)
  let ?k = "rdataKey lib rr"
  show ?case
  proof (cases "f ?k = 0")
    case True
    then show ?thesis by (auto intro!: exI [of _ ?k])
  next
    case False
    then have "(\<forall>k. count (mset (map (rdataKey lib) want)) k \<le> (f(?k := f ?k - 1)) k) \<longleftrightarrow>
        (\<forall>k. count (mset (map (rdataKey lib) (rr # want))) k \<le> f k)"
      by (intro iff_allI) auto
    with False Cons.IH show ?thesis by (simp add: Let_def)
  qed
qed

text \<open>
  the counting loops of \<open>sameRRset\<close> decide equality of the two record lists as multisets of
  identities, so the order of records and their TTLs do not matter.
\<close>

lemma sameRRset_is_multiset_equality:
  "sameRRset lib have_rrs want \<longleftrightarrow> image_mset (rdataKey lib) (mset have_rrs) = image_mset (rdataKey lib) (mset want)"
proof -
  let ?H = "mset (map (rdataKey lib) have_rrs)" and ?W = "mset (map (rdataKey lib) want)"
  have "size ?H = size ?W \<and> ?W \<subseteq># ?H \<longleftrightarrow> ?H = ?W"
    using mset_subset_size [of ?W ?H] by (metis less_irrefl subset_mset.le_less subset_mset.order_refl)
  moreover have "sameRRset lib have_rrs want \<longleftrightarrow> size ?H = size ?W \<and> ?W \<subseteq># ?H"
    unfolding sameRRset_def fold_counts count_down_iff by (simp add: subseteq_mset_def)
  ultimately show ?thesis by simp
qed

section \<open>Finding a record\<close>

definition same_rr :: "dns_lib \<Rightarrow> rr \<Rightarrow> rr \<Rightarrow> bool" where
  "same_rr lib want rr \<longleftrightarrow>
     Rrtype rr = Rrtype want \<and> sameName lib rr (canon lib (Name want)) \<and> rdataKey lib rr = rdataKey lib want"

lemma indexOfRR_Some:
  "indexOfRR lib rrs want = Some i \<Longrightarrow> i < length rrs \<and> same_rr lib want (rrs ! i)"
proof (induction rrs arbitrary: i)
  case (Cons rr rrs)
  then show ?case by (auto simp: same_rr_def split: if_splits)
qed simp

lemma indexOfRR_None: "indexOfRR lib rrs want = None \<longleftrightarrow> (\<forall>rr\<in>set rrs. \<not> same_rr lib want rr)"
  by (induction rrs) (auto simp: same_rr_def)

lemma not_soa:
  "\<forall>t. Rdata rr \<noteq> SOA t \<Longrightarrow> soaOf (rr # rrs) = soaOf rrs \<and> bumpSerial (rr # rrs) = rr # bumpSerial rrs"
  by (cases "Rdata rr") simp_all

lemma bumpSerial_decomp:
  "soaOf rrs = Some s \<Longrightarrow>
     \<exists>pre rr post. rrs = pre @ rr # post \<and> Rdata rr = SOA s \<and> (\<forall>x\<in>set pre. \<forall>t. Rdata x \<noteq> SOA t) \<and>
       bumpSerial rrs = pre @ rr\<lparr>Rdata := SOA (s\<lparr>Serial := next_serial (Serial s)\<rparr>)\<rparr> # post"
proof (induction rrs)
  case (Cons rr rrs)
  show ?case
  proof (cases "\<exists>t. Rdata rr = SOA t")
    case True
    with Cons.prems show ?thesis by (intro exI [of _ "[]"]) auto
  next
    case False
    then have n: "soaOf (rr # rrs) = soaOf rrs" "bumpSerial (rr # rrs) = rr # bumpSerial rrs"
      using not_soa [of rr rrs] by blast+
    with Cons obtain pre x post where
      "rrs = pre @ x # post" "Rdata x = SOA s" "\<forall>y\<in>set pre. \<forall>t. Rdata y \<noteq> SOA t"
      "bumpSerial rrs = pre @ x\<lparr>Rdata := SOA (s\<lparr>Serial := next_serial (Serial s)\<rparr>)\<rparr> # post"
      by metis
    with False n show ?thesis by (intro exI [of _ "rr # pre"]) (auto simp del: bumpSerial.simps)
  qed
qed simp

lemma soaOf_append_none: "\<forall>x\<in>set pre. \<forall>t. Rdata x \<noteq> SOA t \<Longrightarrow> soaOf (pre @ post) = soaOf post"
  by (induction pre) (auto split: rdata.splits)

lemma soaOf_None: "soaOf rrs = None \<longleftrightarrow> (\<forall>x\<in>set rrs. \<forall>t. Rdata x \<noteq> SOA t)"
  by (induction rrs) (auto split: rdata.splits)

lemma soaOf_bumpSerial:
  "soaOf rrs = Some s \<Longrightarrow> soaOf (bumpSerial rrs) = Some (s\<lparr>Serial := next_serial (Serial s)\<rparr>)"
  using bumpSerial_decomp [of rrs s] by (auto simp: soaOf_append_none)

end
