(* ===== verification/Dyn_Update.thy ===== *)
theory Dyn_Update
  imports Dyn_Zone
begin

text \<open>
  \<open>dynupdate/update.go\<close> and \<open>dynupdate/dynupdate.go\<close>: the RFC 2136 state machine. An update is a
  sequence of guarded stages (zone section, TSIG, prerequisites, prescan, application on a copy,
  serial, rebuild and swap); every stage that refuses returns a response code and leaves the state.

  The served view is an abstract value: \<open>view_lib\<close> holds CoreDNS's \<open>file.NewZone\<close> and \<open>Zone.Insert\<close>.
\<close>

section \<open>State\<close>

record 'v view_lib =
  NewZone :: "string \<Rightarrow> 'v"
  Insert :: "'v \<Rightarrow> rr \<Rightarrow> 'v option"

record 'v dynupdate =
  Xfer :: bool
  mutable :: "(u16 \<Rightarrow> bool) option"
  view :: 'v
  d_Zone :: string
  rrs :: "rr list"

text \<open>
  The response writer: whether it offers \<open>TsigStatus\<close> and what that returns (\<open>Some True\<close> for a nil
  error), and whether writing a message fails.
\<close>

record writer =
  TsigStatus :: "bool option"
  write_fails :: bool

datatype event = Notify string | Wrote msg

section \<open>Rebuilding the view\<close>

fun insert_all :: "'v view_lib \<Rightarrow> 'v \<Rightarrow> rr list \<Rightarrow> 'v option" where
  "insert_all vl z [] = Some z"
| "insert_all vl z (rr # rest) = (case Insert vl z rr of None \<Rightarrow> None | Some z' \<Rightarrow> insert_all vl z' rest)"

definition build :: "'v view_lib \<Rightarrow> 'v dynupdate \<Rightarrow> rr list \<Rightarrow> 'v option" where
  "build vl d rs = insert_all vl (NewZone vl (d_Zone d)) rs"

definition swap :: "'v view_lib \<Rightarrow> 'v dynupdate \<Rightarrow> rr list \<Rightarrow> 'v dynupdate option" where
  "swap vl d rs = (case build vl d rs of None \<Rightarrow> None | Some v \<Rightarrow> Some (d\<lparr>rrs := rs, view := v\<rparr>))"

section \<open>Prerequisites\<close>

definition checkPrereqExists :: "dns_lib \<Rightarrow> rr list \<Rightarrow> rr \<Rightarrow> int option" where
  "checkPrereqExists lib zrrs h =
     (if Rdlength h \<noteq> 0 then Some RcodeFormatError
      else if Rrtype h = TypeANY then
        (if \<not> nameInUse lib zrrs (Name h) then Some RcodeNameError else None)
      else if \<not> rrsetExists lib zrrs (Name h) (Rrtype h) then Some RcodeNXRrset
      else None)"

definition checkPrereqAbsent :: "dns_lib \<Rightarrow> rr list \<Rightarrow> rr \<Rightarrow> int option" where
  "checkPrereqAbsent lib zrrs h =
     (if Rdlength h \<noteq> 0 then Some RcodeFormatError
      else if Rrtype h = TypeANY then
        (if nameInUse lib zrrs (Name h) then Some RcodeYXDomain else None)
      else if rrsetExists lib zrrs (Name h) (Rrtype h) then Some RcodeYXRrset
      else None)"

text \<open>The value-dependent map, keyed by canonical name and type.\<close>

type_synonym rrset_map = "((string \<times> u16) \<times> rr list) list"

fun map_append :: "'k \<Rightarrow> 'a \<Rightarrow> ('k \<times> 'a list) list \<Rightarrow> ('k \<times> 'a list) list" where
  "map_append k x [] = [(k, [x])]"
| "map_append k x ((k', xs) # m) = (if k' = k then (k', xs @ [x]) # m else (k', xs) # map_append k x m)"

definition keyOf :: "dns_lib \<Rightarrow> string \<Rightarrow> u16 \<Rightarrow> string \<times> u16" where
  "keyOf lib name rrtype = (canon lib name, rrtype)"

fun collect_prereqs ::
  "dns_lib \<Rightarrow> string \<Rightarrow> rr list \<Rightarrow> rrset_map \<Rightarrow> rr list \<Rightarrow> int + rrset_map" where
  "collect_prereqs lib zone zrrs vd [] = Inr vd"
| "collect_prereqs lib zone zrrs vd (rr # prereqs) =
     (if Ttl rr \<noteq> 0 then Inl RcodeFormatError
      else if \<not> inZone lib zone (Name rr) then Inl RcodeNotZone
      else if Class rr = ClassANY then
        (case checkPrereqExists lib zrrs rr of
           Some rc \<Rightarrow> Inl rc
         | None \<Rightarrow> collect_prereqs lib zone zrrs vd prereqs)
      else if Class rr = ClassNONE then
        (case checkPrereqAbsent lib zrrs rr of
           Some rc \<Rightarrow> Inl rc
         | None \<Rightarrow> collect_prereqs lib zone zrrs vd prereqs)
      else if Class rr = ClassINET then
        collect_prereqs lib zone zrrs (map_append (keyOf lib (Name rr) (Rrtype rr)) rr vd) prereqs
      else Inl RcodeFormatError)"

definition checkPrereqs :: "dns_lib \<Rightarrow> string \<Rightarrow> rr list \<Rightarrow> rr list \<Rightarrow> int" where
  "checkPrereqs lib zone zrrs prereqs =
     (case collect_prereqs lib zone zrrs [] prereqs of
        Inl rc \<Rightarrow> rc
      | Inr vd \<Rightarrow>
        if list_all (\<lambda>((name, rrtype), want). sameRRset lib (rrsetOf lib zrrs name rrtype) want) vd
        then RcodeSuccess else RcodeNXRrset)"

section \<open>Prescan\<close>

definition prescanRecord :: "dns_lib \<Rightarrow> string \<Rightarrow> (u16 \<Rightarrow> bool) option \<Rightarrow> rr \<Rightarrow> int" where
  "prescanRecord lib zone allowed h =
     (if \<not> inZone lib zone (Name h) then RcodeNotZone
      else
        let deleteEverythingAtName = (Class h = ClassANY \<and> Rrtype h = TypeANY) in
        if \<not> deleteEverythingAtName \<and> \<not> isUpdatableType lib (Rrtype h) then RcodeFormatError
        else if Class h \<notin> {ClassINET, ClassANY, ClassNONE} then RcodeFormatError
        else if Class h = ClassANY \<and> (Ttl h \<noteq> 0 \<or> Rdlength h \<noteq> 0) then RcodeFormatError
        else if Class h = ClassNONE \<and> Ttl h \<noteq> 0 then RcodeFormatError
        else
          (case allowed of
             None \<Rightarrow> RcodeSuccess
           | Some ok \<Rightarrow> if deleteEverythingAtName \<or> \<not> ok (Rrtype h) then RcodeRefused else RcodeSuccess))"

fun prescan :: "dns_lib \<Rightarrow> string \<Rightarrow> (u16 \<Rightarrow> bool) option \<Rightarrow> rr list \<Rightarrow> int" where
  "prescan lib zone allowed [] = RcodeSuccess"
| "prescan lib zone allowed (rr # updates) =
     (let rcode = prescanRecord lib zone allowed rr in
      if rcode \<noteq> RcodeSuccess then rcode else prescan lib zone allowed updates)"

section \<open>Applying the update section\<close>

definition applyAdd :: "dns_lib \<Rightarrow> rr list \<Rightarrow> bool \<Rightarrow> rr \<Rightarrow> string \<Rightarrow> bool \<Rightarrow> rr list \<times> bool" where
  "applyAdd lib out changed rr name apex =
     (if Rrtype rr = TypeSOA then
        (case (Rdata rr, soaOf out) of
           (SOA newSOA, Some cur) \<Rightarrow>
             if \<not> apex \<or> \<not> serialGreater (Serial newSOA) (Serial cur) then (out, changed)
             else (fst (deleteWhere out changed (\<lambda>x. Rrtype x = TypeSOA)) @ [rr], True)
         | _ \<Rightarrow> (out, changed))
      else if Rrtype rr = TypeCNAME \<and> hasNonCNAME lib out name then (out, changed)
      else if Rrtype rr \<noteq> TypeCNAME \<and> hasCNAME lib out name then (out, changed)
      else
        (case indexOfRR lib out rr of
           Some i \<Rightarrow>
             if Ttl (out ! i) \<noteq> Ttl rr then (out[i := (out ! i)\<lparr>Ttl := Ttl rr\<rparr>], True)
             else (out, changed)
         | None \<Rightarrow>
             let out =
               (if Rrtype rr = TypeCNAME
                then fst (deleteWhere out changed (\<lambda>x. sameName lib x name \<and> Rrtype x = TypeCNAME))
                else out)
             in (out @ [rr], True)))"

definition applyDeleteRRset :: "dns_lib \<Rightarrow> rr list \<Rightarrow> bool \<Rightarrow> rr \<Rightarrow> string \<Rightarrow> bool \<Rightarrow> rr list \<times> bool" where
  "applyDeleteRRset lib out changed h name apex =
     (if Rrtype h = TypeANY then
        deleteWhere out changed
          (\<lambda>x. if \<not> sameName lib x name then False
               else if apex \<and> (Rrtype x = TypeSOA \<or> Rrtype x = TypeNS) then False else True)
      else if apex \<and> (Rrtype h = TypeSOA \<or> Rrtype h = TypeNS) then (out, changed)
      else deleteWhere out changed (\<lambda>x. sameName lib x name \<and> Rrtype x = Rrtype h))"

definition applyDeleteRecord :: "dns_lib \<Rightarrow> rr list \<Rightarrow> bool \<Rightarrow> rr \<Rightarrow> string \<Rightarrow> bool \<Rightarrow> rr list \<times> bool" where
  "applyDeleteRecord lib out changed rr name apex =
     (if apex \<and> Rrtype rr = TypeSOA then (out, changed)
      else if apex \<and> Rrtype rr = TypeNS \<and> countRRset lib out name TypeNS \<le> 1 then (out, changed)
      else
        (case indexOfRR lib out rr of
           Some i \<Rightarrow> (take i out @ drop (Suc i) out, True)
         | None \<Rightarrow> (out, changed)))"

definition apply_one :: "dns_lib \<Rightarrow> string \<Rightarrow> rr \<Rightarrow> rr list \<times> bool \<Rightarrow> rr list \<times> bool" where
  "apply_one lib zone rr st =
     (let (out, changed) = st; name = canon lib (Name rr); apex = (name = zone) in
      if Class rr = ClassINET then applyAdd lib out changed rr name apex
      else if Class rr = ClassANY then applyDeleteRRset lib out changed rr name apex
      else if Class rr = ClassNONE then applyDeleteRecord lib out changed rr name apex
      else (out, changed))"

definition apply_updates :: "dns_lib \<Rightarrow> string \<Rightarrow> rr list \<Rightarrow> rr list \<Rightarrow> rr list \<times> bool" where
  "apply_updates lib zone zrrs updates = fold (apply_one lib zone) updates (zrrs, False)"

section \<open>The UPDATE handler\<close>

definition reply :: "dns_lib \<Rightarrow> writer \<Rightarrow> msg \<Rightarrow> int \<Rightarrow> event list \<times> (int \<times> bool)" where
  "reply lib w r rcode =
     ([Wrote ((SetRcode lib r rcode)\<lparr>Opcode := OpcodeUpdate, Authoritative := True\<rparr>)],
      (if write_fails w then (RcodeServerFailure, True) else (RcodeSuccess, False)))"

definition tsigVerified :: "dns_lib \<Rightarrow> writer \<Rightarrow> msg \<Rightarrow> bool" where
  "tsigVerified lib w r = (if \<not> IsTsig lib r then False else TsigStatus w = Some True)"

definition updated_rrs :: "dns_lib \<Rightarrow> string \<Rightarrow> rr list \<Rightarrow> rr list \<Rightarrow> rr list" where
  "updated_rrs lib zone zrrs updates =
     (let updated = fst (apply_updates lib zone zrrs updates) in
      case (soaOf zrrs, soaOf updated) of
        (Some cur, Some nxt) \<Rightarrow> if Serial nxt = Serial cur then bumpSerial updated else updated
      | _ \<Rightarrow> updated)"

text \<open>
  \<open>update_verdict\<close> is the response code \<open>serveUpdate\<close> settles on and the state it leaves;
  \<open>serveUpdate\<close> adds what it writes and notifies.
\<close>

definition update_verdict ::
  "dns_lib \<Rightarrow> 'v view_lib \<Rightarrow> 'v dynupdate \<Rightarrow> writer \<Rightarrow> msg \<Rightarrow> int \<times> 'v dynupdate \<times> string list" where
  "update_verdict lib vl d w r =
     (case Question r of
        [q] \<Rightarrow>
          if Qtype q \<noteq> TypeSOA \<or> Qclass q \<noteq> ClassINET then (RcodeFormatError, d, [])
          else
            let zone = canon lib (QName q) in
            if zone \<noteq> d_Zone d then (RcodeNotAuth, d, [])
            else if \<not> tsigVerified lib w r then (RcodeRefused, d, [])
            else
              let rcode = checkPrereqs lib (d_Zone d) (rrs d) (Answer r) in
              if rcode \<noteq> RcodeSuccess then (rcode, d, [])
              else
                let rcode = prescan lib (d_Zone d) (mutable d) (Ns r) in
                if rcode \<noteq> RcodeSuccess then (rcode, d, [])
                else if \<not> snd (apply_updates lib (d_Zone d) (rrs d) (Ns r)) then (RcodeSuccess, d, [])
                else
                  (case swap vl d (updated_rrs lib (d_Zone d) (rrs d) (Ns r)) of
                     None \<Rightarrow> (RcodeServerFailure, d, [])
                   | Some d' \<Rightarrow> (RcodeSuccess, d', if Xfer d then [zone] else []))
      | _ \<Rightarrow> (RcodeFormatError, d, []))"

definition serveUpdate ::
  "dns_lib \<Rightarrow> 'v view_lib \<Rightarrow> 'v dynupdate \<Rightarrow> writer \<Rightarrow> msg \<Rightarrow> 'v dynupdate \<times> event list \<times> (int \<times> bool)" where
  "serveUpdate lib vl d w r =
     (let (rcode, d', zones) = update_verdict lib vl d w r; (evs, ret) = reply lib w r rcode
      in (d', map Notify zones @ evs, ret))"

text \<open>
  \<open>DynUpdate.ServeDNS\<close> and \<open>DynUpdate.Transfer\<close>: everything that is not an UPDATE goes to the view
  current at that moment; \<open>serve_view\<close> and \<open>view_transfer\<close> are CoreDNS's \<open>file\<close> plugin.
\<close>

definition dyn_ServeDNS ::
  "dns_lib \<Rightarrow> 'v view_lib \<Rightarrow> ('v \<Rightarrow> msg \<Rightarrow> event list \<times> (int \<times> bool)) \<Rightarrow> 'v dynupdate \<Rightarrow> writer \<Rightarrow> msg \<Rightarrow>
     'v dynupdate \<times> event list \<times> (int \<times> bool)" where
  "dyn_ServeDNS lib vl serve_view d w r =
     (if Opcode r = OpcodeUpdate then serveUpdate lib vl d w r else (d, serve_view (view d) r))"

definition dyn_Transfer :: "('v \<Rightarrow> string \<Rightarrow> u32 \<Rightarrow> 'c) \<Rightarrow> 'v dynupdate \<Rightarrow> string \<Rightarrow> u32 \<Rightarrow> 'c" where
  "dyn_Transfer view_transfer d zone serial = view_transfer (view d) zone serial"

end
