(* ===== verification/Dyn_Invariant.thy ===== *)
theory Dyn_Invariant
  imports Dyn_Update
begin

text \<open>
  What makes the record list a zone (one SOA, at the apex; an apex NS; CNAME exclusivity; no record
  twice), and that every stage of an update keeps it. Each stage either filters the list, changes
  TTLs or the serial in place, or appends one record to a filtered list; there is one preservation
  lemma per shape.
\<close>

section \<open>Well-formed zones\<close>

definition is_soa :: "rr \<Rightarrow> bool" where
  "is_soa rr = (case Rdata rr of SOA _ \<Rightarrow> True | _ \<Rightarrow> False)"

lemma is_soa_iff: "is_soa rr \<longleftrightarrow> (\<exists>s. Rdata rr = SOA s)"
  by (cases "Rdata rr") (auto simp: is_soa_def)

definition rr_id :: "dns_lib \<Rightarrow> rr \<Rightarrow> string \<times> u16 \<times> string" where
  "rr_id lib rr = (owner lib rr, Rrtype rr, rdataKey lib rr)"

definition soa_ok :: "dns_lib \<Rightarrow> string \<Rightarrow> rr list \<Rightarrow> bool" where
  "soa_ok lib zone rs \<longleftrightarrow>
     length (filter (\<lambda>x. Rrtype x = TypeSOA) rs) = 1 \<and>
     (\<forall>x\<in>set rs. is_soa x = (Rrtype x = TypeSOA)) \<and>
     (\<forall>x\<in>set rs. Rrtype x = TypeSOA \<longrightarrow> owner lib x = zone)"

definition apex_ns_ok :: "dns_lib \<Rightarrow> string \<Rightarrow> rr list \<Rightarrow> bool" where
  "apex_ns_ok lib zone rs \<longleftrightarrow> (\<exists>x\<in>set rs. Rrtype x = TypeNS \<and> owner lib x = zone)"

definition beside :: "dns_lib \<Rightarrow> string \<Rightarrow> rr \<Rightarrow> bool" where
  "beside lib c x \<longleftrightarrow> owner lib x = c \<and> Rrtype x \<noteq> TypeRRSIG \<and> Rrtype x \<noteq> TypeNSEC"

text \<open>At the owner of a CNAME, the CNAME is the only record besides RRSIG and NSEC.\<close>

definition cname_ok :: "dns_lib \<Rightarrow> rr list \<Rightarrow> bool" where
  "cname_ok lib rs \<longleftrightarrow>
     (\<forall>r\<in>set rs. Rrtype r = TypeCNAME \<longrightarrow> filter (beside lib (owner lib r)) rs = [r])"

definition names_ok :: "rr list \<Rightarrow> bool" where
  "names_ok rs \<longleftrightarrow> (\<forall>x\<in>set rs. wire_name (Name x))"

definition zone_ok :: "dns_lib \<Rightarrow> string \<Rightarrow> rr list \<Rightarrow> bool" where
  "zone_ok lib zone rs \<longleftrightarrow>
     names_ok rs \<and> soa_ok lib zone rs \<and> apex_ns_ok lib zone rs \<and> cname_ok lib rs \<and>
     distinct (map (rr_id lib) rs)"

text \<open>What the DNS library guarantees of an unpacked update record.\<close>

definition update_rr_ok :: "rr \<Rightarrow> bool" where
  "update_rr_ok rr \<longleftrightarrow> wire_name (Name rr) \<and> (is_soa rr \<longrightarrow> Rrtype rr = TypeSOA)"

lemmas zone_parts = names_ok_def soa_ok_def apex_ns_ok_def cname_ok_def

section \<open>Names of stored records\<close>

lemma canon_lower: "dns_lib_ok lib \<Longrightarrow> lower_ascii (canon lib n) = canon lib n"
  unfolding dns_lib_ok_def by blast

lemma sameName_owner [zone_simps]:
  "dns_lib_ok lib \<Longrightarrow> wire_name (Name x) \<Longrightarrow> sameName lib x (canon lib n) \<longleftrightarrow> owner lib x = canon lib n"
  by (simp add: sameName_canon canon_lower)

lemma filter_sameName [zone_simps]:
  "dns_lib_ok lib \<Longrightarrow> names_ok rs \<Longrightarrow>
     filter (\<lambda>x. sameName lib x (canon lib n) \<and> P x) rs = filter (\<lambda>x. owner lib x = canon lib n \<and> P x) rs"
  by (rule filter_cong) (auto simp: names_ok_def sameName_owner)

lemma hasCNAME_owner [zone_simps]:
  "dns_lib_ok lib \<Longrightarrow> names_ok rs \<Longrightarrow>
     hasCNAME lib rs (canon lib n) \<longleftrightarrow> (\<exists>x\<in>set rs. owner lib x = canon lib n \<and> Rrtype x = TypeCNAME)"
  by (auto simp: hasCNAME_def list_ex_iff names_ok_def sameName_owner)

lemma hasNonCNAME_owner [zone_simps]:
  "dns_lib_ok lib \<Longrightarrow> names_ok rs \<Longrightarrow>
     hasNonCNAME lib rs (canon lib n) \<longleftrightarrow> (\<exists>x\<in>set rs. beside lib (canon lib n) x \<and> Rrtype x \<noteq> TypeCNAME)"
  by (auto simp: hasNonCNAME_def list_ex_iff names_ok_def sameName_owner beside_def)

lemma same_rr_id:
  "dns_lib_ok lib \<Longrightarrow> wire_name (Name x) \<Longrightarrow> same_rr lib want x \<longleftrightarrow> rr_id lib x = rr_id lib want"
  by (auto simp: same_rr_def rr_id_def sameName_owner)

lemma soa_exists: "soa_ok lib zone rs \<Longrightarrow> \<exists>s\<in>set rs. Rrtype s = TypeSOA \<and> owner lib s = zone \<and> is_soa s"
proof -
  assume ok: "soa_ok lib zone rs"
  then have "filter (\<lambda>x. Rrtype x = TypeSOA) rs \<noteq> []" by (auto simp: soa_ok_def)
  then obtain s where "s \<in> set rs" "Rrtype s = TypeSOA" by (auto simp: filter_empty_conv)
  with ok show ?thesis by (auto simp: soa_ok_def)
qed

section \<open>Filtering\<close>

lemma cname_ok_filter: "cname_ok lib rs \<Longrightarrow> cname_ok lib (filter P rs)"
  unfolding cname_ok_def
proof (intro ballI impI)
  fix r
  assume all: "\<forall>r\<in>set rs. Rrtype r = TypeCNAME \<longrightarrow> filter (beside lib (owner lib r)) rs = [r]"
    and r: "r \<in> set (filter P rs)" "Rrtype r = TypeCNAME"
  have "filter (beside lib (owner lib r)) (filter P rs) = filter P (filter (beside lib (owner lib r)) rs)"
    by (simp add: conj_commute)
  also have "\<dots> = [r]" using all r by simp
  finally show "filter (beside lib (owner lib r)) (filter P rs) = [r]" .
qed

lemma zone_ok_filter:
  assumes ok: "zone_ok lib zone rs" and soa: "\<And>x. x \<in> set rs \<Longrightarrow> Rrtype x = TypeSOA \<Longrightarrow> P x"
    and ns: "\<exists>x\<in>set rs. Rrtype x = TypeNS \<and> owner lib x = zone \<and> P x"
  shows "zone_ok lib zone (filter P rs)"
proof -
  have "filter (\<lambda>x. Rrtype x = TypeSOA) (filter P rs) = filter (\<lambda>x. Rrtype x = TypeSOA) rs"
    using soa by (auto intro!: filter_cong)
  then have "soa_ok lib zone (filter P rs)" using ok by (auto simp: zone_ok_def soa_ok_def)
  moreover have "apex_ns_ok lib zone (filter P rs)" using ns by (auto simp: apex_ns_ok_def)
  ultimately show ?thesis
    using ok by (auto simp: zone_ok_def cname_ok_filter distinct_map_filter names_ok_def)
qed

section \<open>Changing records in place\<close>

lemma cname_ok_map:
  assumes "cname_ok lib rs" and "\<And>x. x \<in> set rs \<Longrightarrow> owner lib (f x) = owner lib x \<and> Rrtype (f x) = Rrtype x"
  shows "cname_ok lib (map f rs)"
  unfolding cname_ok_def
proof (intro ballI impI)
  fix r'
  assume "r' \<in> set (map f rs)" "Rrtype r' = TypeCNAME"
  then obtain r where r: "r' = f r" "r \<in> set rs" "Rrtype r = TypeCNAME" "owner lib r' = owner lib r"
    using assms(2) by auto
  have "filter (beside lib (owner lib r)) (map f rs) = map f (filter (beside lib (owner lib r)) rs)"
    using assms(2) by (auto simp: filter_map comp_def beside_def intro!: arg_cong [where f = "map f"] filter_cong)
  then show "filter (beside lib (owner lib r')) (map f rs) = [r']"
    using assms(1) r by (simp add: cname_ok_def)
qed

lemma zone_ok_map:
  assumes ok: "zone_ok lib zone rs"
    and f: "\<And>x. x \<in> set rs \<Longrightarrow> Name (f x) = Name x \<and> Rrtype (f x) = Rrtype x \<and> is_soa (f x) = is_soa x"
    and ids: "distinct (map (rr_id lib) (map f rs))"
  shows "zone_ok lib zone (map f rs)"
proof -
  have "filter (\<lambda>x. Rrtype x = TypeSOA) (map f rs) = map f (filter (\<lambda>x. Rrtype x = TypeSOA) rs)"
    using f by (auto simp: filter_map comp_def intro!: arg_cong [where f = "map f"] filter_cong)
  then have "soa_ok lib zone (map f rs)" using ok f by (auto simp: zone_ok_def soa_ok_def)
  moreover have "cname_ok lib (map f rs)"
    using ok f by (intro cname_ok_map) (auto simp: zone_ok_def)
  moreover have "apex_ns_ok lib zone (map f rs)" "names_ok (map f rs)"
    using ok f by (auto simp: zone_ok_def apex_ns_ok_def names_ok_def)
  ultimately show ?thesis using ids by (simp add: zone_ok_def)
qed

lemma list_update_by_id:
  assumes "distinct (map g xs)" "i < length xs"
  shows "xs[i := y] = map (\<lambda>x. if g x = g (xs ! i) then y else x) xs"
proof (rule nth_equalityI)
  fix j
  assume "j < length (xs[i := y])"
  then show "xs[i := y] ! j = map (\<lambda>x. if g x = g (xs ! i) then y else x) xs ! j"
    using assms by (cases "i = j") (auto simp: distinct_conv_nth)
qed simp

lemma remove_nth_by_id:
  assumes "distinct (map g xs)" "i < length xs"
  shows "take i xs @ drop (Suc i) xs = filter (\<lambda>x. g x \<noteq> g (xs ! i)) xs"
proof -
  have xs: "xs = take i xs @ xs ! i # drop (Suc i) xs"
    using assms(2) by (simp add: Cons_nth_drop_Suc)
  have "distinct (map g (take i xs @ xs ! i # drop (Suc i) xs))" using assms(1) xs by simp
  then have "g (xs ! i) \<notin> g ` set (take i xs)" "g (xs ! i) \<notin> g ` set (drop (Suc i) xs)" by simp_all
  then have "\<forall>x\<in>set (take i xs). g x \<noteq> g (xs ! i)" "\<forall>x\<in>set (drop (Suc i) xs). g x \<noteq> g (xs ! i)"
    by (metis imageI)+
  then have "filter (\<lambda>x. g x \<noteq> g (xs ! i)) (take i xs @ xs ! i # drop (Suc i) xs) = take i xs @ drop (Suc i) xs"
    by (simp add: filter_id_conv)
  with xs show ?thesis by simp
qed

lemma zone_ok_set_ttl:
  assumes ok: "zone_ok lib zone rs" and i: "i < length rs"
  shows "zone_ok lib zone (rs[i := (rs ! i)\<lparr>Ttl := t\<rparr>])"
proof -
  have id: "rr_id lib (x\<lparr>Ttl := t\<rparr>) = rr_id lib x" for x
    by (simp add: rr_id_def rdataKey_def)
  have d: "distinct (map (rr_id lib) rs)" using ok by (simp add: zone_ok_def)
  have upd: "rs[i := (rs ! i)\<lparr>Ttl := t\<rparr>] =
      map (\<lambda>x. if rr_id lib x = rr_id lib (rs ! i) then x\<lparr>Ttl := t\<rparr> else x) rs"
    unfolding list_update_by_id [OF d i]
  proof (rule map_cong [OF refl])
    fix x
    assume "x \<in> set rs"
    then have "rr_id lib x = rr_id lib (rs ! i) \<Longrightarrow> x = rs ! i"
      using d i by (auto simp: distinct_map dest: inj_onD)
    then show "(if rr_id lib x = rr_id lib (rs ! i) then (rs ! i)\<lparr>Ttl := t\<rparr> else x) =
      (if rr_id lib x = rr_id lib (rs ! i) then x\<lparr>Ttl := t\<rparr> else x)" by auto
  qed
  show ?thesis
    unfolding upd
  proof (rule zone_ok_map [OF ok])
    have "map (rr_id lib) (map (\<lambda>x. if rr_id lib x = rr_id lib (rs ! i) then x\<lparr>Ttl := t\<rparr> else x) rs) =
        map (rr_id lib) rs"
      by (simp add: id)
    then show "distinct (map (rr_id lib) (map (\<lambda>x. if rr_id lib x = rr_id lib (rs ! i) then x\<lparr>Ttl := t\<rparr> else x) rs))"
      using d by (simp only:)
  qed (simp add: is_soa_def)
qed

lemma bumpSerial_zone_ok:
  assumes ok: "zone_ok lib zone rs"
  shows "zone_ok lib zone (bumpSerial rs)"
proof (cases "soaOf rs")
  case None
  then have "bumpSerial rs = rs" by (induction rs) (auto split: rdata.splits)
  with ok show ?thesis by simp
next
  case (Some s)
  then obtain pre r post where rs: "rs = pre @ r # post" and r: "Rdata r = SOA s"
    and b: "bumpSerial rs = pre @ r\<lparr>Rdata := SOA (s\<lparr>Serial := next_serial (Serial s)\<rparr>)\<rparr> # post"
    using bumpSerial_decomp by blast
  let ?f = "\<lambda>x. if Rrtype x = TypeSOA then r\<lparr>Rdata := SOA (s\<lparr>Serial := next_serial (Serial s)\<rparr>)\<rparr> else x"
  have soa: "soa_ok lib zone rs" using ok by (simp add: zone_ok_def)
  have tr: "Rrtype r = TypeSOA" using soa r rs by (simp add: soa_ok_def is_soa_def)
  have rest: "\<forall>x\<in>set pre \<union> set post. Rrtype x \<noteq> TypeSOA"
    using soa tr by (auto simp: rs soa_ok_def filter_empty_conv)
  have m: "bumpSerial rs = map ?f rs"
    unfolding b using rest tr by (auto simp: rs map_idI)
  have "distinct (map (rr_id lib) (bumpSerial rs))"
    using ok rest tr unfolding b by (auto simp: rs zone_ok_def rr_id_def)
  moreover have "x = r" if "x \<in> set rs" "Rrtype x = TypeSOA" for x
    using that rest rs by auto
  ultimately show ?thesis
    unfolding m using r by (intro zone_ok_map [OF ok]) (auto simp: is_soa_def)
qed

section \<open>Appending a record\<close>

lemma zone_ok_append:
  assumes ok: "zone_ok lib zone rs" and new: "wire_name (Name r)" "Rrtype r \<noteq> TypeSOA" "\<not> is_soa r"
    and id: "rr_id lib r \<notin> rr_id lib ` set rs"
    and alone: "Rrtype r = TypeCNAME \<Longrightarrow> filter (beside lib (owner lib r)) rs = []"
    and no_cname: "Rrtype r \<noteq> TypeCNAME \<Longrightarrow> \<forall>x\<in>set rs. owner lib x = owner lib r \<longrightarrow> Rrtype x \<noteq> TypeCNAME"
  shows "zone_ok lib zone (rs @ [r])"
proof -
  have "cname_ok lib (rs @ [r])"
    unfolding cname_ok_def
  proof (intro ballI impI)
    fix x
    assume x: "x \<in> set (rs @ [r])" "Rrtype x = TypeCNAME"
    show "filter (beside lib (owner lib x)) (rs @ [r]) = [x]"
    proof (cases "x = r")
      case True
      with x alone show ?thesis by (simp add: beside_def)
    next
      case False
      with x have "x \<in> set rs" by simp
      with x ok have f: "filter (beside lib (owner lib x)) rs = [x]"
        by (simp add: zone_ok_def cname_ok_def)
      have "owner lib r \<noteq> owner lib x"
      proof
        assume same: "owner lib r = owner lib x"
        show False
        proof (cases "Rrtype r = TypeCNAME")
          case True
          with alone same f show False by simp
        next
          case False
          with no_cname same x \<open>x \<in> set rs\<close> show False by simp
        qed
      qed
      with f show ?thesis by (simp add: beside_def)
    qed
  qed
  moreover have "soa_ok lib zone (rs @ [r])" "apex_ns_ok lib zone (rs @ [r])" "names_ok (rs @ [r])"
    using ok new by (auto simp: zone_ok_def zone_parts)
  ultimately show ?thesis using ok id by (simp add: zone_ok_def)
qed

lemma zone_ok_replace_soa:
  assumes ok: "zone_ok lib zone rs" and r: "wire_name (Name r)" "Rrtype r = TypeSOA" "is_soa r" "owner lib r = zone"
  shows "zone_ok lib zone (filter (\<lambda>x. Rrtype x \<noteq> TypeSOA) rs @ [r])"
proof -
  let ?rs = "filter (\<lambda>x. Rrtype x \<noteq> TypeSOA) rs"
  have f: "filter (\<lambda>x. Rrtype x = TypeSOA) ?rs = []" by (simp add: filter_empty_conv)
  have soa: "soa_ok lib zone (?rs @ [r])"
    using ok r f by (auto simp: zone_ok_def soa_ok_def)
  have apex: "owner lib x = zone \<Longrightarrow> x \<in> set rs \<Longrightarrow> Rrtype x \<noteq> TypeCNAME" for x
  proof
    assume x: "owner lib x = zone" "x \<in> set rs" "Rrtype x = TypeCNAME"
    obtain s where s: "s \<in> set rs" "Rrtype s = TypeSOA" "owner lib s = zone"
      using ok soa_exists [of lib zone rs] by (auto simp: zone_ok_def)
    have "filter (beside lib zone) rs = [x]" using ok x by (auto simp: zone_ok_def cname_ok_def)
    moreover have "s \<in> set (filter (beside lib zone) rs)" using s by (simp add: beside_def)
    ultimately show False using s x by simp
  qed
  have "cname_ok lib (?rs @ [r])"
    unfolding cname_ok_def
  proof (intro ballI impI)
    fix x
    assume x: "x \<in> set (?rs @ [r])" "Rrtype x = TypeCNAME"
    then have x': "x \<in> set ?rs" "x \<in> set rs" using r by auto
    then have "filter (beside lib (owner lib x)) ?rs = [x]"
      using cname_ok_filter [of lib rs] ok x(2) unfolding zone_ok_def cname_ok_def by blast
    moreover have "owner lib r \<noteq> owner lib x" using apex [of x] x x' r by auto
    ultimately show "filter (beside lib (owner lib x)) (?rs @ [r]) = [x]" by (simp add: beside_def)
  qed
  moreover have "distinct (map (rr_id lib) (?rs @ [r]))"
    using ok r by (auto simp: zone_ok_def rr_id_def distinct_map_filter)
  moreover have "apex_ns_ok lib zone (?rs @ [r])" "names_ok (?rs @ [r])"
    using ok r by (auto simp: zone_ok_def zone_parts)
  ultimately show ?thesis using soa by (simp add: zone_ok_def)
qed

section \<open>The stages of an update\<close>

lemma zone_ok_applyAdd:
  assumes lib: "dns_lib_ok lib" and ok: "zone_ok lib zone out" and rr: "update_rr_ok rr"
  shows "zone_ok lib zone (fst (applyAdd lib out changed rr (owner lib rr) (owner lib rr = zone)))"
proof (cases "Rrtype rr = TypeSOA")
  case True
  then show ?thesis
    using ok rr zone_ok_replace_soa [OF ok, of rr]
    by (auto simp: applyAdd_def deleteWhere_def update_rr_ok_def is_soa_def split: rdata.splits option.splits)
next
  case False
  have n: "names_ok out" and d: "distinct (map (rr_id lib) out)" using ok by (simp_all add: zone_ok_def)
  have w: "wire_name (Name rr)" "\<not> is_soa rr" using rr False by (auto simp: update_rr_ok_def)
  note facts = hasCNAME_owner [OF lib n] hasNonCNAME_owner [OF lib n] filter_sameName [OF lib n]
  show ?thesis
  proof (cases "indexOfRR lib out rr")
    case (Some i)
    then have "i < length out" by (simp add: indexOfRR_Some)
    with Some False ok show ?thesis by (simp add: applyAdd_def zone_ok_set_ttl)
  next
    case None
    then have id: "rr_id lib rr \<notin> rr_id lib ` set out"
      using n by (auto simp: indexOfRR_None names_ok_def same_rr_id [OF lib])
    show ?thesis
    proof (cases "Rrtype rr = TypeCNAME")
      case cname: True
      let ?kept = "filter (\<lambda>x. \<not> (owner lib x = owner lib rr \<and> Rrtype x = TypeCNAME)) out"
      have kept: "filter (\<lambda>x. sameName lib x (owner lib rr) \<longrightarrow> Rrtype x \<noteq> TypeCNAME) out = ?kept"
        using n by (auto simp: names_ok_def sameName_owner [OF lib] intro!: filter_cong)
      have "zone_ok lib zone (?kept @ [rr])" if no: "\<not> hasNonCNAME lib out (owner lib rr)"
      proof (rule zone_ok_append)
        show "zone_ok lib zone ?kept"
          using ok by (intro zone_ok_filter [OF ok]) (auto simp: zone_ok_def apex_ns_ok_def)
        show "filter (beside lib (owner lib rr)) ?kept = []"
          using no by (auto simp: facts filter_empty_conv beside_def)
      qed (use w id cname in auto)
      then show ?thesis
        using cname None ok by (simp add: applyAdd_def deleteWhere_def kept del: filter_filter)
    next
      case other: False
      have "zone_ok lib zone (out @ [rr])" if "\<not> hasCNAME lib out (owner lib rr)"
        using that by (intro zone_ok_append [OF ok]) (use w id other False in \<open>auto simp: facts\<close>)
      then show ?thesis
        using other False None ok by (simp add: applyAdd_def)
    qed
  qed
qed

lemma zone_ok_delete_at:
  assumes lib: "dns_lib_ok lib" and ok: "zone_ok lib zone out"
    and keep: "\<And>x. canon lib n = zone \<Longrightarrow> Rrtype x = TypeSOA \<or> Rrtype x = TypeNS \<Longrightarrow> \<not> M x"
  shows "zone_ok lib zone (filter (\<lambda>x. \<not> (sameName lib x (canon lib n) \<and> M x)) out)"
proof -
  have n: "\<And>x. x \<in> set out \<Longrightarrow> wire_name (Name x)" using ok by (simp add: zone_ok_def names_ok_def)
  have soa: "\<And>x. x \<in> set out \<Longrightarrow> Rrtype x = TypeSOA \<Longrightarrow> owner lib x = zone"
    using ok by (simp add: zone_ok_def soa_ok_def)
  obtain ns where ns: "ns \<in> set out" "Rrtype ns = TypeNS" "owner lib ns = zone"
    using ok by (auto simp: zone_ok_def apex_ns_ok_def)
  show ?thesis
  proof (rule zone_ok_filter [OF ok])
    fix x
    assume "x \<in> set out" "Rrtype x = TypeSOA"
    then show "\<not> (sameName lib x (canon lib n) \<and> M x)"
      using keep [of x] soa [of x] n [of x] by (auto simp: sameName_owner [OF lib])
  next
    show "\<exists>x\<in>set out. Rrtype x = TypeNS \<and> owner lib x = zone \<and> \<not> (sameName lib x (canon lib n) \<and> M x)"
      using keep [of ns] ns n [of ns] by (auto simp: sameName_owner [OF lib] intro!: bexI [of _ ns])
  qed
qed

lemma zone_ok_applyDeleteRRset:
  assumes lib: "dns_lib_ok lib" and ok: "zone_ok lib zone out"
  shows "zone_ok lib zone (fst (applyDeleteRRset lib out changed rr (owner lib rr) (owner lib rr = zone)))"
proof (cases "Rrtype rr = TypeANY")
  case True
  let ?M = "\<lambda>x. \<not> (owner lib rr = zone \<and> (Rrtype x = TypeSOA \<or> Rrtype x = TypeNS))"
  have "fst (applyDeleteRRset lib out changed rr (owner lib rr) (owner lib rr = zone)) =
      filter (\<lambda>x. \<not> (sameName lib x (owner lib rr) \<and> ?M x)) out"
    unfolding applyDeleteRRset_def deleteWhere_def using True by (auto intro!: filter_cong)
  then show ?thesis using zone_ok_delete_at [OF lib ok, of "Name rr" ?M] by simp
next
  case False
  show ?thesis
  proof (cases "owner lib rr = zone \<and> (Rrtype rr = TypeSOA \<or> Rrtype rr = TypeNS)")
    case True
    with False ok show ?thesis by (auto simp: applyDeleteRRset_def)
  next
    case deleted: False
    then have "zone_ok lib zone (filter (\<lambda>x. \<not> (sameName lib x (owner lib rr) \<and> Rrtype x = Rrtype rr)) out)"
      by (intro zone_ok_delete_at [OF lib ok]) auto
    with False deleted ok show ?thesis by (auto simp: applyDeleteRRset_def deleteWhere_def)
  qed
qed

lemma zone_ok_applyDeleteRecord:
  assumes lib: "dns_lib_ok lib" and ok: "zone_ok lib zone out" and rr: "update_rr_ok rr"
  shows "zone_ok lib zone (fst (applyDeleteRecord lib out changed rr (owner lib rr) (owner lib rr = zone)))"
proof (cases "indexOfRR lib out rr")
  case None
  with ok show ?thesis by (simp add: applyDeleteRecord_def)
next
  case (Some i)
  have n: "names_ok out" and d: "distinct (map (rr_id lib) out)" using ok by (simp_all add: zone_ok_def)
  have i: "i < length out" "rr_id lib (out ! i) = rr_id lib rr"
    using indexOfRR_Some [OF Some] n by (auto simp: names_ok_def same_rr_id [OF lib])
  have rm: "take i out @ drop (Suc i) out = filter (\<lambda>x. rr_id lib x \<noteq> rr_id lib rr) out"
    using remove_nth_by_id [OF d i(1)] i(2) by simp
  show ?thesis
  proof (cases "owner lib rr = zone \<and> (Rrtype rr = TypeSOA \<or> Rrtype rr = TypeNS \<and> countRRset lib out (owner lib rr) TypeNS \<le> 1)")
    case True
    with ok show ?thesis by (auto simp: applyDeleteRecord_def)
  next
    case False
    have "zone_ok lib zone (filter (\<lambda>x. rr_id lib x \<noteq> rr_id lib rr) out)"
    proof (rule zone_ok_filter [OF ok])
      fix x
      assume "x \<in> set out" "Rrtype x = TypeSOA"
      then show "rr_id lib x \<noteq> rr_id lib rr"
        using False ok by (auto simp: zone_ok_def soa_ok_def rr_id_def)
    next
      show "\<exists>x\<in>set out. Rrtype x = TypeNS \<and> owner lib x = zone \<and> rr_id lib x \<noteq> rr_id lib rr"
      proof (cases "owner lib rr = zone \<and> Rrtype rr = TypeNS")
        case True
        let ?ns = "filter (\<lambda>x. owner lib x = zone \<and> Rrtype x = TypeNS) out"
        have two: "2 \<le> length ?ns"
          using False True filter_sameName [OF lib n, of "Name rr" "\<lambda>x. Rrtype x = TypeNS"]
          by (auto simp: countRRset_def)
        have "distinct (map (rr_id lib) ?ns)" using d by (rule distinct_map_filter)
        moreover obtain x y zs where ns: "?ns = x # y # zs"
          using two by (cases ?ns; cases "tl ?ns") auto
        ultimately have "rr_id lib x \<noteq> rr_id lib y" by simp
        moreover have "{x, y} \<subseteq> set ?ns" unfolding ns by simp
        ultimately show ?thesis by (smt (verit) insert_subset mem_Collect_eq set_filter)
      next
        case False
        with ok show ?thesis by (fastforce simp: zone_ok_def apex_ns_ok_def rr_id_def)
      qed
    qed
    with ok Some rm show ?thesis by (simp add: applyDeleteRecord_def)
  qed
qed

lemma zone_ok_apply_one:
  assumes "dns_lib_ok lib" "zone_ok lib zone (fst st)" "update_rr_ok rr"
  shows "zone_ok lib zone (fst (apply_one lib zone rr st))"
  using assms
  by (auto simp: apply_one_def Let_def split: prod.splits
      intro: zone_ok_applyAdd zone_ok_applyDeleteRRset zone_ok_applyDeleteRecord)

lemma zone_ok_apply_updates:
  assumes "dns_lib_ok lib" "zone_ok lib zone rs" "\<forall>u\<in>set us. update_rr_ok u"
  shows "zone_ok lib zone (fst (apply_updates lib zone rs us))"
proof -
  have "zone_ok lib zone (fst st) \<Longrightarrow> zone_ok lib zone (fst (fold (apply_one lib zone) us st))" for st
    using assms(3)
  proof (induction us arbitrary: st)
    case (Cons u us)
    then show ?case using zone_ok_apply_one [OF assms(1) Cons.prems(1), of u] by simp
  qed simp
  with assms(2) show ?thesis by (simp add: apply_updates_def)
qed

lemma zone_ok_updated_rrs:
  assumes "dns_lib_ok lib" "zone_ok lib zone rs" "\<forall>u\<in>set us. update_rr_ok u"
  shows "zone_ok lib zone (updated_rrs lib zone rs us)"
  using zone_ok_apply_updates [OF assms]
  by (auto simp: updated_rrs_def Let_def bumpSerial_zone_ok split: option.splits)

end
