(* ===== verification/Dyn_Properties.thy ===== *)
theory Dyn_Properties
  imports Dyn_Invariant
begin

text \<open>
  The properties of the dynamic-update plugin: the zone stays a zone over every sequence of
  messages, the served view is always the one built from the records, an update that is not
  accepted changes nothing, the serial moves, the type policy holds, and what the prerequisites
  demand.
\<close>

section \<open>Reachable states\<close>

text \<open>The states a plugin can be in after any sequence of messages, updates and queries alike.\<close>

inductive dyn_reach ::
  "dns_lib \<Rightarrow> 'v view_lib \<Rightarrow> ('v \<Rightarrow> msg \<Rightarrow> event list \<times> (int \<times> bool)) \<Rightarrow> 'v dynupdate \<Rightarrow> 'v dynupdate \<Rightarrow> bool"
  for lib vl serve_view d0 where
  start: "dyn_reach lib vl serve_view d0 d0"
| message: "dyn_reach lib vl serve_view d0 d \<Longrightarrow> \<forall>u\<in>set (Ns r). update_rr_ok u \<Longrightarrow>
    dyn_reach lib vl serve_view d0 (fst (dyn_ServeDNS lib vl serve_view d w r))"

inductive_cases dyn_reachE: "dyn_reach lib vl serve_view d0 d"

lemma fst_serveUpdate: "fst (serveUpdate lib vl d w r) = fst (snd (update_verdict lib vl d w r))"
  by (simp add: serveUpdate_def Let_def split: prod.splits)

lemma swap_Some: "swap vl d rs = Some d' \<longleftrightarrow> (\<exists>v. build vl d rs = Some v \<and> d' = d\<lparr>rrs := rs, view := v\<rparr>)"
  by (auto simp: swap_def split: option.splits)

text \<open>The only way the state changes: every guard passed and the view was rebuilt.\<close>

lemma update_verdict_cases:
  assumes "update_verdict lib vl d w r = (rcode, d', zones)"
  obtains (refused) "d' = d" "zones = []"
  | (applied) q v where "Question r = [q]" "canon lib (QName q) = d_Zone d" "tsigVerified lib w r"
      "checkPrereqs lib (d_Zone d) (rrs d) (Answer r) = RcodeSuccess"
      "prescan lib (d_Zone d) (mutable d) (Ns r) = RcodeSuccess"
      "snd (apply_updates lib (d_Zone d) (rrs d) (Ns r))" "rcode = RcodeSuccess"
      "build vl d (updated_rrs lib (d_Zone d) (rrs d) (Ns r)) = Some v"
      "d' = d\<lparr>rrs := updated_rrs lib (d_Zone d) (rrs d) (Ns r), view := v\<rparr>"
proof (cases "d' = d \<and> zones = []")
  case True
  then show thesis by (intro refused) simp_all
next
  case False
  then obtain q where q: "Question r = [q]"
    using assms by (simp add: update_verdict_def split: list.split_asm)
  note step = assms [unfolded update_verdict_def q list.case Let_def]
  have zone: "\<not> (Qtype q \<noteq> TypeSOA \<or> Qclass q \<noteq> ClassINET)" "\<not> canon lib (QName q) \<noteq> d_Zone d"
    using step False by (simp_all split: if_split_asm)
  note step = step [unfolded if_not_P [OF zone(1)] if_not_P [OF zone(2)]]
  have auth: "\<not> \<not> tsigVerified lib w r"
    using step False by (simp split: if_split_asm)
  note step = step [unfolded if_not_P [OF auth]]
  have pre: "\<not> checkPrereqs lib (d_Zone d) (rrs d) (Answer r) \<noteq> RcodeSuccess"
    using step False by (simp split: if_split_asm)
  note step = step [unfolded if_not_P [OF pre]]
  have scan: "\<not> prescan lib (d_Zone d) (mutable d) (Ns r) \<noteq> RcodeSuccess"
    using step False by (simp split: if_split_asm)
  note step = step [unfolded if_not_P [OF scan]]
  have changed: "\<not> \<not> snd (apply_updates lib (d_Zone d) (rrs d) (Ns r))"
    using step False by (simp split: if_split_asm)
  note step = step [unfolded if_not_P [OF changed]]
  show thesis
    using step False q zone auth pre scan changed
    by (auto simp: swap_Some intro: applied split: option.split_asm)
qed

definition view_ok :: "'v view_lib \<Rightarrow> 'v dynupdate \<Rightarrow> bool" where
  "view_ok vl d \<longleftrightarrow> build vl d (rrs d) = Some (view d)"

definition dyn_inv :: "dns_lib \<Rightarrow> 'v view_lib \<Rightarrow> 'v dynupdate \<Rightarrow> bool" where
  "dyn_inv lib vl d \<longleftrightarrow> zone_ok lib (d_Zone d) (rrs d) \<and> view_ok vl d"

lemma dyn_inv_step:
  assumes lib: "dns_lib_ok lib" and inv: "dyn_inv lib vl d" and us: "\<forall>u\<in>set (Ns r). update_rr_ok u"
  shows "dyn_inv lib vl (fst (dyn_ServeDNS lib vl serve_view d w r)) \<and>
    d_Zone (fst (dyn_ServeDNS lib vl serve_view d w r)) = d_Zone d"
proof -
  obtain rcode d' zones where v: "update_verdict lib vl d w r = (rcode, d', zones)" by (cases "update_verdict lib vl d w r")
  from v have "dyn_inv lib vl d' \<and> d_Zone d' = d_Zone d"
  proof (cases rule: update_verdict_cases)
    case refused
    with inv show ?thesis by simp
  next
    case applied
    with inv us show ?thesis
      by (simp add: dyn_inv_def view_ok_def build_def zone_ok_updated_rrs [OF lib])
  qed
  with inv v show ?thesis by (simp add: dyn_ServeDNS_def fst_serveUpdate)
qed

text \<open>
  C1: whatever messages arrive, a plugin that started from a well-formed zone holds a well-formed zone:
  exactly one SOA, at the apex; at least one apex NS; a CNAME alone at its name (but for RRSIG and
  NSEC); no record twice. And the view that answers queries and transfers is the one built from
  exactly those records.
\<close>

theorem reachable_zone_is_well_formed:
  assumes "dns_lib_ok lib" and "zone_ok lib (d_Zone d0) (rrs d0)" and "build vl d0 (rrs d0) = Some (view d0)"
    and "dyn_reach lib vl serve_view d0 d"
  shows "zone_ok lib (d_Zone d0) (rrs d) \<and> build vl d (rrs d) = Some (view d)"
proof -
  from assms(4) have "dyn_inv lib vl d \<and> d_Zone d = d_Zone d0"
  proof (induction rule: dyn_reach.induct)
    case start
    with assms show ?case by (simp add: dyn_inv_def view_ok_def)
  next
    case (message d r w)
    with dyn_inv_step [OF assms(1), of vl d r serve_view w] show ?case by simp
  qed
  then show ?thesis by (auto simp: dyn_inv_def view_ok_def)
qed

text \<open>A concrete plugin, and a signed update that adds a TXT record to its zone.\<close>

definition example_view :: "rr list view_lib" where
  "example_view = \<lparr>NewZone = (\<lambda>_. []), Insert = (\<lambda>v rr. Some (v @ [rr]))\<rparr>"

definition example_rr :: "string \<Rightarrow> u16 \<Rightarrow> rdata \<Rightarrow> rr" where
  "example_rr n t data = \<lparr>Name = n, Rrtype = t, Class = ClassINET, Ttl = 60, Rdlength = 4, Rdata = data\<rparr>"

definition example_soa :: soa_data where
  "example_soa = \<lparr>Ns_name = ''n.'', Mbox = ''m.'', Serial = 7, Refresh = 1, Retry = 1, Expire = 1, Minttl = 1\<rparr>"

definition example_zone :: "rr list" where
  "example_zone =
     [example_rr ''a.'' TypeSOA (SOA example_soa), example_rr ''A.'' TypeNS (Other ''n.''),
      example_rr ''w.a.'' TypeA (Other ''1'')]"

definition example_dyn :: "rr list dynupdate" where
  "example_dyn = \<lparr>Xfer = True, mutable = None, view = example_zone, d_Zone = ''a.'', rrs = example_zone\<rparr>"

definition example_update :: "rr list \<Rightarrow> msg" where
  "example_update us =
     \<lparr>Id = 1, Opcode = OpcodeUpdate, Rcode = 0, Authoritative = False, Truncated = False,
      Question = [\<lparr>QName = ''a.'', Qtype = TypeSOA, Qclass = ClassINET\<rparr>], Answer = [], Ns = us, Extra = [], Opt = None\<rparr>"

definition example_writer :: writer where
  "example_writer = \<lparr>TsigStatus = Some True, write_fails = False\<rparr>"

definition example_challenge :: rr where
  "example_challenge = example_rr ''_acme.a.'' TypeTXT (Other ''t'')"

lemma lower_char_literals [simp]:
  "lower_char CHR ''a'' = CHR ''a''" "lower_char CHR ''A'' = CHR ''a''" "lower_char CHR ''w'' = CHR ''w''"
  "lower_char CHR ''_'' = CHR ''_''" "lower_char CHR ''c'' = CHR ''c''" "lower_char CHR ''m'' = CHR ''m''"
  "lower_char CHR ''e'' = CHR ''e''"
  by code_simp+

lemma example_zone_ok: "zone_ok example_lib ''a.'' example_zone"
  by (simp add: zone_ok_def zone_parts example_zone_def example_rr_def is_soa_def rr_id_def
      canon_example wire_name_def beside_def lower_ascii_def)

lemma example_build: "build example_view d rs = Some rs"
proof -
  have "insert_all example_view v rs = Some (v @ rs)" for v
    by (induction rs arbitrary: v) (simp_all add: example_view_def)
  then show ?thesis by (simp add: build_def) (simp add: example_view_def)
qed

lemma example_challenge_ok: "update_rr_ok example_challenge"
  by (simp add: update_rr_ok_def example_challenge_def example_rr_def wire_name_def is_soa_def)

theorem reachable_zone_is_well_formed_witness:
  "let d = fst (dyn_ServeDNS example_lib example_view (\<lambda>_ _. ([], 0, False)) example_dyn example_writer
     (example_update [example_challenge]))
   in zone_ok example_lib ''a.'' (rrs d) \<and> build example_view d (rrs d) = Some (view d)"
proof -
  have "dyn_reach example_lib example_view (\<lambda>_ _. ([], 0, False)) example_dyn
      (fst (dyn_ServeDNS example_lib example_view (\<lambda>_ _. ([], 0, False)) example_dyn example_writer
        (example_update [example_challenge])))"
    by (rule dyn_reach.message [OF dyn_reach.start]) (simp add: example_update_def example_challenge_ok)
  moreover have "zone_ok example_lib (d_Zone example_dyn) (rrs example_dyn)"
    and "build example_view example_dyn (rrs example_dyn) = Some (view example_dyn)"
    by (simp_all add: example_dyn_def example_zone_ok example_build)
  ultimately have "zone_ok example_lib (d_Zone example_dyn) (rrs d) \<and> build example_view d (rrs d) = Some (view d)"
    if "d = fst (dyn_ServeDNS example_lib example_view (\<lambda>_ _. ([], 0, False)) example_dyn example_writer
        (example_update [example_challenge]))" for d
    using that reachable_zone_is_well_formed [OF example_lib_ok] by blast
  then show ?thesis by (simp add: Let_def example_dyn_def)
qed

section \<open>All or nothing\<close>

lemma prescan_all: "prescan lib z m us = RcodeSuccess \<Longrightarrow> \<forall>u\<in>set us. prescanRecord lib z m u = RcodeSuccess"
  by (induction us) (auto simp: Let_def split: if_splits)

text \<open>
  C2: an update answered with anything but NOERROR leaves records and view as they were and sends no
  NOTIFY (RFC 2136 section 3.7).
\<close>

theorem refused_update_changes_nothing:
  assumes "update_verdict lib vl d w r = (rcode, d', zones)" and "rcode \<noteq> RcodeSuccess"
  shows "serveUpdate lib vl d w r = (d, reply lib w r rcode)"
  using assms(1)
proof (cases rule: update_verdict_cases)
  case refused
  with assms(1) show ?thesis by (simp add: serveUpdate_def)
next
  case applied
  with assms(2) show ?thesis by simp
qed

theorem refused_update_changes_nothing_witness:
  "serveUpdate example_lib example_view example_dyn (example_writer\<lparr>TsigStatus := None\<rparr>) (example_update [example_challenge]) =
     (example_dyn, reply example_lib (example_writer\<lparr>TsigStatus := None\<rparr>) (example_update [example_challenge]) RcodeRefused)"
proof (rule refused_update_changes_nothing)
  show "update_verdict example_lib example_view example_dyn (example_writer\<lparr>TsigStatus := None\<rparr>)
      (example_update [example_challenge]) = (RcodeRefused, example_dyn, [])"
    by (simp add: update_verdict_def example_update_def example_dyn_def example_writer_def tsigVerified_def
        canon_example lower_ascii_def Let_def)
qed simp

text \<open>
  C3: a message can change the plugin's state only if it is an UPDATE for exactly the served zone
  whose TSIG the server verified, all prerequisites hold and the whole update section prescans clean.
\<close>

theorem state_changes_only_when_authorised:
  assumes "fst (dyn_ServeDNS lib vl serve_view d w r) \<noteq> d"
  shows "Opcode r = OpcodeUpdate \<and> IsTsig lib r \<and> TsigStatus w = Some True \<and>
    map (\<lambda>q. canon lib (QName q)) (Question r) = [d_Zone d] \<and>
    checkPrereqs lib (d_Zone d) (rrs d) (Answer r) = RcodeSuccess \<and>
    (\<forall>u\<in>set (Ns r). prescanRecord lib (d_Zone d) (mutable d) u = RcodeSuccess)"
proof -
  obtain rcode d' zones where v: "update_verdict lib vl d w r = (rcode, d', zones)" by (cases "update_verdict lib vl d w r")
  have op: "Opcode r = OpcodeUpdate" and ne: "d' \<noteq> d"
    using assms v by (auto simp: dyn_ServeDNS_def fst_serveUpdate split: if_splits)
  from v show ?thesis
  proof (cases rule: update_verdict_cases)
    case refused
    with ne show ?thesis by simp
  next
    case applied
    with op prescan_all show ?thesis by (auto simp: tsigVerified_def split: if_splits)
  qed
qed

lemma example_update_applies:
  "length (rrs (fst (dyn_ServeDNS example_lib example_view (\<lambda>_ _. ([], 0, False)) example_dyn example_writer
     (example_update [example_challenge])))) = 4"
  by code_simp

theorem state_changes_only_when_authorised_witness:
  "TsigStatus example_writer = Some True \<and> canon example_lib ''a.'' = d_Zone example_dyn \<and>
    prescanRecord example_lib (d_Zone example_dyn) (mutable example_dyn) example_challenge = RcodeSuccess"
proof -
  have "fst (dyn_ServeDNS example_lib example_view (\<lambda>_ _. ([], 0, False)) example_dyn example_writer
      (example_update [example_challenge])) \<noteq> example_dyn"
    using example_update_applies by (auto simp: example_dyn_def example_zone_def)
  from state_changes_only_when_authorised [OF this] show ?thesis
    by (simp add: example_update_def)
qed

section \<open>The serial\<close>

lemma soaOf_filter_soa: "soaOf rs = soaOf (filter is_soa rs)"
  by (induction rs) (auto simp: is_soa_def split: rdata.splits)

lemma soaOf_same: "filter is_soa rs = filter is_soa rs' \<Longrightarrow> soaOf rs = soaOf rs'"
  by (metis soaOf_filter_soa)

lemma soaOf_set_ttl: "i < length rs \<Longrightarrow> soaOf (rs[i := (rs ! i)\<lparr>Ttl := t\<rparr>]) = soaOf rs"
proof (induction rs arbitrary: i)
  case (Cons x xs)
  then show ?case by (cases i) (auto split: rdata.splits)
qed simp

lemma soaOf_filter:
  "\<forall>x\<in>set rs. is_soa x \<longrightarrow> P x \<Longrightarrow> soaOf (filter P rs) = soaOf rs"
  by (induction rs) (auto simp: is_soa_def split: rdata.splits)

lemma soaOf_append: "\<not> is_soa r \<Longrightarrow> soaOf (rs @ [r]) = soaOf rs"
  by (induction rs) (auto simp: is_soa_def split: rdata.splits)

lemma zone_ok_soaOf:
  assumes "zone_ok lib zone rs"
  obtains s where "soaOf rs = Some s"
proof -
  have "\<exists>x\<in>set rs. is_soa x" using assms soa_exists [of lib zone rs] by (auto simp: zone_ok_def)
  then have "soaOf rs \<noteq> None" unfolding soaOf_None is_soa_iff by blast
  with that show thesis by auto
qed

definition adds_soa :: "rr \<Rightarrow> bool" where
  "adds_soa u \<longleftrightarrow> Class u = ClassINET \<and> Rrtype u = TypeSOA"

lemma apply_one_soa_kept:
  assumes lib: "dns_lib_ok lib" and ok: "zone_ok lib zone (fst st)" and u: "update_rr_ok u" "\<not> adds_soa u"
  shows "soaOf (fst (apply_one lib zone u st)) = soaOf (fst st)"
proof -
  obtain out changed where st: "st = (out, changed)" by (cases st)
  have n: "\<And>x. x \<in> set out \<Longrightarrow> wire_name (Name x)"
    and soa: "\<And>x. x \<in> set out \<Longrightarrow> is_soa x \<longleftrightarrow> Rrtype x = TypeSOA"
      "\<And>x. x \<in> set out \<Longrightarrow> Rrtype x = TypeSOA \<Longrightarrow> owner lib x = zone"
    using ok by (simp_all add: st zone_ok_def names_ok_def soa_ok_def)
  consider (add) "Class u = ClassINET" | (rrset) "Class u = ClassANY" | (one) "Class u = ClassNONE"
    | (none) "Class u \<noteq> ClassINET" "Class u \<noteq> ClassANY" "Class u \<noteq> ClassNONE" by blast
  then show ?thesis
  proof cases
    case add
    then have "\<not> is_soa u" "Rrtype u \<noteq> TypeSOA" using u by (auto simp: update_rr_ok_def adds_soa_def)
    then show ?thesis
      by (auto simp: apply_one_def st add Let_def applyAdd_def deleteWhere_def soaOf_append soaOf_filter soa
          soaOf_set_ttl indexOfRR_Some split: option.split)
  next
    case rrset
    then show ?thesis
      by (auto simp: apply_one_def st Let_def applyDeleteRRset_def deleteWhere_def soa n sameName_owner [OF lib]
          intro!: soaOf_filter)
  next
    case one
    have "soaOf (take i out @ drop (Suc i) out) = soaOf out"
      if "indexOfRR lib out u = Some i" "\<not> (owner lib u = zone \<and> Rrtype u = TypeSOA)" for i
    proof -
      have i: "i < length out" "rr_id lib (out ! i) = rr_id lib u"
        using indexOfRR_Some [OF that(1)] n by (auto simp: same_rr_id [OF lib])
      have "distinct (map (rr_id lib) out)" using ok by (simp add: st zone_ok_def)
      then have "take i out @ drop (Suc i) out = filter (\<lambda>x. rr_id lib x \<noteq> rr_id lib u) out"
        using remove_nth_by_id i by fastforce
      moreover have "\<forall>x\<in>set out. is_soa x \<longrightarrow> rr_id lib x \<noteq> rr_id lib u"
        using that(2) soa by (auto simp: rr_id_def)
      ultimately show ?thesis by (simp add: soaOf_filter)
    qed
    with one show ?thesis
      by (auto simp: apply_one_def st Let_def applyDeleteRecord_def split: option.split)
  next
    case none
    then show ?thesis by (simp add: apply_one_def st Let_def)
  qed
qed

lemma apply_one_soa_added:
  assumes "adds_soa u" and cur: "soaOf (fst st) = Some cur"
    and typed: "\<forall>x\<in>set (fst st). is_soa x = (Rrtype x = TypeSOA)"
  shows "\<exists>s. soaOf (fst (apply_one lib zone u st)) = Some s \<and>
    (Serial s = Serial cur \<or> serialGreater (Serial s) (Serial cur))"
proof -
  obtain out changed where st: "st = (out, changed)" by (cases st)
  have "soaOf (filter (\<lambda>x. Rrtype x \<noteq> TypeSOA) out @ [u]) = soaOf [u]"
    using typed by (intro soaOf_append_none) (auto simp: st is_soa_iff)
  with assms show ?thesis
    by (auto simp: apply_one_def st adds_soa_def Let_def applyAdd_def deleteWhere_def split: rdata.splits)
qed

lemma fold_apply_soa_kept:
  assumes lib: "dns_lib_ok lib" and "zone_ok lib zone (fst st)" "\<forall>u\<in>set us. update_rr_ok u" "filter adds_soa us = []"
  shows "soaOf (fst (fold (apply_one lib zone) us st)) = soaOf (fst st) \<and>
    zone_ok lib zone (fst (fold (apply_one lib zone) us st))"
  using assms(2-)
proof (induction us arbitrary: st)
  case (Cons u us)
  then have u: "update_rr_ok u" "\<not> adds_soa u" by (auto split: if_splits)
  show ?case
    using Cons.IH [of "apply_one lib zone u st"] Cons.prems u
      zone_ok_apply_one [OF lib Cons.prems(1) u(1)] apply_one_soa_kept [OF lib Cons.prems(1) u]
    by simp
qed simp

lemma apply_updates_serial:
  assumes lib: "dns_lib_ok lib" and ok: "zone_ok lib zone rs" and us: "\<forall>u\<in>set us. update_rr_ok u"
    and one: "length (filter adds_soa us) \<le> 1" and cur: "soaOf rs = Some cur"
  shows "\<exists>s. soaOf (fst (apply_updates lib zone rs us)) = Some s \<and>
    (Serial s = Serial cur \<or> serialGreater (Serial s) (Serial cur))"
proof (cases "filter adds_soa us = []")
  case True
  then show ?thesis
    using fold_apply_soa_kept [OF lib, of zone "(rs, False)" us] ok us cur by (simp add: apply_updates_def)
next
  case False
  with one obtain u where f: "filter adds_soa us = [u]"
    by (cases "filter adds_soa us") auto
  then obtain us1 us2 where sp: "us = us1 @ u # us2" "adds_soa u" "filter adds_soa us1 = []" "filter adds_soa us2 = []"
    using filter_eq_ConsD [OF f] by (metis filter_False)
  let ?st1 = "fold (apply_one lib zone) us1 (rs, False)"
  have 1: "soaOf (fst ?st1) = Some cur" "zone_ok lib zone (fst ?st1)"
    using fold_apply_soa_kept [OF lib, of zone "(rs, False)" us1] ok us cur sp by simp_all
  have u: "update_rr_ok u" using us sp by simp
  obtain s where s: "soaOf (fst (apply_one lib zone u ?st1)) = Some s"
      "Serial s = Serial cur \<or> serialGreater (Serial s) (Serial cur)"
    using apply_one_soa_added [OF sp(2) 1(1), of lib zone] 1(2) by (auto simp: zone_ok_def soa_ok_def)
  have "soaOf (fst (fold (apply_one lib zone) us2 (apply_one lib zone u ?st1))) = Some s"
    using fold_apply_soa_kept [OF lib zone_ok_apply_one [OF lib 1(2) u], of us2] us sp s(1) by simp
  with s(2) sp(1) show ?thesis by (simp add: apply_updates_def)
qed

text \<open>
  C4: an update that changed the zone has changed its serial. If its update section carries at most
  one SOA, the serial moved forward in the sense of RFC 1982, so a secondary will transfer; with
  several SOA records it need not have (\<open>several_soas_wind_the_serial_back\<close>).
\<close>

theorem applied_update_moves_serial:
  assumes lib: "dns_lib_ok lib" and ok: "zone_ok lib (d_Zone d) (rrs d)" and us: "\<forall>u\<in>set (Ns r). update_rr_ok u"
    and "fst (serveUpdate lib vl d w r) \<noteq> d"
  shows "\<exists>s s'. soaOf (rrs d) = Some s \<and> soaOf (rrs (fst (serveUpdate lib vl d w r))) = Some s' \<and> Serial s' \<noteq> Serial s \<and>
    (length (filter adds_soa (Ns r)) \<le> 1 \<longrightarrow> serialGreater (Serial s') (Serial s))"
proof -
  obtain rcode d' zones where v: "update_verdict lib vl d w r = (rcode, d', zones)" by (cases "update_verdict lib vl d w r")
  have d': "d' = fst (serveUpdate lib vl d w r)" by (simp add: fst_serveUpdate v)
  let ?up = "fst (apply_updates lib (d_Zone d) (rrs d) (Ns r))"
  obtain s t where s: "soaOf (rrs d) = Some s" and t: "soaOf ?up = Some t"
    using zone_ok_soaOf [OF ok] zone_ok_soaOf [OF zone_ok_apply_updates [OF lib ok us]] by metis
  have fwd: "Serial t \<noteq> Serial s \<Longrightarrow> length (filter adds_soa (Ns r)) \<le> 1 \<Longrightarrow> serialGreater (Serial t) (Serial s)"
    using apply_updates_serial [OF lib ok us _ s] t by auto
  from v have rs: "rrs d' = updated_rrs lib (d_Zone d) (rrs d) (Ns r)"
  proof (cases rule: update_verdict_cases)
    case refused
    with assms(4) d' show ?thesis by simp
  next
    case applied
    show ?thesis unfolding applied(9) by simp
  qed
  show ?thesis
  proof (cases "Serial t = Serial s")
    case True
    then have "soaOf (rrs d') = Some (t\<lparr>Serial := next_serial (Serial t)\<rparr>)"
      using s t by (simp add: rs updated_rrs_def soaOf_bumpSerial)
    moreover have "serialGreater (next_serial (Serial s)) (Serial s)" by (rule next_serial_greater)
    ultimately show ?thesis using s True d' by (auto simp: serialGreater_def)
  next
    case False
    then have "soaOf (rrs d') = Some t" using s t by (simp add: rs updated_rrs_def)
    with False fwd s d' show ?thesis by auto
  qed
qed

lemma example_update_moves:
  "fst (serveUpdate example_lib example_view example_dyn example_writer (example_update [example_challenge])) \<noteq> example_dyn"
proof -
  have "length (rrs (fst (serveUpdate example_lib example_view example_dyn example_writer
    (example_update [example_challenge])))) = 4" by code_simp
  then show ?thesis by (auto simp: example_dyn_def example_zone_def)
qed

theorem applied_update_moves_serial_witness:
  "\<exists>s s'. soaOf (rrs example_dyn) = Some s \<and>
     soaOf (rrs (fst (serveUpdate example_lib example_view example_dyn example_writer (example_update [example_challenge])))) = Some s' \<and>
     serialGreater (Serial s') (Serial s)"
proof -
  have "zone_ok example_lib (d_Zone example_dyn) (rrs example_dyn)"
    by (simp add: example_dyn_def example_zone_ok)
  moreover have "\<forall>u\<in>set (Ns (example_update [example_challenge])). update_rr_ok u"
    and one: "length (filter adds_soa (Ns (example_update [example_challenge]))) \<le> 1"
    by (simp_all add: example_update_def example_challenge_ok)
  ultimately show ?thesis
    using applied_update_moves_serial [OF example_lib_ok _ _ example_update_moves] one by blast
qed

text \<open>
  Each SOA of an update section is compared with the one before it, not with the zone's: two of them,
  each half the number space ahead, bring the serial from 7 to 5.
\<close>

definition soa_with :: "u32 \<Rightarrow> rr" where
  "soa_with n = example_rr ''a.'' TypeSOA (SOA (example_soa\<lparr>Serial := n\<rparr>))"

lemma several_soas_wind_the_serial_back:
  "let d' = fst (serveUpdate example_lib example_view example_dyn example_writer
       (example_update [soa_with (7 + 2147483647), soa_with 5])) in
   map_option Serial (soaOf (rrs example_dyn)) = Some 7 \<and> map_option Serial (soaOf (rrs d')) = Some 5 \<and>
   serialGreater 7 5"
  by code_simp

section \<open>The type policy\<close>

lemma filter_update_irrelevant: "i < length xs \<Longrightarrow> \<not> Q (xs ! i) \<Longrightarrow> \<not> Q y \<Longrightarrow> filter Q (xs[i := y]) = filter Q xs"
proof (induction xs arbitrary: i)
  case (Cons x xs)
  then show ?case by (cases i) auto
qed simp

lemma filter_remove_irrelevant: "i < length xs \<Longrightarrow> \<not> Q (xs ! i) \<Longrightarrow> filter Q (take i xs @ drop (Suc i) xs) = filter Q xs"
  using take_drop_Suc_remove [of i xs Q] by simp

lemma filter_filter_irrelevant: "\<forall>x\<in>set xs. Q x \<longrightarrow> P x \<Longrightarrow> filter Q (filter P xs) = filter Q xs"
  by (induction xs) auto

lemma apply_one_policy:
  assumes "prescanRecord lib zone (Some allowed) u = RcodeSuccess"
  shows "filter (\<lambda>x. \<not> allowed (Rrtype x)) (fst (apply_one lib zone u st)) = filter (\<lambda>x. \<not> allowed (Rrtype x)) (fst st)"
proof -
  let ?Q = "\<lambda>x. \<not> allowed (Rrtype x)"
  obtain out changed where st: "st = (out, changed)" by (cases st)
  have ok: "allowed (Rrtype u)" and cls: "Class u = ClassANY \<Longrightarrow> Rrtype u \<noteq> TypeANY"
    using assms by (auto simp: prescanRecord_def Let_def split: if_splits)
  have i: "i < length out \<and> allowed (Rrtype (out ! i))" if "indexOfRR lib out u = Some i" for i
    using indexOfRR_Some [OF that] ok by (simp add: same_rr_def)
  have add: "filter ?Q (fst (applyAdd lib out changed u n apex)) = filter ?Q out" for n apex
    unfolding applyAdd_def deleteWhere_def Let_def
    using ok i by (auto simp: filter_update_irrelevant simp del: filter_filter
        intro!: filter_filter_irrelevant split: rdata.split option.split)
  have rrset: "filter ?Q (fst (applyDeleteRRset lib out changed u n apex)) = filter ?Q out" if "Rrtype u \<noteq> TypeANY" for n apex
    unfolding applyDeleteRRset_def deleteWhere_def
    using ok that by (auto simp del: filter_filter intro!: filter_filter_irrelevant)
  have one: "filter ?Q (fst (applyDeleteRecord lib out changed u n apex)) = filter ?Q out" for n apex
    unfolding applyDeleteRecord_def
    using i by (auto simp: filter_remove_irrelevant simp del: filter_append split: option.split)
  show ?thesis using add rrset one cls by (simp add: apply_one_def st Let_def)
qed

text \<open>The same record, but that the serial of an SOA may have been advanced by one, zero left out.\<close>

definition serial_advanced :: "rr \<Rightarrow> rr \<Rightarrow> bool" where
  "serial_advanced x y \<longleftrightarrow>
     y = x \<or> (\<exists>s n. Rdata x = SOA s \<and> y = x\<lparr>Rdata := SOA (s\<lparr>Serial := n\<rparr>)\<rparr> \<and> (n = Serial s + 1 \<and> n \<noteq> 0 \<or> Serial s + 1 = 0 \<and> n = 1))"

lemma bumpSerial_policy: "list_all2 serial_advanced (filter (\<lambda>x. Q (Rrtype x)) rs) (filter (\<lambda>x. Q (Rrtype x)) (bumpSerial rs))"
proof (induction rs)
  case (Cons r rs)
  have "list_all2 serial_advanced xs xs" for xs by (simp add: list_all2_same serial_advanced_def)
  moreover have "serial_advanced r (r\<lparr>Rdata := SOA (s\<lparr>Serial := next_serial (Serial s)\<rparr>)\<rparr>)" if "Rdata r = SOA s" for s
    unfolding serial_advanced_def using that
    by (intro disjI2 exI [of _ s] exI [of _ "next_serial (Serial s)"]) (simp add: next_serial_def)
  ultimately show ?case using Cons by (auto simp: serial_advanced_def [of r r] split: rdata.split)
qed simp

text \<open>
  C5: under a \<open>mutable\<close> allowlist, no message adds, deletes or alters a record of a type outside the
  list: those records are the same, in the same order, before and after, except that the serial of the
  SOA may have been advanced by the automatic increment, and nothing else of it.
\<close>

theorem mutable_policy_protects_other_types:
  assumes "mutable d = Some allowed"
  shows "list_all2 serial_advanced (filter (\<lambda>x. \<not> allowed (Rrtype x)) (rrs d))
    (filter (\<lambda>x. \<not> allowed (Rrtype x)) (rrs (fst (dyn_ServeDNS lib vl serve_view d w r))))"
proof -
  let ?Q = "\<lambda>x. \<not> allowed (Rrtype x)"
  have same: "list_all2 serial_advanced xs xs" for xs by (simp add: list_all2_same serial_advanced_def)
  obtain rcode d' zones where v: "update_verdict lib vl d w r = (rcode, d', zones)" by (cases "update_verdict lib vl d w r")
  from v have "list_all2 serial_advanced (filter ?Q (rrs d)) (filter ?Q (rrs d'))"
  proof (cases rule: update_verdict_cases)
    case refused
    then show ?thesis by (simp add: same)
  next
    case applied
    have scan: "\<forall>u\<in>set (Ns r). prescanRecord lib (d_Zone d) (Some allowed) u = RcodeSuccess"
      using prescan_all applied(5) assms by fastforce
    have "filter ?Q (fst (fold (apply_one lib (d_Zone d)) vs st)) = filter ?Q (fst st)"
      if "\<forall>u\<in>set vs. prescanRecord lib (d_Zone d) (Some allowed) u = RcodeSuccess" for vs st
      using that by (induction vs arbitrary: st) (auto simp: apply_one_policy)
    with scan have up: "filter ?Q (fst (apply_updates lib (d_Zone d) (rrs d) (Ns r))) = filter ?Q (rrs d)"
      by (simp add: apply_updates_def)
    show ?thesis
      using bumpSerial_policy [of "\<lambda>t. \<not> allowed t" "fst (apply_updates lib (d_Zone d) (rrs d) (Ns r))"]
      by (auto simp: applied(9) updated_rrs_def Let_def up same split: option.splits)
  qed
  then show ?thesis by (simp add: dyn_ServeDNS_def fst_serveUpdate v same)
qed

theorem mutable_policy_protects_other_types_witness:
  "let d = example_dyn\<lparr>mutable := Some (\<lambda>t. t = TypeTXT)\<rparr>;
       d' = fst (dyn_ServeDNS example_lib example_view (\<lambda>_ _. ([], 0, False)) d example_writer (example_update [example_challenge])) in
   length (rrs d') = 4 \<and>
   list_all2 serial_advanced (filter (\<lambda>x. Rrtype x \<noteq> TypeTXT) (rrs d)) (filter (\<lambda>x. Rrtype x \<noteq> TypeTXT) (rrs d'))"
proof -
  let ?d = "example_dyn\<lparr>mutable := Some (\<lambda>t. t = TypeTXT)\<rparr>"
  have "length (rrs (fst (dyn_ServeDNS example_lib example_view (\<lambda>_ _. ([], 0, False)) ?d example_writer
      (example_update [example_challenge])))) = 4" by code_simp
  with mutable_policy_protects_other_types [of ?d "\<lambda>t. t = TypeTXT"] show ?thesis by (simp add: Let_def)
qed

section \<open>Prerequisites\<close>

lemma map_append_map_of:
  "map_of (map_append k x m) = (map_of m)(k \<mapsto> (case map_of m k of None \<Rightarrow> [] | Some xs \<Rightarrow> xs) @ [x])"
  by (induction m) (auto simp: fun_eq_iff)

lemma map_append_keys: "fst ` set (map_append k x m) = insert k (fst ` set m)"
  by (induction k x m rule: map_append.induct) (simp_all add: insert_commute insert_absorb)

lemma map_append_distinct: "distinct (map fst m) \<Longrightarrow> distinct (map fst (map_append k x m))"
  by (induction k x m rule: map_append.induct) (auto simp: map_append_keys)

lemma group_by_key:
  "distinct (map fst (fold (\<lambda>x. map_append (key x) x) xs [])) \<and>
   (\<forall>k. map_of (fold (\<lambda>x. map_append (key x) x) xs []) k =
     (if k \<in> key ` set xs then Some (filter (\<lambda>x. key x = k) xs) else None))"
proof (induction xs rule: rev_induct)
  case (snoc x xs)
  then show ?case by (auto simp: map_append_map_of map_append_distinct filter_empty_conv image_iff)
qed simp

lemma group_by_key_iff:
  "(k, g) \<in> set (fold (\<lambda>x. map_append (key x) x) xs []) \<longleftrightarrow>
     k \<in> key ` set xs \<and> g = filter (\<lambda>x. key x = k) xs"
  using group_by_key [of key xs] by (auto simp: map_of_eq_Some_iff [symmetric])

text \<open>What one prerequisite record demands on its own (RFC 2136 sections 2.4.1 and 2.4.3 to 2.4.5).\<close>

definition prereq_holds :: "dns_lib \<Rightarrow> string \<Rightarrow> rr list \<Rightarrow> rr \<Rightarrow> bool" where
  "prereq_holds lib zone zrrs p \<longleftrightarrow>
     Ttl p = 0 \<and> inZone lib zone (Name p) \<and>
     (Class p = ClassINET \<or>
      Class p \<in> {ClassANY, ClassNONE} \<and> Rdlength p = 0 \<and>
      (Class p = ClassANY \<longleftrightarrow>
        (\<exists>x\<in>set zrrs. owner lib x = owner lib p \<and> (Rrtype p = TypeANY \<or> Rrtype x = Rrtype p))))"

lemma nameInUse_owner:
  "dns_lib_ok lib \<Longrightarrow> names_ok rs \<Longrightarrow> nameInUse lib rs n \<longleftrightarrow> (\<exists>x\<in>set rs. owner lib x = canon lib n)"
  by (auto simp: nameInUse_def list_ex_iff names_ok_def sameName_owner)

lemma rrsetExists_owner:
  "dns_lib_ok lib \<Longrightarrow> names_ok rs \<Longrightarrow>
     rrsetExists lib rs n t \<longleftrightarrow> (\<exists>x\<in>set rs. owner lib x = canon lib n \<and> Rrtype x = t)"
  by (auto simp: rrsetExists_def rrsetOf_def Let_def filter_sameName filter_empty_conv)

abbreviation inet :: "rr \<Rightarrow> bool" where "inet p \<equiv> Class p = ClassINET"

lemma collect_prereqs_Inr:
  assumes "dns_lib_ok lib" "names_ok zrrs"
  shows "collect_prereqs lib zone zrrs vd ps = Inr vd' \<longleftrightarrow>
    (\<forall>p\<in>set ps. prereq_holds lib zone zrrs p) \<and>
    vd' = fold (\<lambda>p. map_append (keyOf lib (Name p) (Rrtype p)) p) (filter inet ps) vd"
proof (induction ps arbitrary: vd)
  case (Cons p ps)
  note facts = nameInUse_owner [OF assms] rrsetExists_owner [OF assms]
  consider "Class p = ClassANY" | "Class p = ClassNONE" | "inet p"
    | "Class p \<noteq> ClassANY" "Class p \<noteq> ClassNONE" "\<not> inet p" by blast
  then show ?case
    by cases (auto simp: Cons.IH prereq_holds_def checkPrereqExists_def checkPrereqAbsent_def facts)
qed auto

text \<open>What the code decides: equality of multisets, so the records given for one owner and type are counted.\<close>

lemma checkPrereqs_multisets:
  assumes lib: "dns_lib_ok lib" and n: "names_ok zrrs" "names_ok ps"
  shows "checkPrereqs lib zone zrrs ps = RcodeSuccess \<longleftrightarrow>
    (\<forall>p\<in>set ps. prereq_holds lib zone zrrs p) \<and>
    (\<forall>p\<in>set ps. Class p = ClassINET \<longrightarrow>
      image_mset (rdataKey lib) {#x \<in># mset zrrs. owner lib x = owner lib p \<and> Rrtype x = Rrtype p#} =
      image_mset (rdataKey lib)
        {#x \<in># mset ps. Class x = ClassINET \<and> owner lib x = owner lib p \<and> Rrtype x = Rrtype p#})"
proof (cases "\<forall>p\<in>set ps. prereq_holds lib zone zrrs p")
  case False
  then obtain rc where rc: "collect_prereqs lib zone zrrs [] ps = Inl rc"
    using collect_prereqs_Inr [OF lib n(1)] by (cases "collect_prereqs lib zone zrrs [] ps") auto
  have "collect_prereqs lib zone zrrs vd qs = Inl rc \<Longrightarrow> rc \<noteq> RcodeSuccess" for vd qs
    by (induction qs arbitrary: vd)
      (auto simp: checkPrereqExists_def checkPrereqAbsent_def split: if_splits option.splits)
  with rc False show ?thesis by (auto simp: checkPrereqs_def)
next
  case True
  let ?key = "\<lambda>p. keyOf lib (Name p) (Rrtype p)" and ?ps = "filter inet ps"
  have idem: "canon lib (owner lib p) = owner lib p" if "p \<in> set ps" for p
    using lib n(2) that by (simp add: dns_lib_ok_def names_ok_def)
  have rrset: "rrsetOf lib zrrs (owner lib p) (Rrtype p) =
      filter (\<lambda>x. owner lib x = owner lib p \<and> Rrtype x = Rrtype p) zrrs" if "p \<in> set ps" for p
    using filter_sameName [OF lib n(1), of "owner lib p"] idem [OF that] by (simp add: rrsetOf_def)
  have "checkPrereqs lib zone zrrs ps = RcodeSuccess \<longleftrightarrow>
      (\<forall>p\<in>set ?ps. sameRRset lib (rrsetOf lib zrrs (owner lib p) (Rrtype p)) (filter (\<lambda>x. ?key x = ?key p) ?ps))"
  proof -
    have "collect_prereqs lib zone zrrs [] ps = Inr (fold (\<lambda>p. map_append (?key p) p) ?ps [])"
      using True by (simp only: collect_prereqs_Inr [OF lib n(1)] simp_thms)
    then have "checkPrereqs lib zone zrrs ps = RcodeSuccess \<longleftrightarrow>
        (\<forall>k g. (k, g) \<in> set (fold (\<lambda>p. map_append (?key p) p) ?ps []) \<longrightarrow>
          sameRRset lib (rrsetOf lib zrrs (fst k) (snd k)) g)"
      by (auto simp: checkPrereqs_def list_all_iff split: if_splits)
    then show ?thesis unfolding group_by_key_iff by (auto simp: keyOf_def)
  qed
  moreover have "filter (\<lambda>x. ?key x = ?key p) ?ps =
      filter (\<lambda>x. inet x \<and> owner lib x = owner lib p \<and> Rrtype x = Rrtype p) ps" for p
    by (auto simp: keyOf_def intro!: filter_cong)
  ultimately show ?thesis
    using True by (simp add: rrset sameRRset_is_multiset_equality keyOf_def Ball_def cong: imp_cong) blast
qed

lemma mset_eq_iff_set_eq_distinct:
  "distinct xs \<Longrightarrow> mset xs = mset ys \<longleftrightarrow> set xs = set ys \<and> distinct ys"
  by (metis mset_eq_setD mset_eq_imp_distinct_iff set_eq_iff_mset_eq_distinct)

lemma distinct_map_filter_same:
  assumes "distinct (map f xs)" and "\<And>x y. x \<in> set xs \<Longrightarrow> y \<in> set xs \<Longrightarrow> P x \<Longrightarrow> P y \<Longrightarrow> g x = g y \<Longrightarrow> f x = f y"
  shows "distinct (map g (filter P xs))"
  using assms by (auto simp: distinct_map inj_on_def)


definition example_prereq :: rr where
  "example_prereq = (example_rr ''W.a.'' TypeA (Other ''1''))\<lparr>Ttl := 0\<rparr>"

lemma example_prereq_accepted: "checkPrereqs example_lib ''a.'' example_zone [example_prereq] = RcodeSuccess"
  by code_simp


end
