(* ===== verification/Dyn_Setup.thy ===== *)
theory Dyn_Setup
  imports Dyn_Properties
begin

text \<open>
  \<open>dynupdate/setup.go\<close>: the Corefile block. A directive is its arguments and its block lines as
  Caddy's dispenser delivers them. Parameters: \<open>hostExact\<close> is CoreDNS's \<open>Host.NormalizeExact\<close>,
  \<open>typeCode\<close> the DNS library's \<open>StringToType\<close> after \<open>strings.ToUpper\<close>, \<open>readZone\<close> the file access and
  zone parser behind \<open>readZone\<close>.
\<close>

datatype dyn_setup_error =
  DynArgErr | NoZone | TooManyZones | UnknownDynProperty string | UnknownType string | NoSeed | ReadError | NoSOA

record dyn_directive =
  dargs :: "string list"
  dlines :: "(string \<times> string list) list"

definition parseOrigin ::
  "dns_lib \<Rightarrow> (string \<Rightarrow> string) \<Rightarrow> string list \<Rightarrow> string list \<Rightarrow> dyn_setup_error + string" where
  "parseOrigin lib hostExact serverBlockKeys args =
     (case args of
        [] \<Rightarrow> (case serverBlockKeys of [] \<Rightarrow> Inl NoZone | k # _ \<Rightarrow> Inr (canon lib (hostExact k)))
      | [a] \<Rightarrow> Inr (canon lib (hostExact a))
      | _ \<Rightarrow> Inl TooManyZones)"

fun parseMutable_types ::
  "(string \<Rightarrow> u16 option) \<Rightarrow> string list \<Rightarrow> (u16 \<Rightarrow> bool) \<Rightarrow> dyn_setup_error + (u16 \<Rightarrow> bool)" where
  "parseMutable_types typeCode [] allowed = Inr allowed"
| "parseMutable_types typeCode (t # types) allowed =
     (case typeCode t of
        None \<Rightarrow> Inl (UnknownType t)
      | Some code \<Rightarrow> parseMutable_types typeCode types (allowed(code := True)))"

definition parseMutable :: "(string \<Rightarrow> u16 option) \<Rightarrow> string list \<Rightarrow> dyn_setup_error + (u16 \<Rightarrow> bool)" where
  "parseMutable typeCode types =
     (if types = [] then Inl DynArgErr else parseMutable_types typeCode types (\<lambda>_. False))"

text \<open>
  The state of the block loop: the seed path so far and the type policy so far. \<open>file\<close> takes one
  argument; a further token on its line is read as the next property.
\<close>

fun parseBlock ::
  "(string \<Rightarrow> u16 option) \<Rightarrow> (string \<times> string list) list \<Rightarrow> string \<times> (u16 \<Rightarrow> bool) option \<Rightarrow>
     dyn_setup_error + string \<times> (u16 \<Rightarrow> bool) option" where
  "parseBlock typeCode [] st = Inr st"
| "parseBlock typeCode ((name, args) # rest) (seed, allowed) =
     (if name = ''file'' then
        (case args of
           [] \<Rightarrow> Inl DynArgErr
         | [a] \<Rightarrow> parseBlock typeCode rest (a, allowed)
         | a # x # xs \<Rightarrow> parseBlock typeCode ((x, xs) # rest) (a, allowed))
      else if name = ''mutable'' then
        (case parseMutable typeCode args of
           Inl e \<Rightarrow> Inl e
         | Inr ok \<Rightarrow> parseBlock typeCode rest (seed, Some ok))
      else Inl (UnknownDynProperty name))"

text \<open>
  \<open>readZone\<close>: \<open>zone_file\<close> is the parsed zone of CoreDNS's \<open>file.Parse\<close>, in its parts; \<open>openParse dir name\<close>
  opens the file below its directory and parses it.
\<close>

record zone_file =
  zf_SOA :: "rr option"
  zf_NS :: "rr list"
  zf_SIGSOA :: "rr list"
  zf_SIGNS :: "rr list"
  zf_All :: "rr list list"

definition readZone ::
  "(string \<Rightarrow> string \<Rightarrow> string \<Rightarrow> zone_file option) \<Rightarrow> string \<Rightarrow> string \<Rightarrow> rr list option" where
  "readZone openParse path origin =
     (let (dir, name) = split_path path in
      if name = [] then None
      else
        (case openParse (if dir = [] then ''.'' else dir) name origin of
           None \<Rightarrow> None
         | Some z \<Rightarrow>
           Some ((case zf_SOA z of None \<Rightarrow> [] | Some s \<Rightarrow> [s]) @ zf_NS z @ zf_SIGSOA z @ zf_SIGNS z @ concat (zf_All z))))"

definition dyn_parse ::
  "dns_lib \<Rightarrow> (string \<Rightarrow> string) \<Rightarrow> (string \<Rightarrow> u16 option) \<Rightarrow> (string \<Rightarrow> string \<Rightarrow> string \<Rightarrow> zone_file option) \<Rightarrow> 'v \<Rightarrow>
     string list \<Rightarrow> dyn_directive list \<Rightarrow> dyn_setup_error + 'v dynupdate" where
  "dyn_parse lib hostExact typeCode openParse nil_view serverBlockKeys directives =
     (case directives of
        [] \<Rightarrow> Inl DynArgErr
      | dir # _ \<Rightarrow>
        (case parseOrigin lib hostExact serverBlockKeys (dargs dir) of
           Inl e \<Rightarrow> Inl e
         | Inr origin \<Rightarrow>
           (case parseBlock typeCode (dlines dir) ([], None) of
              Inl e \<Rightarrow> Inl e
            | Inr (seed, allowed) \<Rightarrow>
              if seed = [] then Inl NoSeed
              else
                (case readZone openParse seed origin of
                   None \<Rightarrow> Inl ReadError
                 | Some rs \<Rightarrow>
                   if soaOf rs = None then Inl NoSOA
                   else Inr \<lparr>Xfer = False, mutable = allowed, view = nil_view, d_Zone = origin, rrs = rs\<rparr>))))"

text \<open>\<open>setup\<close>: the callback that builds the first view, and the start-up hook that finds \<open>transfer\<close>.\<close>

definition dyn_attach :: "'v view_lib \<Rightarrow> 'v dynupdate \<Rightarrow> 'v dynupdate" where
  "dyn_attach vl d = (case swap vl d (rrs d) of None \<Rightarrow> d | Some d' \<Rightarrow> d')"

definition dyn_startup :: "bool \<Rightarrow> 'v dynupdate \<Rightarrow> 'v dynupdate" where
  "dyn_startup transferConfigured d = (if transferConfigured then d\<lparr>Xfer := True\<rparr> else d)"

section \<open>What an accepted Corefile gives\<close>

lemma parseMutable_types_Inr:
  "parseMutable_types typeCode types allowed = Inr ok \<Longrightarrow>
     ok = (\<lambda>c. allowed c \<or> (\<exists>t\<in>set types. typeCode t = Some c))"
  by (induction types arbitrary: allowed) (auto simp: fun_eq_iff split: option.splits)

definition policy_of :: "(string \<Rightarrow> u16 option) \<Rightarrow> (u16 \<Rightarrow> bool) \<Rightarrow> bool" where
  "policy_of typeCode ok \<longleftrightarrow> (\<exists>types. types \<noteq> [] \<and> ok = (\<lambda>c. \<exists>t\<in>set types. typeCode t = Some c))"

lemma parseMutable_Inr: "parseMutable typeCode types = Inr ok \<Longrightarrow> policy_of typeCode ok"
  by (auto simp: parseMutable_def policy_of_def dest!: parseMutable_types_Inr split: if_splits)

lemma parseBlock_policy:
  "parseBlock typeCode ls st = Inr (seed, Some ok) \<Longrightarrow>
     (\<forall>f. snd st = Some f \<longrightarrow> policy_of typeCode f) \<Longrightarrow> policy_of typeCode ok"
proof (induction typeCode ls st rule: parseBlock.induct)
  case (2 typeCode name args rest seed allowed)
  show ?case
  proof (cases "name = ''file''")
    case seeded: True
    show ?thesis
    proof (cases args)
      case (Cons a extra)
      then show ?thesis using "2.IH"(1,2) "2.prems" seeded by (cases extra) simp_all
    qed (use "2.prems" seeded in simp)
  next
    case other: False
    show ?thesis
    proof (cases "parseMutable typeCode args")
      case (Inr f)
      then show ?thesis
        using "2.IH"(3) [OF other _ Inr] "2.prems"(1) other parseMutable_Inr by (simp split: if_split_asm)
    qed (use "2.prems" other in \<open>simp split: if_split_asm\<close>)
  qed
qed simp

text \<open>
  A plugin set up from an accepted Corefile has an SOA to advance, and a type policy, if any, that
  allows exactly the types one \<open>mutable\<close> line names.
\<close>

lemma dyn_parse_Inr:
  assumes "dyn_parse lib hostExact typeCode openParse nil_view keys directives = Inr d"
  shows "soaOf (rrs d) \<noteq> None \<and> (\<forall>ok. mutable d = Some ok \<longrightarrow> policy_of typeCode ok)"
  using assms parseBlock_policy [of typeCode _ "([], None)"]
  by (auto simp: dyn_parse_def split: list.splits sum.splits if_splits option.splits)

text \<open>Once attached, a plugin whose seed zone the view accepts serves that zone.\<close>

lemma dyn_attach_view_ok: "build vl d (rrs d) \<noteq> None \<Longrightarrow> view_ok vl (dyn_startup transfer (dyn_attach vl d))"
  by (auto simp: view_ok_def dyn_startup_def dyn_attach_def swap_def build_def)

end
