(* ===== verification/Ra_Schedule.thy ===== *)
theory Ra_Schedule
  imports Go_Net
begin

text \<open>
  The timing of \<open>radnr/internal/advertiser/advertiser.go\<close>: the interval timer, solicited and periodic
  advertisements and the rate limit. Times are integers (nanoseconds). Every \<open>time.Now()\<close> of a handler
  is a separate reading, so a step carries a nondecreasing list of readings; the timer may fire at
  any moment, on time or not, which covers a stale firing after a reset.
\<close>

section \<open>Parameters and state\<close>

record ra_params =
  minDelayBetweenRAs :: int
  maxRADelay :: int
  Interval :: int

record raSchedule =
  now :: int
  next_at :: int
  lastSent :: int
  sent :: "int list"

text \<open>\<open>rand.Int63n(n)\<close> is a parameter \<open>r\<close> with \<open>0 \<le> r < n\<close>.\<close>

definition raDelay :: "ra_params \<Rightarrow> int \<Rightarrow> int" where
  "raDelay p r = (if maxRADelay p \<le> 0 then 0 else r)"

definition nextInterval :: "ra_params \<Rightarrow> int \<Rightarrow> int" where
  "nextInterval p r =
     (let maxInterval = Interval p; minInterval = max (maxInterval div 3) (minDelayBetweenRAs p) in
      if maxInterval \<le> minInterval then maxInterval else minInterval + r)"

section \<open>Handlers\<close>

definition held :: "ra_params \<Rightarrow> raSchedule \<Rightarrow> int \<Rightarrow> int \<times> bool" where
  "held p s t = (let earliest = lastSent s + minDelayBetweenRAs p in (earliest, t < earliest))"

text \<open>\<open>send\<close> records its reading of the clock as the time of the last advertisement.\<close>

definition send :: "int \<Rightarrow> raSchedule \<Rightarrow> raSchedule" where
  "send t s = s\<lparr>lastSent := t, sent := t # sent s\<rparr>"

definition onTimer :: "ra_params \<Rightarrow> int \<Rightarrow> int \<Rightarrow> int \<Rightarrow> int \<Rightarrow> raSchedule \<Rightarrow> raSchedule" where
  "onTimer p interval t1 t2 t3 s =
     (let (earliest, is_held) = held p s t1 in
      if is_held then s\<lparr>next_at := earliest, now := t1\<rparr>
      else (send t2 s)\<lparr>next_at := t3 + interval, now := t3\<rparr>)"

definition onSolicitation :: "ra_params \<Rightarrow> int \<Rightarrow> int \<Rightarrow> int \<Rightarrow> raSchedule \<Rightarrow> raSchedule" where
  "onSolicitation p delay t1 t2 s =
     (let (earliest, is_held) = held p s t2; at = (if is_held then earliest + delay else t1 + delay) in
      (if at < next_at s then s\<lparr>next_at := at\<rparr> else s)\<lparr>now := t2\<rparr>)"

text \<open>\<open>Run\<close>: the first advertisement at \<open>t1\<close>, then the first interval from \<open>t2\<close>.\<close>

definition ra_start :: "ra_params \<Rightarrow> int \<Rightarrow> int \<Rightarrow> int \<Rightarrow> raSchedule" where
  "ra_start p r t1 t2 =
     (send t1 \<lparr>now = t1, next_at = 0, lastSent = 0, sent = []\<rparr>)\<lparr>next_at := t2 + nextInterval p r, now := t2\<rparr>"

definition in_range :: "int \<Rightarrow> int \<Rightarrow> bool" where
  "in_range r n \<longleftrightarrow> 0 \<le> r \<and> r < n"

text \<open>What \<open>rand.Int63n\<close> may return at the two places it is called.\<close>

definition interval_draw :: "ra_params \<Rightarrow> int \<Rightarrow> bool" where
  "interval_draw p r \<longleftrightarrow>
     (let mn = max (Interval p div 3) (minDelayBetweenRAs p) in mn < Interval p \<longrightarrow> in_range r (Interval p - mn))"

definition delay_draw :: "ra_params \<Rightarrow> int \<Rightarrow> bool" where
  "delay_draw p r \<longleftrightarrow> (0 < maxRADelay p \<longrightarrow> in_range r (maxRADelay p))"

inductive ra_step :: "ra_params \<Rightarrow> raSchedule \<Rightarrow> raSchedule \<Rightarrow> bool" for p where
  timer: "now s \<le> t1 \<Longrightarrow> t1 \<le> t2 \<Longrightarrow> t2 \<le> t3 \<Longrightarrow> interval_draw p r \<Longrightarrow>
    ra_step p s (onTimer p (nextInterval p r) t1 t2 t3 s)"
| solicitation: "now s \<le> t1 \<Longrightarrow> t1 \<le> t2 \<Longrightarrow> delay_draw p r \<Longrightarrow>
    ra_step p s (onSolicitation p (raDelay p r) t1 t2 s)"

inductive ra_reach :: "ra_params \<Rightarrow> raSchedule \<Rightarrow> bool" for p where
  start: "t1 \<le> t2 \<Longrightarrow> interval_draw p r \<Longrightarrow> ra_reach p (ra_start p r t1 t2)"
| step: "ra_reach p s \<Longrightarrow> ra_step p s s' \<Longrightarrow> ra_reach p s'"

section \<open>Which packets are solicitations\<close>

text \<open>
  \<open>routerConn.ReadFrom\<close> and \<open>readSolicitations\<close>: \<open>parseMessage\<close> is the NDP library's parser, the control
  message carries the hop limit if there is one.
\<close>

datatype ndp_info = SourceLinkLayerAddress | OtherNdpInfo

datatype ndp_message = RouterSolicitation "ndp_info list" | OtherMessage

definition parseNDP :: "(bytes \<Rightarrow> ndp_message option) \<Rightarrow> bytes \<Rightarrow> ndp_message option" where
  "parseNDP parseMessage b = (if length b < 2 \<or> b ! 1 \<noteq> 0 then None else parseMessage b)"

definition validSolicitation :: "ndp_info list \<Rightarrow> nat option \<Rightarrow> addr \<Rightarrow> bool" where
  "validSolicitation options cm from_addr =
     (if cm = None \<or> cm \<noteq> Some 255 then False
      else if IsUnspecified from_addr then \<not> list_ex (\<lambda>o'. o' = SourceLinkLayerAddress) options
      else True)"

text \<open>The addresses the reader loop passes on, for the packets read so far.\<close>

fun readSolicitations :: "(bytes \<Rightarrow> ndp_message option) \<Rightarrow> (bytes \<times> nat option \<times> addr) list \<Rightarrow> addr list" where
  "readSolicitations parseMessage [] = []"
| "readSolicitations parseMessage ((b, cm, from_addr) # packets) =
     (case parseNDP parseMessage b of
        Some (RouterSolicitation options) \<Rightarrow>
          (if validSolicitation options cm from_addr then from_addr # readSolicitations parseMessage packets
           else readSolicitations parseMessage packets)
      | _ \<Rightarrow> readSolicitations parseMessage packets)"

lemma readSolicitations_only_valid:
  "a \<in> set (readSolicitations parseMessage packets) \<Longrightarrow>
     \<exists>b options. (b, Some 255, a) \<in> set packets \<and> b ! 1 = 0 \<and> parseMessage b = Some (RouterSolicitation options) \<and>
       (IsUnspecified a \<longrightarrow> SourceLinkLayerAddress \<notin> set options)"
  by (induction parseMessage packets rule: readSolicitations.induct)
    (auto simp: parseNDP_def validSolicitation_def list_ex_iff split: option.splits ndp_message.splits if_splits)

section \<open>The random interval\<close>

definition params_ok :: "ra_params \<Rightarrow> bool" where
  "params_ok p \<longleftrightarrow> 0 \<le> minDelayBetweenRAs p \<and> minDelayBetweenRAs p \<le> Interval p"

lemma nextInterval_bounds:
  "params_ok p \<Longrightarrow> interval_draw p r \<Longrightarrow>
     minDelayBetweenRAs p \<le> nextInterval p r \<and> nextInterval p r \<le> Interval p"
  by (auto simp: params_ok_def interval_draw_def in_range_def nextInterval_def Let_def)

lemma raDelay_nonneg: "delay_draw p r \<Longrightarrow> 0 \<le> raDelay p r"
  by (auto simp: delay_draw_def raDelay_def in_range_def)

lemma raDelay_le: "delay_draw p r \<Longrightarrow> raDelay p r \<le> max 0 (maxRADelay p)"
  by (auto simp: delay_draw_def raDelay_def in_range_def)

section \<open>The invariant\<close>

text \<open>
  The latest advertisement is the recorded one, and any two consecutive advertisements are at least
  the minimum delay apart. \<open>due\<close> is when the timer will send: at its deadline, or when the
  rate-limited window ends if the deadline lies inside it. (It can: \<open>onSolicitation\<close> reads the clock
  for its answer before it reads it for the window.)
\<close>

fun spaced :: "int \<Rightarrow> int list \<Rightarrow> bool" where
  "spaced d (t2 # t1 # ts) = (d \<le> t2 - t1 \<and> spaced d (t1 # ts))"
| "spaced d ts = True"

definition ra_inv :: "ra_params \<Rightarrow> raSchedule \<Rightarrow> bool" where
  "ra_inv p s \<longleftrightarrow>
     sent s \<noteq> [] \<and> hd (sent s) = lastSent s \<and> lastSent s \<le> now s \<and> spaced (minDelayBetweenRAs p) (sent s)"

definition due :: "ra_params \<Rightarrow> raSchedule \<Rightarrow> int" where
  "due p s = max (next_at s) (lastSent s + minDelayBetweenRAs p)"

lemma spaced_Cons: "spaced d ts \<Longrightarrow> (ts \<noteq> [] \<Longrightarrow> d \<le> t - hd ts) \<Longrightarrow> spaced d (t # ts)"
  by (cases ts) auto

lemma ra_inv_step:
  assumes inv: "ra_inv p s" and st: "ra_step p s s'"
  shows "ra_inv p s'"
  using st
proof cases
  case (timer t1 t2 t3 r)
  show ?thesis
  proof (cases "t1 < lastSent s + minDelayBetweenRAs p")
    case True
    with inv timer show ?thesis by (simp add: ra_inv_def onTimer_def held_def)
  next
    case False
    then have "spaced (minDelayBetweenRAs p) (t2 # sent s)"
      using inv timer by (intro spaced_Cons) (auto simp: ra_inv_def)
    with False timer inv show ?thesis
      by (simp add: ra_inv_def onTimer_def held_def send_def)
  qed
next
  case (solicitation t1 t2 r)
  with inv show ?thesis by (auto simp: ra_inv_def onSolicitation_def held_def Let_def)
qed

lemma ra_inv_reach: "ra_reach p s \<Longrightarrow> ra_inv p s"
proof (induction rule: ra_reach.induct)
  case (start t1 t2 r)
  then show ?case by (simp add: ra_inv_def ra_start_def send_def)
next
  case (step s s')
  with ra_inv_step show ?case by blast
qed

section \<open>Rate limit\<close>

text \<open>
  C17: whatever mix of timer firings and solicitations occurs, and however the clock readings fall,
  consecutive advertisements are at least \<open>MIN_DELAY_BETWEEN_RAS\<close> apart (RFC 4861 section 6.2.6).
\<close>

theorem advertisements_are_rate_limited:
  assumes "ra_reach p s" and "Suc i < length (sent s)"
  shows "sent s ! Suc i + minDelayBetweenRAs p \<le> sent s ! i"
proof -
  have "spaced d ts \<Longrightarrow> Suc i < length ts \<Longrightarrow> ts ! Suc i + d \<le> ts ! i" for d ts i
  proof (induction d ts arbitrary: i rule: spaced.induct)
    case (1 d t2 t1 ts)
    then show ?case by (cases i) auto
  qed auto
  with assms show ?thesis using ra_inv_reach [OF assms(1)] by (auto simp: ra_inv_def)
qed

section \<open>Solicitations are answered\<close>

lemma due_step:
  assumes "ra_step p s s'" "sent s' = sent s"
  shows "due p s' \<le> due p s"
  using assms(1)
proof cases
  case (timer t1 t2 t3 r)
  with assms(2) have "t1 < lastSent s + minDelayBetweenRAs p"
    by (auto simp: onTimer_def held_def send_def Let_def split: if_splits)
  with timer show ?thesis by (simp add: onTimer_def held_def due_def)
next
  case (solicitation t1 t2 r)
  then show ?thesis by (auto simp: onSolicitation_def held_def due_def Let_def)
qed

lemma ra_step_sent: "ra_step p s s' \<Longrightarrow> length (sent s) \<le> length (sent s')"
  by (cases rule: ra_step.cases)
    (auto simp: onTimer_def onSolicitation_def held_def send_def Let_def)

lemma due_steps:
  assumes "(ra_step p)\<^sup>*\<^sup>* s s'"
  shows "length (sent s) \<le> length (sent s') \<and> (sent s' = sent s \<longrightarrow> due p s' \<le> due p s)"
  using assms
proof (induction rule: rtranclp_induct)
  case (step s1 s2)
  have l: "length (sent s1) \<le> length (sent s2)" using step.hyps(2) by (rule ra_step_sent)
  moreover have "due p s2 \<le> due p s" if "sent s2 = sent s"
  proof -
    have "length (sent s1) = length (sent s)" using l step.IH that by simp
    moreover from step.hyps(2) have "sent s2 = sent s1 \<or> length (sent s2) = Suc (length (sent s1))"
      by cases (auto simp: onTimer_def onSolicitation_def held_def send_def Let_def)
    ultimately have "sent s2 = sent s1" using that by auto
    with due_step [OF step.hyps(2)] step.IH that show ?thesis by auto
  qed
  ultimately show ?case using step.IH by auto
qed simp

lemma onTimer_due: "due p s \<le> t1 \<Longrightarrow> sent (onTimer p d t1 t2 t3 s) = t2 # sent s"
  by (simp add: onTimer_def held_def due_def send_def)

lemma due_onSolicitation:
  assumes "ra_inv p s" "0 \<le> minDelayBetweenRAs p" "now s \<le> t1" "t1 \<le> t2" "0 \<le> d"
  shows "due p (onSolicitation p d t1 t2 s) \<le> t2 + minDelayBetweenRAs p + d"
  using assms by (auto simp: onSolicitation_def held_def due_def ra_inv_def Let_def)

text \<open>
  C18: a solicitation is answered. From the moment it is handled, as long as no advertisement has gone out
  the timer is due no later than \<open>MIN_DELAY_BETWEEN_RAS\<close> plus the random delay (below
  \<open>MAX_RA_DELAY_TIME\<close>) afterwards, whatever else happens in between; and a firing of the timer at or
  after it is due does send.
\<close>

theorem solicitation_is_answered:
  assumes reach: "ra_reach p s" and par: "0 \<le> minDelayBetweenRAs p" "0 < maxRADelay p"
    and rs: "now s \<le> t1" "t1 \<le> t2" "delay_draw p r"
    and later: "(ra_step p)\<^sup>*\<^sup>* (onSolicitation p (raDelay p r) t1 t2 s) s'"
  shows "sent s' = sent s \<longrightarrow>
    due p s' < t2 + minDelayBetweenRAs p + maxRADelay p \<and>
    (\<forall>d u1 u2 u3. due p s' \<le> u1 \<longrightarrow> sent (onTimer p d u1 u2 u3 s') = u2 # sent s')"
proof -
  let ?s1 = "onSolicitation p (raDelay p r) t1 t2 s"
  have sent: "sent ?s1 = sent s" by (simp add: onSolicitation_def held_def Let_def)
  have "0 \<le> raDelay p r" "raDelay p r < maxRADelay p"
    using rs(3) par(2) by (auto simp: raDelay_def delay_draw_def in_range_def)
  then have "due p ?s1 < t2 + minDelayBetweenRAs p + maxRADelay p"
    using due_onSolicitation [OF ra_inv_reach [OF reach] par(1) rs(1,2), of "raDelay p r"] by linarith
  then show ?thesis using due_steps [OF later] sent onTimer_due by auto
qed

section \<open>Concrete schedules\<close>

text \<open>The constants of the source: 3 seconds, 500 milliseconds and 30 seconds, in milliseconds.\<close>

definition example_params :: ra_params where
  "example_params = \<lparr>minDelayBetweenRAs = 3000, maxRADelay = 500, Interval = 30000\<rparr>"

definition example_started :: raSchedule where
  "example_started = ra_start example_params 0 0 1"

lemma example_started_reach: "ra_reach example_params example_started"
  unfolding example_started_def
  by (rule ra_reach.start) (simp_all add: interval_draw_def in_range_def example_params_def)

theorem advertisements_are_rate_limited_witness:
  "sent (onTimer example_params 15000 10001 10002 10003 example_started) ! 1 + 3000
     \<le> sent (onTimer example_params 15000 10001 10002 10003 example_started) ! 0"
proof -
  let ?s = "onTimer example_params (nextInterval example_params 5000) 10001 10002 10003 example_started"
  have n: "nextInterval example_params 5000 = 15000" by (simp add: nextInterval_def example_params_def)
  have "ra_reach example_params ?s"
    by (rule ra_reach.step [OF example_started_reach], rule ra_step.timer)
      (simp_all add: interval_draw_def in_range_def example_params_def example_started_def ra_start_def)
  moreover have "Suc 0 < length (sent ?s)"
    by (simp add: onTimer_def held_def send_def example_started_def ra_start_def example_params_def)
  ultimately show ?thesis
    using advertisements_are_rate_limited [of example_params ?s 0] n by (simp add: example_params_def)
qed

theorem solicitation_is_answered_witness:
  "due example_params (onSolicitation example_params 200 100 100 example_started) < 100 + 3000 + 500"
proof -
  let ?s = "onSolicitation example_params (raDelay example_params 200) 100 100 example_started"
  have "sent ?s = sent example_started" by (simp add: onSolicitation_def held_def Let_def)
  then have "due example_params ?s < 100 + minDelayBetweenRAs example_params + maxRADelay example_params"
    using solicitation_is_answered [OF example_started_reach, of 100 100 200 ?s]
    by (simp add: delay_draw_def in_range_def example_params_def example_started_def ra_start_def)
  then show ?thesis by (simp add: raDelay_def example_params_def)
qed

end
