(* ===== verification/Codec.thy ===== *)
theory Codec
  imports Prelude
begin

text \<open>
  The contract of an encoder and a decoder: every well-formed value encodes, decoding gives it back,
  and only well-formed values are decoded. The wire formats of the plugins are interpretations.
\<close>

primrec ok_value :: "'e + 'a \<Rightarrow> 'a option" where
  "ok_value (Inl e) = None"
| "ok_value (Inr x) = Some x"

lemma ok_value_Some [simp]: "ok_value m = Some x \<longleftrightarrow> m = Inr x"
  by (cases m) auto

lemma ok_value_None [simp]: "ok_value m = None \<longleftrightarrow> (\<exists>e. m = Inl e)"
  by (cases m) auto

locale roundtrip =
  fixes wf :: "'a \<Rightarrow> bool"
    and encode :: "'a \<Rightarrow> 'b option"
    and decode :: "'b \<Rightarrow> 'a option"
  assumes encode_total: "wf x \<Longrightarrow> \<exists>b. encode x = Some b"
    and decode_encode: "wf x \<Longrightarrow> encode x = Some b \<Longrightarrow> decode b = Some x"
begin

lemma encode_inj: "wf x \<Longrightarrow> wf y \<Longrightarrow> encode x = encode y \<Longrightarrow> x = y"
  using encode_total [of x] decode_encode [of x] decode_encode [of y] by auto

end

text \<open>A codec also decodes nothing else.\<close>

locale codec = roundtrip +
  assumes decode_wf: "decode b = Some x \<Longrightarrow> wf x"
begin

text \<open>Decoding and encoding again gives a normal form that decodes to the same value.\<close>

lemma reencode: "decode b = Some x \<Longrightarrow> \<exists>b'. encode x = Some b' \<and> decode b' = Some x"
  using decode_wf [of b x] encode_total [of x] decode_encode [of x] by blast

lemma decodable_iff_wf: "(\<exists>b. decode b = Some x) \<longleftrightarrow> wf x"
  using encode_total [of x] decode_encode [of x] decode_wf by blast

end

end
