(* ===== verification/Dnr.thy ===== *)
theory Dnr
  imports Go_Net Codec
begin

text \<open>
  \<open>radnr/pkg/dnr/dnr.go\<close>: the RFC 9463 Encrypted DNS option of Router Advertisements. A \<open>DomainName\<close>
  is the dotted string it holds, with \<open>DomainName_ok\<close> the invariant its constructor establishes.
\<close>

section \<open>Data\<close>

datatype dnr_error =
  EmptyADN | ADNTooLong | EmptyLabel | LabelTooLong | NotIPv6 | LengthExceedsUint16 | OptionTooLarge
| ADNLengthExceeds | AddrLengthNotMultiple | AddrLengthExceeds | SvcParamsLengthExceeds
| TooShort | WrongType | LengthExceedsBuffer | Truncated | TruncatedLifetime
| LabelExceedsRemaining | LabelContainsDot | NotRootTerminated

record EncryptedDNS =
  ADN :: string
  Addrs :: "addr list"
  SvcParams :: bytes
  ServicePriority :: u16
  Lifetime :: u32

section \<open>Domain names\<close>

fun check_labels :: "string list \<Rightarrow> dnr_error option" where
  "check_labels [] = None"
| "check_labels (label # ls) =
     (if label = [] then Some EmptyLabel
      else if 63 < length label then Some LabelTooLong
      else check_labels ls)"

definition ParseDomainName :: "string \<Rightarrow> dnr_error + string" where
  "ParseDomainName name =
     (let name = trim_suffix name ''.'' in
      if name = [] then Inl EmptyADN
      else if 255 < length name + 2 then Inl ADNTooLong
      else (case check_labels (split_on CHR ''.'' name) of Some e \<Rightarrow> Inl e | None \<Rightarrow> Inr name))"

definition wire :: "string \<Rightarrow> bytes" where
  "wire s = concat (map (\<lambda>label. of_nat (length label) # bytes_of label) (split_on CHR ''.'' s)) @ [0]"

section \<open>Encoding\<close>

definition checkedUint16 :: "nat \<Rightarrow> bool" where
  "checkedUint16 n = (n \<le> 65535)"

definition wireSize :: "EncryptedDNS \<Rightarrow> nat" where
  "wireSize o' =
     (let body = 2 + 4 + 2 + length (ADN o') + 2 + 2 + length (Addrs o') * 16 + 2 + length (SvcParams o');
          total = 2 + body
      in total + (8 - total mod 8) mod 8)"

definition Validate :: "EncryptedDNS \<Rightarrow> dnr_error option" where
  "Validate o' =
     (if ADN o' = [] then Some EmptyADN
      else if list_ex (\<lambda>a. \<not> Is6 a \<or> Is4In6 a \<or> Zone a \<noteq> []) (Addrs o') then Some NotIPv6
      else if \<not> checkedUint16 (length (Addrs o') * 16) then Some LengthExceedsUint16
      else if \<not> checkedUint16 (length (SvcParams o')) then Some LengthExceedsUint16
      else if 255 < wireSize o' div 8 then Some OptionTooLarge
      else None)"

definition Marshal :: "EncryptedDNS \<Rightarrow> dnr_error + bytes" where
  "Marshal o' =
     (case Validate o' of
        Some e \<Rightarrow> Inl e
      | None \<Rightarrow>
        let adn = wire (ADN o');
            total = wireSize o';
            out = [144, of_nat (total div 8)] @ putBE16 (ServicePriority o') @ putBE32 (Lifetime o') @
              putBE16 (of_nat (length adn)) @ adn @
              putBE16 (of_nat (length (Addrs o') * 16)) @ concat (map As16 (Addrs o')) @
              putBE16 (of_nat (length (SvcParams o'))) @ SvcParams o'
        in Inr (out @ replicate (total - length out) 0))"

section \<open>Decoding\<close>

text \<open>\<open>decodeADN\<close>'s loop over the labels, with the name built so far.\<close>

function decode_labels :: "string \<Rightarrow> bytes \<Rightarrow> dnr_error + string" where
  "decode_labels name [] = Inl NotRootTerminated"
| "decode_labels name (b # bs) =
     (let n = unat b in
      if n = 0 then ParseDomainName name
      else if length bs < n then Inl LabelExceedsRemaining
      else
        let label = string_of (take n bs) in
        if index_byte label CHR ''.'' \<noteq> None then Inl LabelContainsDot
        else decode_labels (name @ (if 0 < length name then ''.'' else []) @ label) (drop n bs))"
  by pat_completeness auto
termination
  by (relation "measure (\<lambda>(name, bs). length bs)") auto

declare decode_labels.simps(2) [simp del]

definition decodeADN :: "bytes \<Rightarrow> dnr_error + string" where
  "decodeADN b = decode_labels [] b"

definition parseADNField :: "bytes \<Rightarrow> u16 \<Rightarrow> dnr_error + string \<times> bytes" where
  "parseADNField p adnLen =
     (if length p < unat adnLen then Inl ADNLengthExceeds
      else (case decodeADN (take (unat adnLen) p) of
              Inl e \<Rightarrow> Inl e
            | Inr name \<Rightarrow> Inr (name, drop (unat adnLen) p)))"

text \<open>The loop over sixteen-octet groups; \<open>n\<close> counts the groups left.\<close>

primrec read_addrs :: "nat \<Rightarrow> bytes \<Rightarrow> addr list" where
  "read_addrs 0 p = []"
| "read_addrs (Suc n) p = AddrFrom16 (take 16 p) # read_addrs n (drop 16 p)"

definition parseAddrs :: "bytes \<Rightarrow> u16 \<Rightarrow> dnr_error + addr list \<times> bytes" where
  "parseAddrs p addrLen =
     (if unat addrLen mod 16 \<noteq> 0 then Inl AddrLengthNotMultiple
      else if length p < unat addrLen then Inl AddrLengthExceeds
      else Inr (read_addrs (unat addrLen div 16) p, drop (unat addrLen) p))"

definition parseSvcParams :: "bytes \<Rightarrow> u16 \<Rightarrow> dnr_error + bytes" where
  "parseSvcParams p spLen =
     (if length p < unat spLen then Inl SvcParamsLengthExceeds else Inr (take (unat spLen) p))"

definition parseHeader :: "bytes \<Rightarrow> dnr_error + bytes" where
  "parseHeader b =
     (if length b < 8 then Inl TooShort
      else if b ! 0 \<noteq> 144 then Inl WrongType
      else
        let total = unat (b ! 1) * 8 in
        if total = 0 \<or> length b < total then Inl LengthExceedsBuffer
        else Inr (drop 2 (take total b)))"

definition read16 :: "bytes \<Rightarrow> dnr_error + u16 \<times> bytes" where
  "read16 p = (if length p < 2 then Inl Truncated else Inr (getBE16 p, drop 2 p))"

definition Unmarshal :: "bytes \<Rightarrow> dnr_error + EncryptedDNS" where
  "Unmarshal b =
     (case parseHeader b of Inl e \<Rightarrow> Inl e | Inr p \<Rightarrow>
      case read16 p of Inl e \<Rightarrow> Inl e | Inr (prio, p) \<Rightarrow>
      if length p < 4 then Inl TruncatedLifetime else
      let lifetime = getBE32 p; p = drop 4 p in
      case read16 p of Inl e \<Rightarrow> Inl e | Inr (adnLen, p) \<Rightarrow>
      case parseADNField p adnLen of Inl e \<Rightarrow> Inl e | Inr (adn, p) \<Rightarrow>
      case read16 p of Inl e \<Rightarrow> Inl e | Inr (addrLen, p) \<Rightarrow>
      case parseAddrs p addrLen of Inl e \<Rightarrow> Inl e | Inr (addrs, p) \<Rightarrow>
      case read16 p of Inl e \<Rightarrow> Inl e | Inr (spLen, p) \<Rightarrow>
      case parseSvcParams p spLen of Inl e \<Rightarrow> Inl e | Inr sp \<Rightarrow>
      let o' = \<lparr>ADN = adn, Addrs = addrs, SvcParams = sp, ServicePriority = prio, Lifetime = lifetime\<rparr> in
      case Validate o' of Some e \<Rightarrow> Inl e | None \<Rightarrow> Inr o')"

section \<open>Domain names\<close>

definition DomainName_ok :: "string \<Rightarrow> bool" where
  "DomainName_ok s \<longleftrightarrow> s \<noteq> [] \<and> length s + 2 \<le> 255 \<and>
     (\<forall>l\<in>set (split_on CHR ''.'' s). l \<noteq> [] \<and> length l \<le> 63)"

lemma check_labels_None: "check_labels ls = None \<longleftrightarrow> (\<forall>l\<in>set ls. l \<noteq> [] \<and> length l \<le> 63)"
  by (induction ls) auto

lemma ParseDomainName_Inr: "ParseDomainName n = Inr s \<longleftrightarrow> s = trim_suffix n ''.'' \<and> DomainName_ok s"
  by (auto simp: ParseDomainName_def DomainName_ok_def Let_def check_labels_None [symmetric]
      split: option.splits if_splits)

lemma split_on_snoc: "split_on c (s @ [c]) = split_on c s @ [[]]"
  by (induction s) (auto split: list.splits)

lemma DomainName_ok_trim: "DomainName_ok s \<Longrightarrow> trim_suffix s ''.'' = s"
  by (cases s rule: rev_cases) (auto simp: trim_suffix_dot DomainName_ok_def split_on_snoc)

lemma ParseDomainName_ok: "DomainName_ok s \<Longrightarrow> ParseDomainName s = Inr s"
  by (simp add: ParseDomainName_Inr DomainName_ok_trim)

lemma length_join_on: "ls \<noteq> [] \<Longrightarrow> length (join_on c ls) + 1 = sum_list (map (\<lambda>l. length l + 1) ls)"
  by (induction c ls rule: join_on.induct) auto

lemma length_wire: "length (wire s) = length s + 2"
proof -
  have "sum_list (map (\<lambda>l. length l + 1) (split_on CHR ''.'' s)) = length s + 1"
    using length_join_on [of "split_on CHR ''.'' s" "CHR ''.''"] by simp
  then show ?thesis by (simp add: wire_def length_concat comp_def)
qed

text \<open>The decoder's loop reads back the labels the encoder wrote.\<close>

definition add_label :: "string \<Rightarrow> string \<Rightarrow> string" where
  "add_label name l = name @ (if 0 < length name then ''.'' else []) @ l"

lemma foldl_add_label: "name \<noteq> [] \<Longrightarrow> foldl add_label name ls = name @ concat (map (\<lambda>l. CHR ''.'' # l) ls)"
  by (induction ls arbitrary: name) (auto simp: add_label_def)

lemma join_on_concat: "join_on c (l # ls) = l @ concat (map (\<lambda>x. c # x) ls)"
  by (induction ls arbitrary: l) auto

lemma foldl_add_label_join: "\<forall>l\<in>set ls. l \<noteq> [] \<Longrightarrow> foldl add_label [] ls = join_on CHR ''.'' ls"
  by (cases ls) (auto simp: foldl_add_label add_label_def join_on_concat)

lemma decode_labels_wire:
  assumes "\<forall>l\<in>set ls. l \<noteq> [] \<and> length l \<le> 63 \<and> CHR ''.'' \<notin> set l"
  shows "decode_labels name (concat (map (\<lambda>l. of_nat (length l) # bytes_of l) ls) @ 0 # rest) =
    ParseDomainName (foldl add_label name ls)"
  using assms
proof (induction ls arbitrary: name)
  case Nil
  show ?case by (simp add: decode_labels.simps(2))
next
  case (Cons l ls)
  have n: "unat (of_nat (length l) :: byte) = length l" using Cons.prems by (simp add: unat_of_nat)
  show ?case
    using Cons by (simp add: decode_labels.simps(2) n index_byte_None [THEN iffD2] add_label_def [of name])
qed

lemma decodeADN_wire: "DomainName_ok s \<Longrightarrow> decodeADN (wire s) = Inr s"
proof -
  assume ok: "DomainName_ok s"
  let ?ls = "split_on CHR ''.'' s"
  have l: "\<forall>l\<in>set ?ls. l \<noteq> [] \<and> length l \<le> 63 \<and> CHR ''.'' \<notin> set l"
    using ok split_on_labels by (auto simp: DomainName_ok_def)
  then have "foldl add_label [] ?ls = s" by (simp add: foldl_add_label_join)
  with decode_labels_wire [OF l, of "[]" "[]"] show ?thesis
    using ok by (simp add: decodeADN_def wire_def ParseDomainName_ok)
qed

lemma decode_labels_ok: "decode_labels name bs = Inr s \<Longrightarrow> DomainName_ok s"
proof (induction name bs rule: decode_labels.induct)
  case (2 name b bs)
  then show ?case
    by (simp add: decode_labels.simps(2) Let_def ParseDomainName_Inr split: if_split_asm) auto
qed simp

section \<open>The option\<close>

definition option_ok :: "EncryptedDNS \<Rightarrow> bool" where
  "option_ok o' \<longleftrightarrow> DomainName_ok (ADN o') \<and> Validate o' = None"

lemma read16_put [simp]: "read16 (putBE16 w @ r) = Inr (w, r)"
  by (simp add: read16_def)

lemma length_concat_As16 [wire_simps]: "list_all Is6 as \<Longrightarrow> length (concat (map As16 as)) = length as * 16"
  by (induction as) simp_all

lemma read_addrs_concat:
  "list_all (\<lambda>a. Is6 a \<and> Zone a = []) as \<Longrightarrow> read_addrs (length as) (concat (map As16 as) @ r) = as"
  by (induction as) (auto simp: AddrFrom16_As16)

lemma parseADNField_wire:
  "DomainName_ok s \<Longrightarrow> parseADNField (wire s @ r) (of_nat (length s + 2)) = Inr (s, r)"
proof -
  assume ok: "DomainName_ok s"
  then have "unat (of_nat (length s + 2) :: u16) = length (wire s)"
    unfolding unat_of_nat length_wire by (simp add: DomainName_ok_def)
  with ok show ?thesis by (simp add: parseADNField_def decodeADN_wire)
qed

lemma parseAddrs_concat:
  assumes "length as * 16 \<le> 65535" "list_all (\<lambda>a. Is6 a \<and> Zone a = []) as"
  shows "parseAddrs (concat (map As16 as) @ r) (of_nat (length as * 16)) = Inr (as, r)"
proof -
  have n: "unat (of_nat (length as * 16) :: u16) = length as * 16"
    using assms(1) by (simp only: unat_of_nat) simp
  show ?thesis
    unfolding parseAddrs_def n using assms(2)
    by (simp add: read_addrs_concat length_concat_As16 list_all_iff)
qed

lemma parseSvcParams_append:
  "length sp \<le> 65535 \<Longrightarrow> parseSvcParams (sp @ r) (of_nat (length sp)) = Inr sp"
  by (simp add: parseSvcParams_def unat_of_nat)

lemma pad8: "(8::nat) dvd t + (8 - t mod 8) mod 8"
proof (cases "t mod 8 = 0")
  case True
  then show ?thesis by (simp add: mod_0_imp_dvd)
next
  case False
  then have "(8 - t mod 8) mod 8 = 8 - t mod 8" by simp
  moreover have "r \<le> t \<Longrightarrow> r < 8 \<Longrightarrow> t + (8 - r) = t - r + 8" for r :: nat by linarith
  then have "t + (8 - t mod 8) = t - t mod 8 + 8" by simp
  ultimately have "t + (8 - t mod 8) mod 8 = t - t mod 8 + 8" by (simp only:)
  then show ?thesis by (simp only: dvd_add dvd_minus_mod dvd_refl)
qed

lemma wireSize_mult8: "8 dvd wireSize o'"
  unfolding wireSize_def Let_def by (rule pad8)

lemma wireSize_ge: "16 + length (ADN o') + length (Addrs o') * 16 + length (SvcParams o') \<le> wireSize o'"
  unfolding wireSize_def Let_def by simp

lemma Validate_None:
  "Validate o' = None \<longleftrightarrow> ADN o' \<noteq> [] \<and> list_all (\<lambda>a. Is6 a \<and> \<not> Is4In6 a \<and> Zone a = []) (Addrs o') \<and>
     length (Addrs o') * 16 \<le> 65535 \<and> length (SvcParams o') \<le> 65535 \<and> wireSize o' \<le> 2040"
proof -
  have "255 < wireSize o' div 8 \<longleftrightarrow> 2040 < wireSize o'"
    using wireSize_mult8 [of o'] by (auto elim!: dvdE)
  moreover have "list_ex (\<lambda>a. \<not> Is6 a \<or> Is4In6 a \<or> Zone a \<noteq> []) (Addrs o') \<longleftrightarrow>
      \<not> list_all (\<lambda>a. Is6 a \<and> \<not> Is4In6 a \<and> Zone a = []) (Addrs o')"
    by (auto simp: list_ex_iff list_all_iff)
  ultimately show ?thesis by (auto simp: Validate_def checkedUint16_def)
qed

text \<open>The fields of the option after its two-octet header, and the padding.\<close>

definition option_body :: "EncryptedDNS \<Rightarrow> bytes" where
  "option_body o' =
     putBE16 (ServicePriority o') @ putBE32 (Lifetime o') @
     putBE16 (of_nat (length (ADN o') + 2)) @ wire (ADN o') @
     putBE16 (of_nat (length (Addrs o') * 16)) @ concat (map As16 (Addrs o')) @
     putBE16 (of_nat (length (SvcParams o'))) @ SvcParams o'"

lemma Marshal_body:
  assumes "Validate o' = None"
  shows "\<exists>n. Marshal o' = Inr ([144, of_nat (wireSize o' div 8)] @ option_body o' @ replicate n 0) \<and>
    2 + length (option_body o') + n = wireSize o'"
proof -
  have "list_all Is6 (Addrs o')" using assms by (auto simp: Validate_None list_all_iff)
  then have len: "2 + length (option_body o') =
      16 + length (ADN o') + length (Addrs o') * 16 + length (SvcParams o')"
    by (simp add: option_body_def length_wire length_concat_As16)
  let ?n = "wireSize o' - (2 + length (option_body o'))"
  have "Marshal o' = Inr ([144, of_nat (wireSize o' div 8)] @ option_body o' @ replicate ?n 0)"
    using assms by (simp add: Marshal_def option_body_def length_wire Let_def)
  moreover have "2 + length (option_body o') + ?n = wireSize o'"
    using len wireSize_ge [of o'] by simp
  ultimately show ?thesis by blast
qed

lemma Unmarshal_body:
  assumes ok: "option_ok o'" and n: "2 + length (option_body o') + n = wireSize o'"
  shows "Unmarshal ([144, of_nat (wireSize o' div 8)] @ option_body o' @ replicate n 0 @ rest) = Inr o'"
proof -
  note v = ok [unfolded option_ok_def Validate_None]
  let ?b = "[144, of_nat (wireSize o' div 8)] @ option_body o' @ replicate n 0 @ rest"
  have w: "wireSize o' div 8 \<le> 255" using v by linarith
  have u: "unat (of_nat (wireSize o' div 8) :: byte) * 8 = wireSize o'"
    using w wireSize_mult8 [of o'] by (simp add: unat_of_nat)
  have hdr: "parseHeader ?b = Inr (option_body o' @ replicate n 0)"
  proof -
    have "unat (?b ! 1) * 8 = wireSize o'" "?b ! 0 = 144" using u by simp_all
    moreover have "length ?b = wireSize o' + length rest" using n by simp
    moreover have "take (wireSize o') ?b = [144, of_nat (wireSize o' div 8)] @ option_body o' @ replicate n 0"
    proof -
      have "take (wireSize o') (([144, of_nat (wireSize o' div 8)] @ option_body o' @ replicate n 0) @ rest) =
          [144, of_nat (wireSize o' div 8)] @ option_body o' @ replicate n 0"
        by (rule take_drop_append_eq) (use n in simp)
      then show ?thesis by simp
    qed
    ultimately show ?thesis
      using wireSize_ge [of o'] by (simp add: parseHeader_def Let_def)
  qed
  have a: "list_all (\<lambda>a. Is6 a \<and> Zone a = []) (Addrs o')" using v by (auto simp: list_all_iff)
  let ?sp = "putBE16 (of_nat (length (SvcParams o'))) @ SvcParams o' @ replicate n 0"
  let ?ad = "putBE16 (of_nat (length (Addrs o') * 16)) @ concat (map As16 (Addrs o')) @ ?sp"
  let ?nm = "putBE16 (of_nat (length (ADN o') + 2)) @ wire (ADN o') @ ?ad"
  have body: "option_body o' @ replicate n 0 = putBE16 (ServicePriority o') @ putBE32 (Lifetime o') @ ?nm"
    by (simp add: option_body_def)
  have lt: "\<not> length (putBE32 (Lifetime o') @ ?nm) < 4" "getBE32 (putBE32 (Lifetime o') @ ?nm) = Lifetime o'"
    "drop 4 (putBE32 (Lifetime o') @ ?nm) = ?nm"
    by simp_all
  have f: "parseADNField (wire (ADN o') @ ?ad) (of_nat (length (ADN o') + 2)) = Inr (ADN o', ?ad)"
    "parseAddrs (concat (map As16 (Addrs o')) @ ?sp) (of_nat (length (Addrs o') * 16)) = Inr (Addrs o', ?sp)"
    "parseSvcParams (SvcParams o' @ replicate n 0) (of_nat (length (SvcParams o'))) = Inr (SvcParams o')"
    using v a by (simp_all only: parseADNField_wire parseAddrs_concat parseSvcParams_append)
  have "Validate \<lparr>ADN = ADN o', Addrs = Addrs o', SvcParams = SvcParams o',
      ServicePriority = ServicePriority o', Lifetime = Lifetime o'\<rparr> = None"
    using ok by (cases o') (simp add: option_ok_def)
  then show ?thesis
    unfolding Unmarshal_def hdr body
    by (simp only: sum.case prod.case read16_put lt f if_False Let_def option.case) simp
qed

lemma Unmarshal_Marshal: "option_ok o' \<Longrightarrow> Marshal o' = Inr b \<Longrightarrow> Unmarshal (b @ rest) = Inr o'"
  using Marshal_body [of o'] Unmarshal_body [of o' _ rest] by (auto simp: option_ok_def)

lemma Unmarshal_ok: "Unmarshal b = Inr o' \<Longrightarrow> option_ok o'"
  by (auto simp: Unmarshal_def option_ok_def Let_def parseADNField_def decodeADN_def decode_labels_ok
      split: sum.splits prod.splits if_splits option.splits)

interpretation dnr: codec option_ok "\<lambda>o'. ok_value (Marshal o')" "\<lambda>b. ok_value (Unmarshal b)"
proof
  fix o' b
  show "option_ok o' \<Longrightarrow> \<exists>b. ok_value (Marshal o') = Some b"
    using Marshal_body [of o'] by (auto simp: option_ok_def)
  show "option_ok o' \<Longrightarrow> ok_value (Marshal o') = Some b \<Longrightarrow> ok_value (Unmarshal b) = Some o'"
    using Unmarshal_Marshal [of o' b "[]"] by simp
  show "ok_value (Unmarshal b) = Some o' \<Longrightarrow> option_ok o'" by (simp add: Unmarshal_ok)
qed

section \<open>Properties\<close>

text \<open>
  an option whose name is a valid \<open>DomainName\<close> and which \<open>Validate\<close> accepts is encoded, and decoding
  the octets gives the option back, whatever follows it in the Router Advertisement.
\<close>

lemma dnr_option_round_trip:
  assumes "DomainName_ok (ADN o')" and "Validate o' = None"
  shows "\<exists>b. Marshal o' = Inr b \<and> Unmarshal (b @ rest) = Inr o'"
  using assms Unmarshal_Marshal [of o'] Marshal_body [of o'] by (auto simp: option_ok_def)

definition example_option :: EncryptedDNS where
  "example_option =
     \<lparr>ADN = ''dns.example'', Addrs = [Addr6 0x20010db8000000000000000000000001 []], SvcParams = [0, 1, 0, 0],
      ServicePriority = 1, Lifetime = 1800\<rparr>"

lemma dnr_option_round_trip_witness:
  "\<exists>b. Marshal example_option = Inr b \<and> Unmarshal (b @ [25, 1]) = Inr example_option"
  by (rule dnr_option_round_trip)
    (simp_all add: example_option_def DomainName_ok_def Validate_None wireSize_def Let_def)

text \<open>
  C14: exactly the valid options can be decoded: what \<open>Unmarshal\<close> returns has a valid name and passes
  \<open>Validate\<close>, encodes again, and decodes to itself; and two valid options with the same octets are equal.
\<close>

theorem dnr_decodes_exactly_the_valid_options:
  "((\<exists>b. Unmarshal b = Inr o') \<longleftrightarrow> DomainName_ok (ADN o') \<and> Validate o' = None) \<and>
   (DomainName_ok (ADN o1) \<and> Validate o1 = None \<and> Marshal o1 = Marshal o2 \<and> DomainName_ok (ADN o2) \<and> Validate o2 = None
      \<longrightarrow> o1 = o2)"
proof
  show "(\<exists>b. Unmarshal b = Inr o') \<longleftrightarrow> DomainName_ok (ADN o') \<and> Validate o' = None"
    using dnr.decodable_iff_wf [of o'] by (simp add: option_ok_def)
  show "DomainName_ok (ADN o1) \<and> Validate o1 = None \<and> Marshal o1 = Marshal o2 \<and> DomainName_ok (ADN o2) \<and> Validate o2 = None
      \<longrightarrow> o1 = o2"
    using dnr.encode_inj [of o1 o2] by (auto simp: option_ok_def)
qed

theorem dnr_decodes_exactly_the_valid_options_witness:
  "\<exists>b. Unmarshal b = Inr example_option"
  using dnr_decodes_exactly_the_valid_options [of example_option]
  by (simp add: example_option_def DomainName_ok_def Validate_None wireSize_def Let_def)

text \<open>
  The layout of RFC 9463 section 6.1 as a receiver parses it: the first octet is the option type 144,
  the second the length in units of eight octets, the length is the true length, and it is at most 255 units.
\<close>

lemma dnr_option_length_octet:
  assumes "Marshal o' = Inr b"
  shows "b ! 0 = 144 \<and> length b = 8 * unat (b ! 1) \<and> 2 \<le> unat (b ! 1) \<and> length b \<le> 8 * 255"
proof -
  have v: "Validate o' = None" using assms by (auto simp: Marshal_def split: option.splits)
  obtain n where b: "b = [144, of_nat (wireSize o' div 8)] @ option_body o' @ replicate n 0"
    and n: "2 + length (option_body o') + n = wireSize o'"
    using Marshal_body [OF v] assms by auto
  have "wireSize o' \<le> 2040" using v by (simp add: Validate_None)
  moreover from this have "unat (of_nat (wireSize o' div 8) :: byte) = wireSize o' div 8"
    by (simp add: unat_of_nat)
  ultimately show ?thesis
    using n wireSize_mult8 [of o'] wireSize_ge [of o'] by (auto simp: b elim!: dvdE)
qed

lemma dnr_option_length_octet_witness:
  "\<exists>b. Marshal example_option = Inr b \<and> b ! 0 = 144 \<and> length b = 8 * unat (b ! 1) \<and> length b \<le> 8 * 255"
proof -
  obtain b where "Marshal example_option = Inr b"
    using Marshal_body [of example_option]
    by (auto simp: example_option_def Validate_None wireSize_def Let_def)
  with dnr_option_length_octet [OF this] show ?thesis by blast
qed

end
