(* ===== verification/Svcparams.thy ===== *)
theory Svcparams
  imports Go_Lib Codec
begin

text \<open>
  \<open>radnr/pkg/svcparams/svcparams.go\<close>: the RFC 9460 SvcParams of the Encrypted DNS option, and a reader
  of that format (RFC 9460 section 2.2, as a client runs it) the encoder is checked against.
\<close>

section \<open>The encoder\<close>

datatype svc_error = ForbiddenKey string | EmptyALPN | ALPNTooLong | DohPathTooLong | ValueTooLong

record Params =
  Forbidden :: "(string \<times> string) list"
  p_DohPath :: string
  p_ALPN :: "string list"
  p_Port :: u16

abbreviation (input) "keyALPN \<equiv> 1 :: u16"
abbreviation (input) "keyPort \<equiv> 3 :: u16"
abbreviation (input) "keyDohPath \<equiv> 7 :: u16"

fun encodeALPN :: "string list \<Rightarrow> svc_error + bytes" where
  "encodeALPN [] = Inr []"
| "encodeALPN (ident # ids) =
     (if ident = [] then Inl EmptyALPN
      else if 255 < length ident then Inl ALPNTooLong
      else (case encodeALPN ids of
              Inl e \<Rightarrow> Inl e
            | Inr out \<Rightarrow> Inr (of_nat (length ident) # bytes_of ident @ out)))"

text \<open>The loop that writes each parameter's key, length and value.\<close>

fun write_params :: "(u16 \<times> bytes) list \<Rightarrow> svc_error + bytes" where
  "write_params [] = Inr []"
| "write_params ((key, val) # ps) =
     (if 65535 < length val then Inl ValueTooLong
      else (case write_params ps of
              Inl e \<Rightarrow> Inl e
            | Inr out \<Rightarrow> Inr (putBE16 key @ putBE16 (of_nat (length val)) @ val @ out)))"

definition Encode :: "Params \<Rightarrow> svc_error + bytes" where
  "Encode p =
     (case Forbidden p of
        (k, _) # _ \<Rightarrow> Inl (ForbiddenKey k)
      | [] \<Rightarrow>
        (case (if p_ALPN p = [] then Inr [] else map_sum id (\<lambda>v. [(keyALPN, v)]) (encodeALPN (p_ALPN p))) of
           Inl e \<Rightarrow> Inl e
         | Inr alpn \<Rightarrow>
           let port = (if p_Port p = 0 then [] else [(keyPort, putBE16 (p_Port p))]) in
           if 65535 < length (p_DohPath p) then Inl DohPathTooLong
           else
             let doh = (if p_DohPath p = [] then [] else [(keyDohPath, bytes_of (p_DohPath p))])
             in write_params (sort_key fst (alpn @ port @ doh))))"

section \<open>A reader\<close>

text \<open>The keys must be strictly ascending; \<open>last\<close> is the previous one.\<close>

function read_params :: "u16 option \<Rightarrow> bytes \<Rightarrow> (u16 \<times> bytes) list option" where
  "read_params prev b =
     (if b = [] then Some []
      else if length b < 4 then None
      else
        let key = getBE16 b; n = unat (getBE16 (drop 2 b)); rest = drop 4 b in
        if length rest < n \<or> (\<exists>k. prev = Some k \<and> key \<le> k) then None
        else map_option (\<lambda>ps. (key, take n rest) # ps) (read_params (Some key) (drop n rest)))"
  by pat_completeness auto
termination
  by (relation "measure (\<lambda>(prev, b). length b)") auto

function read_alpn :: "bytes \<Rightarrow> string list option" where
  "read_alpn [] = Some []"
| "read_alpn (n # b) =
     (if n = 0 \<or> length b < unat n then None
      else map_option (\<lambda>ids. string_of (take (unat n) b) # ids) (read_alpn (drop (unat n) b)))"
  by pat_completeness auto
termination
  by (relation "measure length") auto

declare read_params.simps [simp del] read_alpn.simps(2) [simp del]

section \<open>The encoder and the reader\<close>

lemma read_alpn_encodeALPN: "encodeALPN ids = Inr b \<Longrightarrow> read_alpn b = Some ids"
proof (induction ids arbitrary: b)
  case (Cons ident ids)
  then obtain out where out: "encodeALPN ids = Inr out" and b: "b = of_nat (length ident) # bytes_of ident @ out"
    and l: "0 < length ident" "length ident \<le> 255"
    by (auto split: if_splits sum.splits)
  have n: "unat (of_nat (length ident) :: byte) = length ident" using l by (simp add: unat_of_nat)
  then have "(of_nat (length ident) :: byte) \<noteq> 0" using l by auto
  with Cons.IH [OF out] n show ?case by (simp add: b read_alpn.simps(2))
qed simp

fun ascending :: "u16 option \<Rightarrow> u16 list \<Rightarrow> bool" where
  "ascending prev [] = True"
| "ascending prev (k # ks) = ((\<forall>j. prev = Some j \<longrightarrow> j < k) \<and> ascending (Some k) ks)"

lemma read_params_write:
  "write_params ps = Inr b \<Longrightarrow> ascending prev (map fst ps) \<Longrightarrow> read_params prev b = Some ps"
proof (induction ps arbitrary: b prev)
  case Nil
  then show ?case by (simp add: read_params.simps)
next
  case (Cons p ps)
  obtain key val where p: "p = (key, val)" by (cases p)
  with Cons.prems obtain out where out: "write_params ps = Inr out" and len: "length val \<le> 65535"
    and b: "b = putBE16 key @ putBE16 (of_nat (length val)) @ val @ out"
    by (auto split: if_splits sum.splits)
  have asc: "\<forall>j. prev = Some j \<longrightarrow> j < key" "ascending (Some key) (map fst ps)"
    using Cons.prems(2) p by simp_all
  have d: "drop 2 b = putBE16 (of_nat (length val)) @ val @ out" "drop 4 b = val @ out"
    by (simp_all add: b drop_append_eq [of "putBE16 key @ putBE16 (of_nat (length val))" 4, simplified])
  have n: "unat (of_nat (length val) :: u16) = length val" using len by (simp add: unat_of_nat)
  have "\<not> (\<exists>k. prev = Some k \<and> key \<le> k)" using asc(1) by auto
  then show ?case
    using Cons.IH [OF out asc(2)] n by (subst read_params.simps) (auto simp: d p Let_def, simp_all add: b)
qed

text \<open>What a client should find, in the order it must appear.\<close>

definition expected :: "Params \<Rightarrow> bytes \<Rightarrow> (u16 \<times> bytes) list" where
  "expected p alpn =
     (if p_ALPN p = [] then [] else [(keyALPN, alpn)]) @
     (if p_Port p = 0 then [] else [(keyPort, putBE16 (p_Port p))]) @
     (if p_DohPath p = [] then [] else [(keyDohPath, bytes_of (p_DohPath p))])"

lemma Encode_Inr:
  assumes "Encode p = Inr b"
  shows "Forbidden p = [] \<and> (\<exists>alpn. encodeALPN (p_ALPN p) = Inr alpn \<and> write_params (expected p alpn) = Inr b)"
proof -
  have sorted: "sort_key fst (expected p alpn) = expected p alpn" for alpn
    by (simp add: expected_def)
  show ?thesis
    using assms sorted
    by (auto simp: Encode_def expected_def Let_def map_sum_def split: list.splits sum.splits if_splits)
qed

lemma ascending_expected: "ascending None (map fst (expected p alpn))"
  by (simp add: expected_def)

text \<open>
  a client that reads the encoded parameters, insisting on strictly ascending keys as RFC 9460
  requires, finds exactly the configured ones: the ALPN ids, the port and the DoH path that were
  set, and nothing else.
\<close>

lemma svcparams_read_back:
  assumes "Encode p = Inr b"
  shows "\<exists>alpn. read_alpn alpn = Some (p_ALPN p) \<and>
    read_params None b = Some
      ((if p_ALPN p = [] then [] else [(1, alpn)]) @
       (if p_Port p = 0 then [] else [(3, putBE16 (p_Port p))]) @
       (if p_DohPath p = [] then [] else [(7, bytes_of (p_DohPath p))]))"
  using Encode_Inr [OF assms] read_alpn_encodeALPN read_params_write [OF _ ascending_expected]
  unfolding expected_def by blast

lemma svcparams_read_back_witness:
  "\<exists>b alpn. Encode \<lparr>Forbidden = [], p_DohPath = ''/q'', p_ALPN = [''dot'', ''h3''], p_Port = 853\<rparr> = Inr b \<and>
     read_alpn alpn = Some [''dot'', ''h3''] \<and>
     read_params None b = Some [(1, alpn), (3, putBE16 853), (7, bytes_of ''/q'')]"
proof -
  let ?p = "\<lparr>Forbidden = [], p_DohPath = ''/q'', p_ALPN = [''dot'', ''h3''], p_Port = 853\<rparr> :: Params"
  obtain b where "Encode ?p = Inr b" by (simp add: Encode_def Let_def)
  with svcparams_read_back [OF this] show ?thesis by auto
qed

end
