(* ===== verification/Go_Config.thy ===== *)
theory Go_Config
  imports Go_Text
begin

text \<open>
  What the plugins' \<open>setup\<close> functions use to read a Corefile: the token stream of a block, \<open>fmt.Sscanf\<close> with the verb
  \<open>%d\<close> and \<open>time.ParseDuration\<close>, on byte strings. Nothing here models code of the repository.
\<close>

section \<open>Blocks\<close>

text \<open>
  The lines of a block, each with its property name. A property that takes one argument leaves the further tokens of its line
  to be read as the next property.
\<close>

fun tokens :: "(string \<times> string list) list \<Rightarrow> nat" where
  "tokens [] = 0"
| "tokens ((n, args) # ls) = Suc (length args) + tokens ls"

definition push_line :: "string list \<Rightarrow> (string \<times> string list) list \<Rightarrow> (string \<times> string list) list" where
  "push_line extra ls = (case extra of [] \<Rightarrow> ls | x # xs \<Rightarrow> (x, xs) # ls)"

lemma tokens_push_line: "length extra \<le> length args \<Longrightarrow> tokens (push_line extra ls) < tokens ((name, args) # ls)"
  by (cases extra) (simp_all add: push_line_def)

section \<open>Numbers\<close>

text \<open>
  The runes \<open>fmt\<close> skips before a number, in UTF-8; a line feed is not among them. \<open>Sscanf\<close> reads an optional sign and the
  longest run of decimal digits, and leaves the rest of the text unread.
\<close>

definition scan_spaces :: "string list" where
  "scan_spaces =
     [[CHR 0x09], [CHR 0x0B], [CHR 0x0C], [CHR 0x0D], [CHR 0x20], [CHR 0xC2, CHR 0x85], [CHR 0xC2, CHR 0xA0],
      [CHR 0xE1, CHR 0x9A, CHR 0x80]] @
     map (\<lambda>n. [CHR 0xE2, CHR 0x80, char_of (n :: nat)]) ([0x80..<0x8B] @ [0xA8, 0xA9, 0xAF]) @
     [[CHR 0xE2, CHR 0x81, CHR 0x9F], [CHR 0xE3, CHR 0x80, CHR 0x80]]"

definition leading_space :: "string \<Rightarrow> nat" where
  "leading_space s = (case filter (\<lambda>sp. has_prefix s sp) scan_spaces of [] \<Rightarrow> 0 | sp # _ \<Rightarrow> length sp)"

lemma leading_space_le: "leading_space s \<le> length s"
proof (cases "filter (\<lambda>sp. has_prefix s sp) scan_spaces")
  case (Cons sp sps)
  then have "sp \<in> set (filter (\<lambda>sp. has_prefix s sp) scan_spaces)" by simp
  then have "take (length sp) s = sp" by (simp add: has_prefix_def)
  then have "length sp \<le> length s" by (metis length_take min.cobounded1)
  then show ?thesis using Cons by (simp add: leading_space_def)
qed (simp add: leading_space_def)

function SkipSpace :: "string \<Rightarrow> string" where
  "SkipSpace s = (if leading_space s = 0 then s else SkipSpace (drop (leading_space s) s))"
  by pat_completeness auto

termination
proof (relation "measure length", goal_cases)
  case (2 s)
  then show ?case using leading_space_le [of s] by auto
qed simp

declare SkipSpace.simps [simp del]

definition decimal :: "char \<Rightarrow> bool" where
  "decimal c \<longleftrightarrow> CHR ''0'' \<le> c \<and> c \<le> CHR ''9''"

definition Sscanf_d :: "string \<Rightarrow> int option" where
  "Sscanf_d s0 =
     (let s = SkipSpace s0;
          neg = (s \<noteq> [] \<and> hd s = CHR ''-'');
          s = (if s \<noteq> [] \<and> (hd s = CHR ''+'' \<or> hd s = CHR ''-'') then tl s else s);
          ds = takeWhile decimal s in
      if ds = [] then None
      else case digits_val 10 0 ds of
             None \<Rightarrow> None
           | Some n \<Rightarrow>
               let v = (if neg then - int n else int n) in
               if - (2 ^ 63) \<le> v \<and> v < 2 ^ 63 then Some v else None)"

section \<open>Floating point\<close>

text \<open>
  A positive \<open>float64\<close> as a fraction: rounding to 53 significant bits, half to even. The magnitudes below stay far from
  overflow and from subnormal numbers.
\<close>

function bit_len :: "int \<Rightarrow> int" where
  "bit_len n = (if n \<le> 0 then 0 else 1 + bit_len (n div 2))"

  by pat_completeness auto

termination
  by (relation "measure nat") auto

declare bit_len.simps [simp del]

definition round_even :: "int \<Rightarrow> int \<Rightarrow> int" where
  "round_even p q =
     (let m = p div q; r = p mod q in if 2 * r > q \<or> 2 * r = q \<and> odd m then m + 1 else m)"

definition to_float :: "int \<times> int \<Rightarrow> int \<times> int" where
  "to_float x =
     (case x of (p, q) \<Rightarrow>
        if p = 0 then (0, 1)
        else
          let e = bit_len p - bit_len q - 53;
              scaled = (\<lambda>e. if e \<ge> 0 then (p, q * 2 ^ nat e) else (p * 2 ^ nat (- e), q));
              e = (let (p', q') = scaled e in if p' div q' \<ge> 2 ^ 53 then e + 1 else e);
              (p', q') = scaled e;
              m = round_even p' q' in
          if e \<ge> 0 then (m * 2 ^ nat e, 1) else (m, 2 ^ nat (- e)))"

definition float_mul :: "int \<times> int \<Rightarrow> int \<times> int \<Rightarrow> int \<times> int" where
  "float_mul x y = to_float (fst x * fst y, snd x * snd y)"

definition float_div :: "int \<times> int \<Rightarrow> int \<times> int \<Rightarrow> int \<times> int" where
  "float_div x y = to_float (fst x * snd y, snd x * fst y)"

section \<open>Durations\<close>

definition unitMap :: "string \<Rightarrow> int option" where
  "unitMap u =
     (if u = ''ns'' then Some 1
      else if u = ''us'' \<or> u = [CHR 0xC2, CHR 0xB5, CHR ''s''] \<or> u = [CHR 0xCE, CHR 0xBC, CHR ''s''] then Some 1000
      else if u = ''ms'' then Some 1000000
      else if u = ''s'' then Some 1000000000
      else if u = ''m'' then Some (60 * 1000000000)
      else if u = ''h'' then Some (3600 * 1000000000)
      else None)"

definition digit_of :: "char \<Rightarrow> int" where
  "digit_of c = of_char c - 48"

text \<open>\<open>leadingInt\<close>: \<open>None\<close> is its overflow.\<close>

fun leadingInt :: "int \<Rightarrow> string \<Rightarrow> (int \<times> string) option" where
  "leadingInt x [] = Some (x, [])"
| "leadingInt x (c # s) =
     (if \<not> decimal c then Some (x, c # s)
      else if x > 2 ^ 63 div 10 then None
      else if x * 10 + digit_of c > 2 ^ 63 then None
      else leadingInt (x * 10 + digit_of c) s)"

text \<open>\<open>leadingFraction\<close>: digits after an overflow are dropped.\<close>

fun leadingFraction :: "int \<Rightarrow> int \<times> int \<Rightarrow> bool \<Rightarrow> string \<Rightarrow> int \<times> (int \<times> int) \<times> string" where
  "leadingFraction x scale overflow [] = (x, scale, [])"
| "leadingFraction x scale overflow (c # s) =
     (if \<not> decimal c then (x, scale, c # s)
      else if overflow then leadingFraction x scale True s
      else if x > (2 ^ 63 - 1) div 10 then leadingFraction x scale True s
      else if x * 10 + digit_of c > 2 ^ 63 then leadingFraction x scale True s
      else leadingFraction (x * 10 + digit_of c) (float_mul scale (10, 1)) False s)"

lemma leadingInt_length: "leadingInt x s = Some (n, s') \<Longrightarrow> length s' \<le> length s"
  by (induction x s rule: leadingInt.induct) (auto split: if_splits simp: Let_def)

lemma leadingFraction_length: "leadingFraction x sc ov s = (f, sc', s') \<Longrightarrow> length s' \<le> length s"
  by (induction x sc ov s rule: leadingFraction.induct) (auto split: if_splits simp: Let_def)

text \<open>One number with its unit, in nanoseconds, and the rest.\<close>

definition duration_part :: "string \<Rightarrow> (int \<times> string) option" where
  "duration_part s =
     (if s = [] \<or> \<not> (hd s = CHR ''.'' \<or> decimal (hd s)) then None
      else case leadingInt 0 s of
             None \<Rightarrow> None
           | Some (v, s1) \<Rightarrow>
               let pre = (length s1 \<noteq> length s);
                   (f, scale, s2) = (if s1 \<noteq> [] \<and> hd s1 = CHR ''.'' then leadingFraction 0 (1, 1) False (tl s1) else (0, (1, 1), s1));
                   post = (s1 \<noteq> [] \<and> hd s1 = CHR ''.'' \<and> length s2 \<noteq> length (tl s1)) in
               if \<not> pre \<and> \<not> post then None
               else
                 let u = takeWhile (\<lambda>c. \<not> (c = CHR ''.'' \<or> decimal c)) s2;
                     rest = drop (length u) s2 in
                 if u = [] then None
                 else case unitMap u of
                        None \<Rightarrow> None
                      | Some unit \<Rightarrow>
                          if v > 2 ^ 63 div unit then None
                          else
                            let v = v * unit in
                            if f > 0
                            then
                              let (p, q) = float_mul (to_float (f, 1)) (float_div (unit, 1) scale);
                                  v = v + p div q in
                              if v > 2 ^ 63 then None else Some (v, rest)
                            else Some (v, rest))"

lemma duration_part_shorter:
  assumes "duration_part s = Some (v, rest)"
  shows "length rest < length s"
proof -
  obtain v0 s1 where i: "leadingInt 0 s = Some (v0, s1)"
    using assms by (auto simp: duration_part_def split: if_splits option.splits)
  define r where "r = (if s1 \<noteq> [] \<and> hd s1 = CHR ''.'' then leadingFraction 0 (1, 1) False (tl s1) else (0, (1, 1), s1))"
  obtain f sc s2 where r2: "r = (f, sc, s2)" by (cases r)
  let ?u = "takeWhile (\<lambda>c. \<not> (c = CHR ''.'' \<or> decimal c)) s2"
  have "length s2 \<le> length s1"
    using r2 leadingFraction_length [of 0 "(1, 1)" False "tl s1" f sc s2] by (auto simp: r_def split: if_splits)
  moreover have "length s1 \<le> length s" using leadingInt_length [OF i] .
  moreover have "?u \<noteq> []" "rest = drop (length ?u) s2"
    using assms i r2 [unfolded r_def] by (auto simp: duration_part_def Let_def split: if_splits option.splits prod.splits)
  moreover have "length ?u \<le> length s2" by (rule length_takeWhile_le)
  ultimately show ?thesis by (cases ?u) auto
qed

text \<open>The sum wraps at 64 bits, as the accumulator does.\<close>

function duration_sum :: "int \<Rightarrow> string \<Rightarrow> int option" where
  "duration_sum d s =
     (if s = [] then Some d
      else case duration_part s of
             None \<Rightarrow> None
           | Some (v, rest) \<Rightarrow>
               let d = (d + v) mod 2 ^ 64 in
               if d > 2 ^ 63 then None else duration_sum d rest)"
  by pat_completeness auto

termination
  by (relation "measure (\<lambda>(_, s). length s)") (auto dest: duration_part_shorter)

declare duration_sum.simps [simp del]

definition ParseDuration :: "string \<Rightarrow> int option" where
  "ParseDuration s0 =
     (let neg = (s0 \<noteq> [] \<and> hd s0 = CHR ''-'');
          s = (if s0 \<noteq> [] \<and> (hd s0 = CHR ''-'' \<or> hd s0 = CHR ''+'') then tl s0 else s0) in
      if s = ''0'' then Some 0
      else if s = [] then None
      else case duration_sum 0 s of
             None \<Rightarrow> None
           | Some d \<Rightarrow>
               if neg then Some (- d)
               else if d > 2 ^ 63 - 1 then None else Some d)"

lemma duration_sum_range: "0 \<le> d \<Longrightarrow> d \<le> 2 ^ 63 \<Longrightarrow> duration_sum d s = Some r \<Longrightarrow> 0 \<le> r \<and> r \<le> 2 ^ 63"
proof (induction d s rule: duration_sum.induct)
  case (1 d s)
  show ?case
  proof (cases "s = []")
    case False
    then obtain v rest where v: "duration_part s = Some (v, rest)" "(d + v) mod 2 ^ 64 \<le> 2 ^ 63" "duration_sum ((d + v) mod 2 ^ 64) rest = Some r"
      using 1(4) by (auto simp: duration_sum.simps [of d s] Let_def split: option.splits if_splits)
    have "0 \<le> (d + v) mod 2 ^ 64" by simp
    from 1(1) [OF False v(1) refl refl _ this v(2) v(3)] v(2) show ?thesis by simp
  qed (use 1 in \<open>simp add: duration_sum.simps\<close>)
qed

lemma ParseDuration_bounds: "ParseDuration s = Some d \<Longrightarrow> - (2 ^ 63) \<le> d \<and> d \<le> 2 ^ 63 - 1"
  using duration_sum_range [of 0 s] duration_sum_range [of 0 "tl s"]
  by (auto simp: ParseDuration_def Let_def split: if_splits option.splits)

text \<open>Durations an operator writes.\<close>

lemma durations_read:
  "ParseDuration ''10s'' = Some 10000000000" "ParseDuration ''500ms'' = Some 500000000"
  "ParseDuration ''1h30m'' = Some (90 * 60 * 1000000000)" "ParseDuration ''1.5h'' = Some (90 * 60 * 1000000000)"
  "ParseDuration ''.1us'' = Some 100" "ParseDuration ''10'' = None" "ParseDuration ''-1m'' = Some (- 60000000000)"
  by code_simp+

end
