(* ===== verification/Radnr_Config.thy ===== *)
theory Radnr_Config
  imports Dnr Svcparams Go_Config
begin

text \<open>
  \<open>radnr/internal/config/config.go\<close>, the Corefile block of \<open>radnr/setup.go\<close> and \<open>BuildRA\<close> of
  \<open>radnr/internal/advertiser/advertiser.go\<close>: which configurations are accepted and the Router
  Advertisement they give. \<open>parseAddr\<close> is \<open>netip.ParseAddr\<close>.
\<close>

section \<open>Configuration\<close>

record Config =
  Interface :: string
  c_ADN :: string
  c_DohPath :: string
  UnicastTarget :: string
  c_Addrs :: "string list"
  c_ALPN :: "string list"
  AdvertisePrefixes :: "string list"
  c_Port :: u16
  RouterLifetime :: u16
  AdvertiseRDNSS :: bool
  AllowDefaultRouter :: bool
  DryRun :: bool

datatype config_error =
  InterfaceRequired | ADNRequired | BadADN | NoAddress | InvalidAddress | NotAnIPv6Address | EmptyALPNId
| DefaultRouterRefused | PrefixesForbidden | InvalidUnicast
| ArgError | UnknownDirective string | InvalidNumber

definition ipv6_text :: "(string \<Rightarrow> addr option) \<Rightarrow> string \<Rightarrow> bool" where
  "ipv6_text parseAddr a = (case parseAddr a of None \<Rightarrow> False | Some ip \<Rightarrow> Is6 ip \<and> \<not> Is4In6 ip)"

fun validate_each :: "(string \<Rightarrow> addr option) \<Rightarrow> string list \<Rightarrow> config_error option" where
  "validate_each parseAddr [] = None"
| "validate_each parseAddr (a # as) =
     (case parseAddr a of
        None \<Rightarrow> Some InvalidAddress
      | Some ip \<Rightarrow> if \<not> Is6 ip \<or> Is4In6 ip then Some NotAnIPv6Address else validate_each parseAddr as)"

definition validateAddrs :: "(string \<Rightarrow> addr option) \<Rightarrow> string list \<Rightarrow> config_error option" where
  "validateAddrs parseAddr addrs = (if addrs = [] then Some NoAddress else validate_each parseAddr addrs)"

definition validateUnicastTarget :: "(string \<Rightarrow> addr option) \<Rightarrow> string \<Rightarrow> config_error option" where
  "validateUnicastTarget parseAddr target =
     (if target = [] then None
      else (case parseAddr target of
              None \<Rightarrow> Some InvalidUnicast
            | Some ip \<Rightarrow> if \<not> Is6 ip \<or> Is4In6 ip then Some InvalidUnicast else None))"

definition ldh :: "char \<Rightarrow> bool" where
  "ldh c \<longleftrightarrow> CHR ''0'' \<le> c \<and> c \<le> CHR ''9'' \<or> CHR ''A'' \<le> c \<and> c \<le> CHR ''Z'' \<or>
     CHR ''a'' \<le> c \<and> c \<le> CHR ''z'' \<or> c = CHR ''-''"

definition validateADN :: "string \<Rightarrow> config_error option" where
  "validateADN name =
     (let name = trim_suffix name ''.'' in
      if name = [] then Some BadADN
      else if list_ex (\<lambda>label. label = [] \<or> list_ex (\<lambda>c. \<not> ldh c) label) (split_on CHR ''.'' name) then Some BadADN
      else None)"

definition config_Validate :: "(string \<Rightarrow> addr option) \<Rightarrow> Config \<Rightarrow> config_error option" where
  "config_Validate parseAddr c =
     (if Interface c = [] then Some InterfaceRequired
      else if c_ADN c = [] then Some ADNRequired
      else (case validateADN (c_ADN c) of Some e \<Rightarrow> Some e | None \<Rightarrow>
            case validateAddrs parseAddr (c_Addrs c) of Some e \<Rightarrow> Some e | None \<Rightarrow>
            if [] \<in> set (c_ALPN c) then Some EmptyALPNId
            else if RouterLifetime c \<noteq> 0 \<and> \<not> AllowDefaultRouter c then Some DefaultRouterRefused
            else if AdvertisePrefixes c \<noteq> [] then Some PrefixesForbidden
            else validateUnicastTarget parseAddr (UnicastTarget c)))"

section \<open>The Corefile block\<close>

text \<open>
  One property line with the rest of the block. A property that takes one argument leaves further
  tokens of its line to be read as the next property; one that takes none, or all, does not.
\<close>

definition one_arg :: "string list \<Rightarrow> (string \<Rightarrow> config_error + Config) \<Rightarrow> config_error + Config \<times> string list" where
  "one_arg args f =
     (case args of [] \<Rightarrow> Inl ArgError | a # extra \<Rightarrow> map_sum id (\<lambda>cfg. (cfg, extra)) (f a))"

definition no_arg :: "string list \<Rightarrow> Config \<Rightarrow> config_error + Config \<times> string list" where
  "no_arg args cfg = (if args \<noteq> [] then Inl ArgError else Inr (cfg, []))"

definition all_args :: "string list \<Rightarrow> Config \<Rightarrow> config_error + Config \<times> string list" where
  "all_args args cfg = (if args = [] then Inl ArgError else Inr (cfg, []))"

definition parse_u16 :: "string \<Rightarrow> (u16 \<Rightarrow> Config) \<Rightarrow> config_error + Config" where
  "parse_u16 s f = (case parse_uint 10 16 s of None \<Rightarrow> Inl InvalidNumber | Some n \<Rightarrow> Inr (f (of_nat n)))"

definition directive :: "string \<Rightarrow> string list \<Rightarrow> Config \<Rightarrow> config_error + Config \<times> string list" where
  "directive name args cfg =
     (if name = ''interface'' then one_arg args (\<lambda>a. Inr (cfg\<lparr>Interface := a\<rparr>))
      else if name = ''adn'' then one_arg args (\<lambda>a. Inr (cfg\<lparr>c_ADN := a\<rparr>))
      else if name = ''addr'' then all_args args (cfg\<lparr>c_Addrs := c_Addrs cfg @ args\<rparr>)
      else if name = ''alpn'' then all_args args (cfg\<lparr>c_ALPN := args\<rparr>)
      else if name = ''port'' then one_arg args (\<lambda>a. parse_u16 a (\<lambda>n. cfg\<lparr>c_Port := n\<rparr>))
      else if name = ''dohpath'' then one_arg args (\<lambda>a. Inr (cfg\<lparr>c_DohPath := a\<rparr>))
      else if name = ''unicast'' then one_arg args (\<lambda>a. Inr (cfg\<lparr>UnicastTarget := a\<rparr>))
      else if name = ''rdnss'' then no_arg args (cfg\<lparr>AdvertiseRDNSS := True\<rparr>)
      else if name = ''dry-run'' then no_arg args (cfg\<lparr>DryRun := True\<rparr>)
      else if name = ''router-lifetime'' then one_arg args (\<lambda>a. parse_u16 a (\<lambda>n. cfg\<lparr>RouterLifetime := n\<rparr>))
      else if name = ''allow-default-router'' then no_arg args (cfg\<lparr>AllowDefaultRouter := True\<rparr>)
      else if name = ''advertise-prefix'' then all_args args (cfg\<lparr>AdvertisePrefixes := AdvertisePrefixes cfg @ args\<rparr>)
      else Inl (UnknownDirective name))"

text \<open>The block loop; every step consumes at least one token.\<close>

lemma directive_consumes:
  "directive name args cfg = Inr (cfg', extra) \<Longrightarrow> tokens (push_line extra ls) < tokens ((name, args) # ls)"
  by (auto simp: directive_def one_arg_def no_arg_def all_args_def push_line_def map_sum_def
      split: if_splits list.splits sum.splits)

function parse_block :: "(string \<times> string list) list \<Rightarrow> Config \<Rightarrow> config_error + Config" where
  "parse_block [] cfg = Inr cfg"
| "parse_block ((name, args) # ls) cfg =
     (case directive name args cfg of
        Inl e \<Rightarrow> Inl e
      | Inr (cfg', extra) \<Rightarrow> parse_block (push_line extra ls) cfg')"
  by pat_completeness auto
termination
  by (relation "measure (\<lambda>(ls, cfg). tokens ls)") (auto dest: directive_consumes simp del: tokens.simps)

declare parse_block.simps(2) [simp del]

definition empty_Config :: Config where
  "empty_Config =
     \<lparr>Interface = [], c_ADN = [], c_DohPath = [], UnicastTarget = [], c_Addrs = [], c_ALPN = [],
      AdvertisePrefixes = [], c_Port = 0, RouterLifetime = 0, AdvertiseRDNSS = False,
      AllowDefaultRouter = False, DryRun = False\<rparr>"

text \<open>\<open>parse\<close> reads every \<open>radnr\<close> directive of the server block into one configuration.\<close>

fun radnr_parse :: "(string \<times> string list) list list \<Rightarrow> Config \<Rightarrow> config_error + Config" where
  "radnr_parse [] cfg = Inr cfg"
| "radnr_parse (b # bs) cfg = (case parse_block b cfg of Inl e \<Rightarrow> Inl e | Inr cfg' \<Rightarrow> radnr_parse bs cfg')"

definition radnr_setup :: "(string \<Rightarrow> addr option) \<Rightarrow> (string \<times> string list) list list \<Rightarrow> config_error + Config" where
  "radnr_setup parseAddr blocks =
     (case radnr_parse blocks empty_Config of
        Inl e \<Rightarrow> Inl e
      | Inr cfg \<Rightarrow> (case config_Validate parseAddr cfg of Some e \<Rightarrow> Inl e | None \<Rightarrow> Inr cfg))"

section \<open>The Router Advertisement\<close>

datatype ndp_option = RawOption byte byte bytes | RecursiveDNSServer nat "addr list"

record RouterAdvertisement =
  CurrentHopLimit :: nat
  ManagedConfiguration :: bool
  OtherConfiguration :: bool
  ra_RouterLifetime :: nat
  ra_Options :: "ndp_option list"

datatype build_error =
  ConfigInvalid config_error | SvcParamsInvalid svc_error | ADNInvalid dnr_error | OptionInvalid dnr_error | Panic

text \<open>\<open>netip.MustParseAddr\<close> on every address: \<open>None\<close> is its panic.\<close>

fun must_parse :: "(string \<Rightarrow> addr option) \<Rightarrow> string list \<Rightarrow> addr list option" where
  "must_parse parseAddr [] = Some []"
| "must_parse parseAddr (a # as) =
     (case parseAddr a of None \<Rightarrow> None | Some ip \<Rightarrow> map_option ((#) ip) (must_parse parseAddr as))"

abbreviation (input) "defaultLifetime \<equiv> 3600 :: u32"

definition BuildRA :: "(string \<Rightarrow> addr option) \<Rightarrow> Config \<Rightarrow> build_error + RouterAdvertisement" where
  "BuildRA parseAddr c =
     (case config_Validate parseAddr c of Some e \<Rightarrow> Inl (ConfigInvalid e) | None \<Rightarrow>
      case Encode \<lparr>Forbidden = [], p_DohPath = c_DohPath c, p_ALPN = c_ALPN c, p_Port = c_Port c\<rparr> of
        Inl e \<Rightarrow> Inl (SvcParamsInvalid e) | Inr sp \<Rightarrow>
      case must_parse parseAddr (c_Addrs c) of None \<Rightarrow> Inl Panic | Some addrs \<Rightarrow>
      case ParseDomainName (c_ADN c) of Inl e \<Rightarrow> Inl (ADNInvalid e) | Inr adn \<Rightarrow>
      case Marshal \<lparr>ADN = adn, Addrs = addrs, SvcParams = sp, ServicePriority = 1, Lifetime = defaultLifetime\<rparr> of
        Inl e \<Rightarrow> Inl (OptionInvalid e) | Inr raw \<Rightarrow>
      Inr \<lparr>CurrentHopLimit = 0, ManagedConfiguration = False, OtherConfiguration = False,
           ra_RouterLifetime = unat (RouterLifetime c),
           ra_Options = [RawOption 144 (raw ! 1) (drop 2 raw)] @
             (if AdvertiseRDNSS c then [RecursiveDNSServer 3600 addrs] else [])\<rparr>)"

section \<open>What a built advertisement says\<close>

lemma must_parse_Some: "must_parse parseAddr as = Some ips \<longleftrightarrow> map parseAddr as = map Some ips"
  by (induction as arbitrary: ips) (auto split: option.splits simp: Cons_eq_map_conv)

lemma BuildRA_Inr:
  assumes "BuildRA parseAddr c = Inr ra"
  obtains sp addrs adn raw where "config_Validate parseAddr c = None"
    "Encode \<lparr>Forbidden = [], p_DohPath = c_DohPath c, p_ALPN = c_ALPN c, p_Port = c_Port c\<rparr> = Inr sp"
    "map parseAddr (c_Addrs c) = map Some addrs" "ParseDomainName (c_ADN c) = Inr adn"
    "Marshal \<lparr>ADN = adn, Addrs = addrs, SvcParams = sp, ServicePriority = 1, Lifetime = 3600\<rparr> = Inr raw"
    "ra = \<lparr>CurrentHopLimit = 0, ManagedConfiguration = False, OtherConfiguration = False,
           ra_RouterLifetime = unat (RouterLifetime c),
           ra_Options = [RawOption 144 (raw ! 1) (drop 2 raw)] @
             (if AdvertiseRDNSS c then [RecursiveDNSServer 3600 addrs] else [])\<rparr>"
  using assms unfolding BuildRA_def
  by (auto split: option.splits sum.splits simp: must_parse_Some)

text \<open>
  C16: the safety rules of the plugin. An advertisement that is built announces a default router
  (a nonzero Router Lifetime) only if the operator allowed it, sets no M or O flag and no hop limit,
  and carries an Encrypted DNS option and at most an RDNSS option, so no prefix is ever advertised.
\<close>

theorem built_advertisement_is_safe:
  assumes "BuildRA parseAddr c = Inr ra"
  shows "(ra_RouterLifetime ra = 0 \<or> AllowDefaultRouter c) \<and> \<not> ManagedConfiguration ra \<and> \<not> OtherConfiguration ra \<and>
    CurrentHopLimit ra = 0 \<and> AdvertisePrefixes c = [] \<and>
    (\<exists>len val. ra_Options ra = [RawOption 144 len val] \<or>
      (\<exists>addrs. ra_Options ra = [RawOption 144 len val, RecursiveDNSServer 3600 addrs]))"
proof -
  obtain sp addrs adn raw where v: "config_Validate parseAddr c = None" and
    "ra = \<lparr>CurrentHopLimit = 0, ManagedConfiguration = False, OtherConfiguration = False,
           ra_RouterLifetime = unat (RouterLifetime c),
           ra_Options = [RawOption 144 (raw ! 1) (drop 2 raw)] @
             (if AdvertiseRDNSS c then [RecursiveDNSServer 3600 addrs] else [])\<rparr>"
    using assms by (rule BuildRA_Inr)
  moreover have "(RouterLifetime c = 0 \<or> AllowDefaultRouter c) \<and> AdvertisePrefixes c = []"
    using v by (auto simp: config_Validate_def split: if_splits option.splits)
  ultimately show ?thesis by auto
qed

text \<open>
  C15: end to end. The Encrypted DNS option of a built advertisement, parsed by a receiver, names the
  configured resolver: the configured domain name (without its final dot), exactly the configured
  addresses in order, and service parameters in which a reader of RFC 9460 finds exactly the configured
  ALPN ids, port and DoH path under keys 1, 3 and 7, those that are set and nothing else.
\<close>

theorem advertised_option_names_the_resolver:
  assumes "BuildRA parseAddr c = Inr ra"
  shows "\<exists>len val rest o'. ra_Options ra = RawOption 144 len val # rest \<and> Unmarshal (144 # len # val) = Inr o' \<and>
    ADN o' = trim_suffix (c_ADN c) ''.'' \<and> map Some (Addrs o') = map parseAddr (c_Addrs c) \<and>
    ServicePriority o' = 1 \<and> Lifetime o' = 3600 \<and>
    (\<exists>alpn. read_alpn alpn = Some (c_ALPN c) \<and>
      read_params None (SvcParams o') = Some
        ((if c_ALPN c = [] then [] else [(1, alpn)]) @
         (if c_Port c = 0 then [] else [(3, putBE16 (c_Port c))]) @
         (if c_DohPath c = [] then [] else [(7, bytes_of (c_DohPath c))])))"
proof -
  obtain sp addrs adn raw where
    enc: "Encode \<lparr>Forbidden = [], p_DohPath = c_DohPath c, p_ALPN = c_ALPN c, p_Port = c_Port c\<rparr> = Inr sp" and
    addrs: "map parseAddr (c_Addrs c) = map Some addrs" and adn: "ParseDomainName (c_ADN c) = Inr adn" and
    raw: "Marshal \<lparr>ADN = adn, Addrs = addrs, SvcParams = sp, ServicePriority = 1, Lifetime = 3600\<rparr> = Inr raw" and
    ra: "ra = \<lparr>CurrentHopLimit = 0, ManagedConfiguration = False, OtherConfiguration = False,
           ra_RouterLifetime = unat (RouterLifetime c),
           ra_Options = [RawOption 144 (raw ! 1) (drop 2 raw)] @
             (if AdvertiseRDNSS c then [RecursiveDNSServer 3600 addrs] else [])\<rparr>"
    using assms by (rule BuildRA_Inr)
  let ?o = "\<lparr>ADN = adn, Addrs = addrs, SvcParams = sp, ServicePriority = 1, Lifetime = 3600\<rparr>"
  have name: "adn = trim_suffix (c_ADN c) ''.''" "DomainName_ok adn"
    using adn by (auto simp: ParseDomainName_Inr)
  have ok: "option_ok ?o" using raw name by (auto simp: option_ok_def Marshal_def split: option.splits)
  obtain len val where shape: "raw = 144 # len # val"
    using Marshal_body [of ?o] ok raw by (auto simp: option_ok_def)
  have "Unmarshal (144 # len # val) = Inr ?o"
    using Unmarshal_Marshal [OF ok raw, of "[]"] shape by simp
  then show ?thesis using ra shape svcparams_read_back [OF enc] addrs name by auto
qed

section \<open>A concrete configuration\<close>

definition example_Config :: Config where
  "example_Config = empty_Config\<lparr>Interface := ''e'', c_ADN := ''d.e.'', c_Addrs := [''::1''], c_ALPN := [''h2''],
     AdvertiseRDNSS := True\<rparr>"

definition example_ParseAddr :: "string \<Rightarrow> addr option" where
  "example_ParseAddr s = Some (Addr6 1 [])"

lemma example_config_valid: "config_Validate example_ParseAddr example_Config = None"
  by (simp add: config_Validate_def example_Config_def empty_Config_def validateADN_def Let_def trim_suffix_dot
      ldh_def validateAddrs_def example_ParseAddr_def validateUnicastTarget_def Is4In6.simps)

lemma example_builds: "\<exists>ra. BuildRA example_ParseAddr example_Config = Inr ra"
proof -
  obtain sp where sp: "Encode \<lparr>Forbidden = [], p_DohPath = c_DohPath example_Config, p_ALPN = c_ALPN example_Config,
      p_Port = c_Port example_Config\<rparr> = Inr sp" "length sp = 7"
    by (simp add: Encode_def example_Config_def empty_Config_def)
  have adn: "ParseDomainName (c_ADN example_Config) = Inr ''d.e''"
    by (simp add: ParseDomainName_def example_Config_def empty_Config_def trim_suffix_dot)
  have "Validate \<lparr>ADN = ''d.e'', Addrs = [Addr6 1 []], SvcParams = sp, ServicePriority = 1, Lifetime = 3600\<rparr> = None"
    using sp by (simp add: Validate_None wireSize_def Let_def)
  then obtain raw where raw: "Marshal \<lparr>ADN = ''d.e'', Addrs = [Addr6 1 []], SvcParams = sp, ServicePriority = 1, Lifetime = 3600\<rparr> = Inr raw"
    using Marshal_body by blast
  have "must_parse example_ParseAddr (c_Addrs example_Config) = Some [Addr6 1 []]"
    by (simp add: example_ParseAddr_def example_Config_def empty_Config_def)
  then show ?thesis
    by (simp add: BuildRA_def example_config_valid sp adn raw)
qed

theorem built_advertisement_is_safe_witness:
  "\<exists>ra. BuildRA example_ParseAddr example_Config = Inr ra \<and> ra_RouterLifetime ra = 0 \<and> \<not> ManagedConfiguration ra"
  using example_builds built_advertisement_is_safe [of example_ParseAddr example_Config]
  by (auto simp: example_Config_def empty_Config_def)

theorem advertised_option_names_the_resolver_witness:
  "\<exists>o' len val alpn. Unmarshal (144 # len # val) = Inr o' \<and> ADN o' = ''d.e'' \<and> Addrs o' = [Addr6 1 []] \<and>
     read_params None (SvcParams o') = Some [(1, alpn)] \<and> read_alpn alpn = Some [''h2'']"
proof -
  obtain ra where "BuildRA example_ParseAddr example_Config = Inr ra" using example_builds by blast
  from advertised_option_names_the_resolver [OF this] obtain len val o' alpn where "Unmarshal (144 # len # val) = Inr o'"
    "ADN o' = trim_suffix (c_ADN example_Config) ''.''" "map Some (Addrs o') = map example_ParseAddr (c_Addrs example_Config)"
    "read_alpn alpn = Some (c_ALPN example_Config)"
    "read_params None (SvcParams o') = Some
        ((if c_ALPN example_Config = [] then [] else [(1, alpn)]) @
         (if c_Port example_Config = 0 then [] else [(3, putBE16 (c_Port example_Config))]) @
         (if c_DohPath example_Config = [] then [] else [(7, bytes_of (c_DohPath example_Config))]))"
    by blast
  then show ?thesis
    by (intro exI [of _ o'] exI [of _ len] exI [of _ val] exI [of _ alpn])
      (simp add: example_Config_def empty_Config_def trim_suffix_dot example_ParseAddr_def map_eq_Cons_conv)
qed

text \<open>
  the configuration check is weaker than the encoder's: a domain name with a label of 64 octets is
  accepted at setup and at start-up, and then refused when the advertisement is built.
\<close>

lemma validated_config_may_not_build:
  "config_Validate example_ParseAddr (example_Config\<lparr>c_ADN := replicate 64 CHR ''a''\<rparr>) = None \<and>
   BuildRA example_ParseAddr (example_Config\<lparr>c_ADN := replicate 64 CHR ''a''\<rparr>) = Inl (ADNInvalid LabelTooLong)"
proof -
  let ?n = "replicate 64 CHR ''a''"
  have "CHR ''.'' \<notin> set ?n" "?n \<noteq> []" "last ?n = CHR ''a''" by simp_all
  then have split: "split_on CHR ''.'' ?n = [?n]" "trim_suffix ?n ''.'' = ?n"
    by (simp_all only: split_no_sep trim_suffix_dot) simp_all
  have v: "config_Validate example_ParseAddr (example_Config\<lparr>c_ADN := ?n\<rparr>) = None"
    using example_config_valid
    by (simp add: config_Validate_def validateADN_def split Let_def example_Config_def empty_Config_def
        list_ex_iff ldh_def split: option.splits)
  have "ParseDomainName ?n = Inl LabelTooLong"
    by (simp add: ParseDomainName_def split)
  then have "BuildRA example_ParseAddr (example_Config\<lparr>c_ADN := ?n\<rparr>) = Inl (ADNInvalid LabelTooLong)"
    using v by (simp add: BuildRA_def Encode_def example_Config_def empty_Config_def example_ParseAddr_def)
  with v show ?thesis by simp
qed

end
