(* ===== verification/Lifecycle.thy ===== *)
theory Lifecycle
  imports Prelude
begin

text \<open>
  The background loops of \<open>radnr/radnr.go\<close> and \<open>sni_tls/reload.go\<close>: both plugins register every loop
  they start in a process-wide map, and every start stops the loops of other server instances.

  A handle's identity (its pointer) is a number that is never reused. \<open>live\<close> is the set of loops
  whose context has not been cancelled, with the plugin object that started each; it is what the
  two registries control and the contract is about. An object's owner (the Caddy instance it was set
  up for) is fixed.
\<close>

section \<open>The contract\<close>

locale lifecycle =
  fixes wf :: "'s \<Rightarrow> bool"
    and startup :: "'i \<Rightarrow> 's \<Rightarrow> 's"
    and shutdown :: "'i \<Rightarrow> 's \<Rightarrow> 's"
    and loops :: "'s \<Rightarrow> ('i \<times> nat) set"
    and owner :: "'i \<Rightarrow> 'o"
  assumes startup_wf: "wf s \<Longrightarrow> wf (startup i s)"
    and shutdown_wf: "wf s \<Longrightarrow> wf (shutdown i s)"
    and startup_loops: "wf s \<Longrightarrow>
      \<exists>n. loops (startup i s) = insert (i, n) {(j, m) \<in> loops s. j \<noteq> i \<and> owner j = owner i}"
    and shutdown_loops: "wf s \<Longrightarrow> loops (shutdown i s) = {(j, m) \<in> loops s. j \<noteq> i}"
begin

text \<open>Any sequence of starts (\<open>Inl\<close>) and stops (\<open>Inr\<close>).\<close>

definition event :: "'i + 'i \<Rightarrow> 's \<Rightarrow> 's" where
  "event e s = (case e of Inl i \<Rightarrow> startup i s | Inr i \<Rightarrow> shutdown i s)"

definition run :: "('i + 'i) list \<Rightarrow> 's \<Rightarrow> 's" where
  "run es s = fold event es s"

lemma run_wf: "wf s \<Longrightarrow> wf (run es s)"
  unfolding run_def
  by (induction es arbitrary: s) (auto simp: event_def startup_wf shutdown_wf split: sum.split)

lemma event_loops:
  assumes "wf s" and "\<forall>(j, m) \<in> loops s. \<forall>(k, n) \<in> loops s. (j = k \<longrightarrow> m = n) \<and> owner j = owner k"
  shows "\<forall>(j, m) \<in> loops (event e s). \<forall>(k, n) \<in> loops (event e s). (j = k \<longrightarrow> m = n) \<and> owner j = owner k"
proof (cases e)
  case (Inl i)
  obtain n where "loops (startup i s) = insert (i, n) {(j, m) \<in> loops s. j \<noteq> i \<and> owner j = owner i}"
    using startup_loops [OF assms(1)] by blast
  with Inl assms(2) show ?thesis by (auto simp: event_def)
next
  case (Inr i)
  with assms show ?thesis by (auto simp: event_def shutdown_loops)
qed

lemma run_loops:
  assumes "wf s" and "loops s = {}"
  shows "\<forall>(j, m) \<in> loops (run es s). \<forall>(k, n) \<in> loops (run es s). (j = k \<longrightarrow> m = n) \<and> owner j = owner k"
proof -
  have "wf s \<Longrightarrow> \<forall>(j, m) \<in> loops s. \<forall>(k, n) \<in> loops s. (j = k \<longrightarrow> m = n) \<and> owner j = owner k \<Longrightarrow>
      \<forall>(j, m) \<in> loops (run es s). \<forall>(k, n) \<in> loops (run es s). (j = k \<longrightarrow> m = n) \<and> owner j = owner k" for s
  proof (induction es arbitrary: s)
    case Nil
    then show ?case by (simp add: run_def)
  next
    case (Cons e es)
    have "wf (event e s)" using Cons.prems(1) by (auto simp: event_def startup_wf shutdown_wf split: sum.split)
    from Cons.IH [OF this event_loops [OF Cons.prems]] show ?case by (simp add: run_def)
  qed
  with assms show ?thesis by simp
qed

lemma stopped_has_no_loop: "wf s \<Longrightarrow> (i, n) \<notin> loops (shutdown i s)"
  by (simp add: shutdown_loops)

lemma started_has_a_loop: "wf s \<Longrightarrow> \<exists>n. (i, n) \<in> loops (startup i s)"
  using startup_loops [of s i] by auto

end

section \<open>The registry\<close>

record 'o handle =
  h_id :: nat
  h_owner :: 'o

record ('i, 'o) proc =
  registry :: "'o handle list"
  running :: "'i \<Rightarrow> 'o handle option"
  fresh :: nat
  live :: "('i \<times> nat) list"

text \<open>\<open>h.cancel()\<close> for the handles of a list.\<close>

definition cancel_all :: "'o handle list \<Rightarrow> ('i \<times> nat) list \<Rightarrow> ('i \<times> nat) list" where
  "cancel_all hs l = filter (\<lambda>(i, n). n \<notin> set (map h_id hs)) l"

definition adopt :: "('i \<Rightarrow> 'o) \<Rightarrow> 'i \<Rightarrow> ('i, 'o) proc \<Rightarrow> ('i, 'o) proc" where
  "adopt owner_of r st =
     (let doomed = filter (\<lambda>h. Some h = running st r \<or> h_owner h \<noteq> owner_of r) (registry st);
          kept = filter (\<lambda>h. \<not> (Some h = running st r \<or> h_owner h \<noteq> owner_of r)) (registry st);
          new = \<lparr>h_id = fresh st, h_owner = owner_of r\<rparr>
      in \<lparr>registry = new # kept, running = (running st)(r := Some new), fresh = Suc (fresh st),
          live = (r, fresh st) # cancel_all doomed (live st)\<rparr>)"

definition OnShutdown :: "'i \<Rightarrow> ('i, 'o) proc \<Rightarrow> ('i, 'o) proc" where
  "OnShutdown r st =
     (case running st r of
        None \<Rightarrow> st
      | Some h \<Rightarrow>
        st\<lparr>live := cancel_all [h] (live st), registry := filter (\<lambda>x. x \<noteq> h) (registry st),
          running := (running st)(r := None)\<rparr>)"

text \<open>\<open>RADNR.OnStartup\<close>: the configuration is checked and the socket opened before anything is stopped.\<close>

definition OnStartup :: "('i \<Rightarrow> 'o) \<Rightarrow> bool \<Rightarrow> bool \<Rightarrow> 'i \<Rightarrow> ('i, 'o) proc \<Rightarrow> bool \<times> ('i, 'o) proc" where
  "OnStartup owner_of config_valid dial_ok r st =
     (if \<not> config_valid then (False, st)
      else if \<not> dial_ok then (False, st)
      else (True, adopt owner_of r st))"

text \<open>\<open>sni_tls\<close> has the same registry for its poll loops.\<close>

definition poller_adopt :: "('i \<Rightarrow> 'o) \<Rightarrow> 'i \<Rightarrow> ('i, 'o) proc \<Rightarrow> ('i, 'o) proc" where
  "poller_adopt owner_of l st =
     (let doomed = filter (\<lambda>h. Some h = running st l \<or> h_owner h \<noteq> owner_of l) (registry st);
          kept = filter (\<lambda>h. \<not> (Some h = running st l \<or> h_owner h \<noteq> owner_of l)) (registry st);
          new = \<lparr>h_id = fresh st, h_owner = owner_of l\<rparr>
      in \<lparr>registry = new # kept, running = (running st)(l := Some new), fresh = Suc (fresh st),
          live = (l, fresh st) # cancel_all doomed (live st)\<rparr>)"

definition poller_OnStartup :: "('i \<Rightarrow> 'o) \<Rightarrow> 'i \<Rightarrow> ('i, 'o) proc \<Rightarrow> ('i, 'o) proc" where
  "poller_OnStartup owner_of l st = poller_adopt owner_of l st"

definition poller_OnShutdown :: "'i \<Rightarrow> ('i, 'o) proc \<Rightarrow> ('i, 'o) proc" where
  "poller_OnShutdown l st =
     (case running st l of
        None \<Rightarrow> st
      | Some h \<Rightarrow>
        st\<lparr>live := cancel_all [h] (live st), registry := filter (\<lambda>x. x \<noteq> h) (registry st),
          running := (running st)(l := None)\<rparr>)"

definition proc_init :: "('i, 'o) proc" where
  "proc_init = \<lparr>registry = [], running = (\<lambda>_. None), fresh = 0, live = []\<rparr>"

section \<open>The registry keeps the contract\<close>

text \<open>
  Identities are below \<open>fresh\<close>; every object's handle carries its owner and no two objects share one;
  the live loops are exactly the registered handles, under the objects that hold them.
\<close>

definition proc_ok :: "('i \<Rightarrow> 'o) \<Rightarrow> ('i, 'o) proc \<Rightarrow> bool" where
  "proc_ok owner_of st \<longleftrightarrow>
     (\<forall>i h. running st i = Some h \<longrightarrow> h_id h < fresh st \<and> h_owner h = owner_of i) \<and>
     (\<forall>i j h g. running st i = Some h \<and> running st j = Some g \<and> h_id h = h_id g \<longrightarrow> i = j) \<and>
     (\<forall>h\<in>set (registry st). \<exists>i. running st i = Some h) \<and>
     set (live st) = {(i, h_id h) | i h. running st i = Some h \<and> h \<in> set (registry st)}"

lemma proc_ok_live:
  "proc_ok owner_of st \<Longrightarrow> (i, n) \<in> set (live st) \<longleftrightarrow> (\<exists>h. running st i = Some h \<and> h_id h = n \<and> h \<in> set (registry st))"
  by (auto simp: proc_ok_def)

lemma set_cancel_all: "set (cancel_all hs l) = {(i, n) \<in> set l. n \<notin> h_id ` set hs}"
  by (auto simp: cancel_all_def)

lemma poller_same: "poller_adopt = adopt" "poller_OnShutdown = OnShutdown"
  by (simp_all add: fun_eq_iff poller_adopt_def adopt_def poller_OnShutdown_def OnShutdown_def)

lemma proc_okD:
  assumes "proc_ok owner_of st"
  shows "running st i = Some h \<Longrightarrow> h_id h < fresh st" "running st i = Some h \<Longrightarrow> h_owner h = owner_of i"
    and "running st i = Some h \<Longrightarrow> running st j = Some g \<Longrightarrow> h_id h = h_id g \<Longrightarrow> i = j"
    and "h \<in> set (registry st) \<Longrightarrow> \<exists>i. running st i = Some h"
proof -
  note c = assms [unfolded proc_ok_def]
  show "running st i = Some h \<Longrightarrow> h_id h < fresh st" "running st i = Some h \<Longrightarrow> h_owner h = owner_of i"
    using c [THEN conjunct1] by blast+
  show "running st i = Some h \<Longrightarrow> running st j = Some g \<Longrightarrow> h_id h = h_id g \<Longrightarrow> i = j"
    using c [THEN conjunct2, THEN conjunct1] by blast
  show "h \<in> set (registry st) \<Longrightarrow> \<exists>i. running st i = Some h"
    using c [THEN conjunct2, THEN conjunct2, THEN conjunct1] by blast
qed

lemma proc_ok_same:
  assumes ok: "proc_ok owner_of st" and "running st j = Some h" "g \<in> set (registry st)" "h_id g = h_id h"
  shows "g = h"
proof -
  obtain i where i: "running st i = Some g" using proc_okD(4) [OF ok assms(3)] by blast
  then have "i = j" using proc_okD(3) [OF ok i assms(2)] assms(4) by blast
  with i assms(2) show ?thesis by simp
qed

lemma adopt_live:
  assumes ok: "proc_ok owner_of st"
  shows "set (live (adopt owner_of r st)) =
    insert (r, fresh st) {(j, m) \<in> set (live st). j \<noteq> r \<and> owner_of j = owner_of r}"
proof -
  let ?bad = "\<lambda>h. Some h = running st r \<or> h_owner h \<noteq> owner_of r"
  have *: "n \<notin> h_id ` set (filter ?bad (registry st)) \<longleftrightarrow> j \<noteq> r \<and> owner_of j = owner_of r"
    if l: "(j, n) \<in> set (live st)" for j n
  proof -
    obtain h where h: "running st j = Some h" "h_id h = n" "h \<in> set (registry st)"
      using l proc_ok_live [OF ok] by blast
    have own: "h_owner h = owner_of j" by (rule proc_okD(2) [OF ok h(1)])
    have "n \<in> h_id ` set (filter ?bad (registry st)) \<longleftrightarrow> ?bad h"
    proof
      assume "n \<in> h_id ` set (filter ?bad (registry st))"
      then obtain g where g: "g \<in> set (registry st)" "?bad g" "h_id g = h_id h" using h(2) by auto
      then have "g = h" by (intro proc_ok_same [OF ok h(1)])
      with g show "?bad h" by simp
    qed (use h in auto)
    moreover have "Some h = running st r \<longleftrightarrow> j = r"
      using proc_okD(3) [OF ok h(1), of r h] h(1) by fastforce
    ultimately show ?thesis using own by simp
  qed
  have "set (live (adopt owner_of r st)) =
      insert (r, fresh st) {(j, n) \<in> set (live st). n \<notin> h_id ` set (filter ?bad (registry st))}"
    by (simp add: adopt_def Let_def set_cancel_all)
  also have "{(j, n) \<in> set (live st). n \<notin> h_id ` set (filter ?bad (registry st))} =
      {(j, n) \<in> set (live st). j \<noteq> r \<and> owner_of j = owner_of r}"
    using * by (intro Collect_cong) (simp add: case_prod_beta cong: conj_cong)
  finally show ?thesis .
qed

lemma OnShutdown_live:
  assumes ok: "proc_ok owner_of st"
  shows "set (live (OnShutdown r st)) = {(j, m) \<in> set (live st). j \<noteq> r}"
proof (cases "running st r")
  case None
  then have "(r, n) \<notin> set (live st)" for n using proc_ok_live [OF ok] by simp
  with None show ?thesis by (auto simp: OnShutdown_def)
next
  case (Some h)
  have "n \<noteq> h_id h \<longleftrightarrow> j \<noteq> r" if l: "(j, n) \<in> set (live st)" for j n
  proof -
    obtain g where g: "running st j = Some g" "h_id g = n" using l proc_ok_live [OF ok] by blast
    then show ?thesis using proc_okD(3) [OF ok g(1) Some] Some by auto
  qed
  with Some show ?thesis by (auto simp: OnShutdown_def set_cancel_all)
qed

lemma proc_ok_adopt:
  assumes ok: "proc_ok owner_of st"
  shows "proc_ok owner_of (adopt owner_of r st)"
proof -
  let ?new = "\<lparr>h_id = fresh st, h_owner = owner_of r\<rparr>" and ?st = "adopt owner_of r st"
  have run: "running ?st = (running st)(r := Some ?new)" and fr: "fresh ?st = Suc (fresh st)"
    and reg: "set (registry ?st) = insert ?new {h \<in> set (registry st). Some h \<noteq> running st r \<and> h_owner h = owner_of r}"
    by (auto simp: adopt_def Let_def)
  have lt: "\<And>i h. running st i = Some h \<Longrightarrow> h_id h < fresh st" using proc_okD(1) [OF ok] .
  have live: "set (live ?st) = {(i, h_id h) | i h. running ?st i = Some h \<and> h \<in> set (registry ?st)}" (is "?L = ?R")
  proof (rule set_eqI)
    fix x :: "'a \<times> nat"
    obtain i n where x: "x = (i, n)" by (cases x)
    show "x \<in> ?L \<longleftrightarrow> x \<in> ?R"
    proof (cases "i = r")
      case True
      then show ?thesis by (auto simp: x adopt_live [OF ok] run reg)
    next
      case False
      have "Some h \<noteq> running st r" if "running st i = Some h" for h
        using proc_okD(3) [OF ok that, of r h] False by auto
      moreover have "h \<noteq> ?new" if "running st i = Some h" for h using lt [OF that] by auto
      ultimately show ?thesis
        using False proc_okD(2) [OF ok] by (auto simp: x adopt_live [OF ok] run reg proc_ok_live [OF ok])
    qed
  qed
  show ?thesis
    unfolding proc_ok_def live
  proof (intro conjI allI ballI impI)
    fix i h
    assume "running ?st i = Some h"
    then show "h_id h < fresh ?st" "h_owner h = owner_of i"
      using lt [THEN less_SucI] proc_okD(2) [OF ok] by (auto simp: run fr split: if_splits)
  next
    fix i j h g
    assume "running ?st i = Some h \<and> running ?st j = Some g \<and> h_id h = h_id g"
    then show "i = j"
      using lt proc_okD(3) [OF ok] by (auto simp: run split: if_splits) (metis less_irrefl)+
  next
    fix h
    assume "h \<in> set (registry ?st)"
    then show "\<exists>i. running ?st i = Some h"
      using proc_okD(4) [OF ok] by (auto simp: run reg) metis+
  qed simp
qed

lemma proc_ok_OnShutdown:
  assumes ok: "proc_ok owner_of st"
  shows "proc_ok owner_of (OnShutdown r st)"
proof (cases "running st r")
  case None
  with ok show ?thesis by (simp add: OnShutdown_def)
next
  case (Some h)
  let ?st = "OnShutdown r st"
  have run: "running ?st = (running st)(r := None)" and fr: "fresh ?st = fresh st"
    and reg: "set (registry ?st) = {x \<in> set (registry st). x \<noteq> h}"
    using Some by (auto simp: OnShutdown_def)
  have ne: "g \<noteq> h" if "running st i = Some g" "i \<noteq> r" for i g
    using proc_okD(3) [OF ok that(1) Some] that(2) by auto
  have live: "set (live ?st) = {(i, h_id g) | i g. running ?st i = Some g \<and> g \<in> set (registry ?st)}"
    using ne by (auto simp: OnShutdown_live [OF ok] run reg proc_ok_live [OF ok])
  show ?thesis
    unfolding proc_ok_def live
  proof (intro conjI allI ballI impI)
    fix g
    assume "g \<in> set (registry ?st)"
    then show "\<exists>i. running ?st i = Some g"
    proof -
      have g: "g \<in> set (registry st)" "g \<noteq> h" using \<open>g \<in> set (registry ?st)\<close> by (simp_all add: reg)
      then obtain i where i: "running st i = Some g" using proc_okD(4) [OF ok] by blast
      with Some g(2) have "i \<noteq> r" by auto
      with i show ?thesis by (auto simp: run)
    qed
  qed (use proc_okD(1,2,3) [OF ok] in \<open>auto simp: run fr split: if_splits\<close>)
qed

lemma proc_ok_init: "proc_ok owner_of proc_init"
  by (simp add: proc_ok_def proc_init_def)

interpretation advertisers: lifecycle "proc_ok owner_of" "adopt owner_of" OnShutdown "\<lambda>st. set (live st)" owner_of
  for owner_of :: "'i \<Rightarrow> 'o"
  by unfold_locales (auto simp: proc_ok_adopt proc_ok_OnShutdown adopt_live OnShutdown_live)

interpretation pollers: lifecycle "proc_ok owner_of" "poller_OnStartup owner_of" poller_OnShutdown
  "\<lambda>st. set (live st)" owner_of
  for owner_of :: "'i \<Rightarrow> 'o"
  unfolding poller_OnStartup_def [abs_def] poller_same
  by unfold_locales (auto simp: proc_ok_adopt proc_ok_OnShutdown adopt_live OnShutdown_live)

section \<open>What the server sees\<close>

text \<open>The hooks Caddy calls: starts (with the outcome of the checks before \<open>adopt\<close>) and stops.\<close>

datatype 'i hook = Start 'i bool bool | Stop 'i

definition call_hook :: "('i \<Rightarrow> 'o) \<Rightarrow> 'i hook \<Rightarrow> ('i, 'o) proc \<Rightarrow> ('i, 'o) proc" where
  "call_hook owner_of e st =
     (case e of
        Start r config_valid dial_ok \<Rightarrow> snd (OnStartup owner_of config_valid dial_ok r st)
      | Stop r \<Rightarrow> OnShutdown r st)"

definition effective :: "'i hook \<Rightarrow> ('i + 'i) list" where
  "effective e = (case e of Start r v d \<Rightarrow> if v \<and> d then [Inl r] else [] | Stop r \<Rightarrow> [Inr r])"

lemma call_hooks_run: "fold (call_hook owner_of) es st = advertisers.run owner_of (concat (map effective es)) st"
  by (induction es arbitrary: st)
    (auto simp: call_hook_def effective_def OnStartup_def advertisers.run_def advertisers.event_def split: hook.splits)

text \<open>
  C37: whatever order Caddy calls the start, restart, restart-failed and shutdown hooks in, failed starts
  included, no advertiser loop is orphaned: all loops still running belong to one server instance,
  no plugin object has two, and stopping an object leaves none of its loops.
\<close>

theorem no_orphaned_advertisers:
  fixes owner_of :: "'i \<Rightarrow> 'o"
  assumes "(i, m) \<in> set (live (fold (call_hook owner_of) es proc_init))"
    and "(j, n) \<in> set (live (fold (call_hook owner_of) es proc_init))"
  shows "owner_of i = owner_of j \<and> (i = j \<longrightarrow> m = n) \<and>
    (i, m) \<notin> set (live (call_hook owner_of (Stop i) (fold (call_hook owner_of) es proc_init)))"
proof -
  let ?st = "fold (call_hook owner_of) es proc_init"
  have ok: "proc_ok owner_of ?st"
    unfolding call_hooks_run by (rule advertisers.run_wf [OF proc_ok_init])
  have "\<forall>(i, m)\<in>set (live ?st). \<forall>(j, n)\<in>set (live ?st). (i = j \<longrightarrow> m = n) \<and> owner_of i = owner_of j"
    unfolding call_hooks_run
    by (rule advertisers.run_loops [OF proc_ok_init]) (simp add: proc_init_def)
  moreover have "(i, m) \<notin> set (live (OnShutdown i ?st))"
    by (rule advertisers.stopped_has_no_loop [OF ok])
  ultimately show ?thesis using assms by (auto simp: call_hook_def)
qed

definition example_hooks :: "nat hook list" where
  "example_hooks = [Start 1 True True, Start 2 True True, Start 3 True False, Start 4 True True]"

theorem no_orphaned_advertisers_witness:
  "even (2::nat) = even (4::nat) \<and>
   (2, 1) \<notin> set (live (call_hook even (Stop 2) (fold (call_hook even) example_hooks proc_init)))"
proof -
  have "(2, 1) \<in> set (live (fold (call_hook even) example_hooks proc_init))"
    and "(4, 2) \<in> set (live (fold (call_hook even) example_hooks proc_init))"
    by code_simp+
  from no_orphaned_advertisers [OF this] show ?thesis by blast
qed

end
