(* ===== verification/Ra_Shutdown.thy ===== *)
theory Ra_Shutdown
  imports Ra_Schedule Radnr_Config Lifecycle
begin

text \<open>
  The connection of an advertiser and its end: \<open>radnr/conn.go\<close>, the socket set-up of \<open>radnr/radnr.go\<close>, and the two goroutines
  of \<open>Run\<close> in \<open>radnr/internal/advertiser/advertiser.go\<close> with the channel between them, the context and the connection. Opening
  an interface and its socket are parameters.
\<close>

section \<open>The dry-run connection\<close>

text \<open>\<open>nopConn\<close> is its \<open>closed\<close> channel; a read that would block has no value.\<close>

datatype read_error = ErrClosed | ReadFailed

record nopConn =
  closed_ch :: bool

definition newNopConn :: nopConn where
  "newNopConn = \<lparr>closed_ch = False\<rparr>"

definition nop_WriteTo :: "nopConn \<Rightarrow> nopConn \<times> bool" where
  "nop_WriteTo c = (c, True)"

definition nop_ReadFrom :: "nopConn \<Rightarrow> (read_error + 'm) option" where
  "nop_ReadFrom c = (if closed_ch c then Some (Inl ErrClosed) else None)"

definition nop_Close :: "nopConn \<Rightarrow> nopConn" where
  "nop_Close c = (if closed_ch c then c else c\<lparr>closed_ch := True\<rparr>)"

section \<open>The socket\<close>

datatype dial_error = NoInterface | ListenFailed | JoinFailed | ControlFailed

text \<open>
  The calls on a socket are recorded: joining the all-routers group, asking for the hop limit, closing.
\<close>

datatype socket_call = JoinAllRouters | EnableHopLimit | CloseSocket

definition becomeRouter :: "bool \<Rightarrow> bool \<Rightarrow> dial_error option \<times> socket_call list" where
  "becomeRouter joinOk controlOk =
     (if \<not> joinOk then (Some JoinFailed, [JoinAllRouters])
      else if \<not> controlOk then (Some ControlFailed, [JoinAllRouters, EnableHopLimit])
      else (None, [JoinAllRouters, EnableHopLimit]))"

definition dialNDP :: "bool \<Rightarrow> bool \<Rightarrow> bool \<Rightarrow> nat \<Rightarrow> (dial_error + nat) \<times> socket_call list" where
  "dialNDP listenOk joinOk controlOk mtu =
     (if \<not> listenOk then (Inl ListenFailed, [])
      else
        (case becomeRouter joinOk controlOk of
           (Some e, calls) \<Rightarrow> (Inl e, calls @ [CloseSocket])
         | (None, calls) \<Rightarrow> (Inr mtu, calls)))"

text \<open>\<open>interfaceByName\<close> gives the MTU of an interface; a real connection is the size of its link and an open or closed socket.\<close>

definition ndpListen :: "(string \<Rightarrow> nat option) \<Rightarrow> bool \<Rightarrow> bool \<Rightarrow> bool \<Rightarrow> string \<Rightarrow> (dial_error + nat) \<times> socket_call list" where
  "ndpListen interfaceByName listenOk joinOk controlOk name =
     (case interfaceByName name of
        None \<Rightarrow> (Inl NoInterface, [])
      | Some mtu \<Rightarrow> dialNDP listenOk joinOk controlOk mtu)"

record routerConn =
  link_mtu :: nat
  sock_closed :: bool

definition newRouterConn :: "nat \<Rightarrow> routerConn" where
  "newRouterConn mtu = \<lparr>link_mtu = mtu, sock_closed = False\<rparr>"

datatype conn = NopConn nopConn | RouterConn routerConn

definition dial :: "(string \<Rightarrow> (dial_error + nat) \<times> socket_call list) \<Rightarrow> Config \<Rightarrow> (dial_error + conn) \<times> socket_call list" where
  "dial listenFn cfg =
     (if DryRun cfg then (Inr (NopConn newNopConn), [])
      else map_prod (map_sum id (RouterConn \<circ> newRouterConn)) id (listenFn (Interface cfg)))"

text \<open>\<open>routerConn.ReadFrom\<close> on what \<open>ReadRaw\<close> returns, packet after packet; without one it blocks.\<close>

definition minIPv6MTU :: nat where "minIPv6MTU = 1280"

definition read_buffer :: "nat \<Rightarrow> nat" where
  "read_buffer mtu = max mtu minIPv6MTU"

fun router_ReadFrom ::
  "(bytes \<Rightarrow> ndp_message option) \<Rightarrow> (read_error + bytes \<times> nat option \<times> addr) list \<Rightarrow>
     ((read_error + ndp_message \<times> nat option \<times> addr) \<times> (read_error + bytes \<times> nat option \<times> addr) list) option" where
  "router_ReadFrom parseMessage [] = None"
| "router_ReadFrom parseMessage (Inl e # rest) = Some (Inl ReadFailed, rest)"
| "router_ReadFrom parseMessage (Inr (b, cm, from_addr) # rest) =
     (case parseNDP parseMessage b of
        Some m \<Rightarrow> Some (Inr (m, cm, from_addr), rest)
      | None \<Rightarrow> router_ReadFrom parseMessage rest)"

text \<open>A socket that could not be set up is closed, and a connection that is used hears solicitations and their hop limits.\<close>

lemma dial_never_leaks_a_socket:
  assumes "dial (ndpListen ifs l j c) cfg = (r, calls)"
  shows "case r of
      Inl e \<Rightarrow> JoinAllRouters \<in> set calls \<longrightarrow> last calls = CloseSocket
    | Inr (RouterConn rc) \<Rightarrow> calls = [JoinAllRouters, EnableHopLimit] \<and> ifs (Interface cfg) = Some (link_mtu rc) \<and> \<not> sock_closed rc
    | Inr (NopConn n) \<Rightarrow> calls = [] \<and> DryRun cfg \<and> nop_ReadFrom n = (None :: (read_error + unit) option)"
  using assms
  by (auto simp: dial_def ndpListen_def dialNDP_def becomeRouter_def newNopConn_def newRouterConn_def nop_ReadFrom_def
      split: if_splits option.splits sum.splits)

section \<open>The Conn interface\<close>

text \<open>
  What \<open>Run\<close> relies on when it closes the connection under its reader: afterwards a read returns, and every read fails.
  \<open>reads c r\<close> says that a read on \<open>c\<close> can return \<open>r\<close>; a read that blocks returns nothing.
\<close>

locale closable_conn =
  fixes Close_conn :: "'c \<Rightarrow> 'c" and is_closed :: "'c \<Rightarrow> bool" and reads :: "'c \<Rightarrow> read_error + 'm \<Rightarrow> bool"
  assumes Close_closes: "is_closed (Close_conn c)"
    and closed_returns: "is_closed c \<Longrightarrow> \<exists>e. reads c (Inl e)"
    and closed_fails: "is_closed c \<Longrightarrow> reads c r \<Longrightarrow> isl r"
begin

lemma Close_unblocks: "\<exists>e. reads (Close_conn c) (Inl e)" "reads (Close_conn c) r \<Longrightarrow> isl r"
  using closed_returns closed_fails Close_closes by blast+

end

type_synonym received = "read_error + ndp_message \<times> nat option \<times> addr"

definition nop_reads :: "nopConn \<Rightarrow> received \<Rightarrow> bool" where
  "nop_reads c r \<longleftrightarrow> nop_ReadFrom c = Some r"

text \<open>
  A read on a socket loops over what \<open>ReadRaw\<close> returns, which is any packet, or an error; a closed socket returns errors only, as
  documented of \<open>net.PacketConn\<close>.
\<close>

inductive router_reads :: "(bytes \<Rightarrow> ndp_message option) \<Rightarrow> routerConn \<Rightarrow> received \<Rightarrow> bool" for parseMessage where
  "sock_closed c \<longrightarrow> isl x \<Longrightarrow> router_ReadFrom parseMessage (x # raw) = Some (r, rest) \<Longrightarrow> router_reads parseMessage c r"

definition router_Close :: "routerConn \<Rightarrow> routerConn" where
  "router_Close c = c\<lparr>sock_closed := True\<rparr>"

interpretation nop: closable_conn nop_Close closed_ch nop_reads
  by unfold_locales (auto simp: nop_Close_def nop_reads_def nop_ReadFrom_def)

interpretation router: closable_conn router_Close sock_closed "router_reads parseMessage"
proof
  show "\<exists>e. router_reads parseMessage c (Inl e)" for c
    by (rule exI [of _ ReadFailed], rule router_reads.intros [of _ "Inl ReadFailed" _ "[]"]) simp_all
qed (auto simp: router_Close_def isl_def elim!: router_reads.cases)

fun conn_reads :: "(bytes \<Rightarrow> ndp_message option) \<Rightarrow> conn \<Rightarrow> received \<Rightarrow> bool" where
  "conn_reads parseMessage (NopConn c) r \<longleftrightarrow> nop_reads c r"
| "conn_reads parseMessage (RouterConn c) r \<longleftrightarrow> router_reads parseMessage c r"

fun conn_Close :: "conn \<Rightarrow> conn" where
  "conn_Close (NopConn c) = NopConn (nop_Close c)"
| "conn_Close (RouterConn c) = RouterConn (router_Close c)"

fun conn_closed :: "conn \<Rightarrow> bool" where
  "conn_closed (NopConn c) \<longleftrightarrow> closed_ch c"
| "conn_closed (RouterConn c) \<longleftrightarrow> sock_closed c"

interpretation conn: closable_conn conn_Close conn_closed "conn_reads parseMessage"
proof
  show "conn_closed (conn_Close c)" for c by (cases c) (simp_all add: nop.Close_closes router.Close_closes)
  show "\<exists>e. conn_reads parseMessage c (Inl e)" if "conn_closed c" for c
    using that nop.closed_returns router.closed_returns by (cases c) auto
  show "isl r" if "conn_closed c" "conn_reads parseMessage c r" for c r
    using that nop.closed_fails router.closed_fails by (cases c) auto
qed

lemma dialled_open: "dial listenFn cfg = (Inr c, calls) \<Longrightarrow> \<not> conn_closed c"
  by (cases "fst (listenFn (Interface cfg))")
    (auto simp: dial_def newNopConn_def newRouterConn_def map_prod_def case_prod_beta split: if_splits)

section \<open>The two goroutines\<close>

text \<open>
  \<open>Run\<close> is before its first look at the context, in its loop, waiting for the reader after it closed the connection, or over;
  the reader is not started, reading, offering an address on the channel, or over. \<open>raBuilt\<close> is whether \<open>BuildRA\<close> succeeds.
\<close>

datatype run_pc = Starting | Looping | Closing | RunOver

datatype reader_pc = NotStarted | Reading | Offering addr | ReaderOver

record advertiser =
  raBuilt :: bool
  ctxDone :: bool
  aConn :: conn
  runPc :: run_pc
  readerPc :: reader_pc

definition adv_init :: "bool \<Rightarrow> conn \<Rightarrow> advertiser" where
  "adv_init built c = \<lparr>raBuilt = built, ctxDone = False, aConn = c, runPc = Starting, readerPc = NotStarted\<rparr>"

text \<open>What the reader does with what a read returned: an error ends it, a valid solicitation is offered.\<close>

definition reader_next :: "received \<Rightarrow> reader_pc" where
  "reader_next r =
     (case r of
        Inl _ \<Rightarrow> ReaderOver
      | Inr (RouterSolicitation options, cm, from_addr) \<Rightarrow>
          (if validSolicitation options cm from_addr then Offering from_addr else Reading)
      | Inr _ \<Rightarrow> Reading)"

text \<open>
  The steps: a context is cancelled once; the select of the loop takes any of its ready branches, and the timer may fire at any
  time; a read returns what the connection allows, and so not at all while a dry run's connection is open.
\<close>

inductive adv_step :: "(bytes \<Rightarrow> ndp_message option) \<Rightarrow> advertiser \<Rightarrow> advertiser \<Rightarrow> bool" for parseMessage where
  cancel: "\<not> ctxDone s \<Longrightarrow> adv_step parseMessage s (s\<lparr>ctxDone := True\<rparr>)"
| build_failed: "runPc s = Starting \<Longrightarrow> \<not> raBuilt s \<Longrightarrow> adv_step parseMessage s (s\<lparr>runPc := RunOver\<rparr>)"
| start_cancelled: "runPc s = Starting \<Longrightarrow> raBuilt s \<Longrightarrow> ctxDone s \<Longrightarrow>
    adv_step parseMessage s (s\<lparr>aConn := conn_Close (aConn s), runPc := RunOver\<rparr>)"
| start: "runPc s = Starting \<Longrightarrow> raBuilt s \<Longrightarrow> \<not> ctxDone s \<Longrightarrow> adv_step parseMessage s (s\<lparr>runPc := Looping, readerPc := Reading\<rparr>)"
| run_done: "runPc s = Looping \<Longrightarrow> ctxDone s \<Longrightarrow>
    adv_step parseMessage s (s\<lparr>aConn := conn_Close (aConn s), runPc := Closing\<rparr>)"
| run_timer: "runPc s = Looping \<Longrightarrow> adv_step parseMessage s s"
| run_solicited: "runPc s = Looping \<Longrightarrow> readerPc s = Offering a \<Longrightarrow> adv_step parseMessage s (s\<lparr>readerPc := Reading\<rparr>)"
| run_wait: "runPc s = Closing \<Longrightarrow> readerPc s = ReaderOver \<Longrightarrow> adv_step parseMessage s (s\<lparr>runPc := RunOver\<rparr>)"
| reader_reads: "readerPc s = Reading \<Longrightarrow> conn_reads parseMessage (aConn s) r \<Longrightarrow>
    adv_step parseMessage s (s\<lparr>readerPc := reader_next r\<rparr>)"
| reader_cancelled: "readerPc s = Offering a \<Longrightarrow> ctxDone s \<Longrightarrow> adv_step parseMessage s (s\<lparr>readerPc := ReaderOver\<rparr>)"

text \<open>\<open>OnStartup\<close> runs an advertiser on the connection it dialled.\<close>

inductive adv_reach :: "(bytes \<Rightarrow> ndp_message option) \<Rightarrow> advertiser \<Rightarrow> bool" for parseMessage where
  init: "dial listenFn cfg = (Inr c, calls) \<Longrightarrow> adv_reach parseMessage (adv_init built c)"
| step: "adv_reach parseMessage s \<Longrightarrow> adv_step parseMessage s s' \<Longrightarrow> adv_reach parseMessage s'"

inductive_cases adv_stepE: "adv_step parseMessage s s'"

section \<open>Shutdown\<close>

definition over :: "advertiser \<Rightarrow> bool" where
  "over s \<longleftrightarrow> runPc s = RunOver \<and> readerPc s \<in> {NotStarted, ReaderOver}"

definition adv_inv :: "advertiser \<Rightarrow> bool" where
  "adv_inv s \<longleftrightarrow> (runPc s = Starting \<longrightarrow> readerPc s = NotStarted) \<and> (readerPc s = NotStarted \<longrightarrow> runPc s \<in> {Starting, RunOver}) \<and>
     (runPc s = Closing \<or> runPc s = RunOver \<and> raBuilt s \<longrightarrow> ctxDone s \<and> conn_closed (aConn s)) \<and> (runPc s = RunOver \<longrightarrow> over s) \<and>
     (\<not> raBuilt s \<longrightarrow> runPc s \<in> {Starting, RunOver} \<and> readerPc s = NotStarted \<and> \<not> conn_closed (aConn s))"

lemma adv_inv_reach: "adv_reach parseMessage s \<Longrightarrow> adv_inv s"
proof (induction rule: adv_reach.induct)
  case init
  then show ?case using dialled_open by (simp add: adv_inv_def adv_init_def)
next
  case (step s s')
  have n: "reader_next x \<noteq> NotStarted" for x by (auto simp: reader_next_def split: sum.splits prod.splits ndp_message.splits)
  from step(2,3) show ?case by (cases rule: adv_step.cases) (auto simp: adv_inv_def over_def n conn.Close_closes)
qed

text \<open>The steps left once \<open>Run\<close> has closed the connection.\<close>

definition steps_left :: "advertiser \<Rightarrow> nat" where
  "steps_left s = (if runPc s = Closing then 1 else 0) + (if readerPc s \<in> {NotStarted, ReaderOver} then 0 else 1)"

lemma closing_step:
  assumes "adv_inv s" and "runPc s \<in> {Closing, RunOver}" and "ctxDone s" and "adv_step parseMessage s s'"
  shows "runPc s' \<in> {Closing, RunOver} \<and> steps_left s' < steps_left s"
  using assms(4)
proof cases
  case (reader_reads r)
  then have "runPc s = Closing" "conn_closed (aConn s)" using assms(1,2) by (auto simp: adv_inv_def over_def)
  moreover from this have "reader_next r = ReaderOver"
    using conn.closed_fails [OF _ reader_reads(3)] by (cases r) (auto simp: reader_next_def)
  ultimately show ?thesis using reader_reads by (simp add: steps_left_def)
qed (use assms(1-3) in \<open>auto simp: adv_inv_def steps_left_def over_def\<close>)

lemma step_keeps_cancelled: "adv_step parseMessage s s' \<Longrightarrow> ctxDone s \<Longrightarrow> ctxDone s'"
  by (erule adv_stepE) auto

lemma closing_bounded:
  assumes "(adv_step parseMessage ^^ n) s s'" and "runPc s \<in> {Closing, RunOver}" and "adv_reach parseMessage s" and "ctxDone s"
  shows "n \<le> steps_left s"
  using assms
proof (induction n arbitrary: s)
  case (Suc n)
  then obtain s1 where s1: "adv_step parseMessage s s1" "(adv_step parseMessage ^^ n) s1 s'" by (meson relpowp_Suc_E2)
  have c: "runPc s1 \<in> {Closing, RunOver} \<and> steps_left s1 < steps_left s"
    using closing_step [OF adv_inv_reach [OF Suc.prems(3)] Suc.prems(2,4) s1(1)] .
  with Suc.IH [OF s1(2) _ adv_reach.step [OF Suc.prems(3) s1(1)] step_keeps_cancelled [OF s1(1) Suc.prems(4)]] show ?case by simp
qed simp

lemma steps_left_bound: "steps_left s \<le> 2"
  by (simp add: steps_left_def)

text \<open>Whatever is not over can step, once the context is cancelled, and towards the end.\<close>

lemma not_stuck:
  assumes "adv_inv s" and "ctxDone s" and "\<not> over s"
  shows "\<exists>s'. adv_step parseMessage s s' \<and> runPc s' \<in> {Closing, RunOver}"
proof (cases "runPc s")
  case Starting
  then show ?thesis
    using adv_step.start_cancelled [of s parseMessage] adv_step.build_failed [of s parseMessage] assms(2) by (cases "raBuilt s") auto
next
  case Looping
  then show ?thesis using adv_step.run_done [of s parseMessage] assms(2) by auto
next
  case Closing
  then have c: "conn_closed (aConn s)" "readerPc s \<noteq> NotStarted" using assms(1) by (auto simp: adv_inv_def)
  obtain e where "conn_reads parseMessage (aConn s) (Inl e)" using conn.closed_returns [OF c(1)] by blast
  then show ?thesis
    using c(2) Closing assms(2) adv_step.run_wait [of s parseMessage] adv_step.reader_reads [of s parseMessage]
      adv_step.reader_cancelled [of s _ parseMessage]
    by (cases "readerPc s") force+
next
  case RunOver
  then show ?thesis using assms(1,3) by (simp add: adv_inv_def)
qed

lemma over_is_final: "over s \<Longrightarrow> ctxDone s \<Longrightarrow> \<not> adv_step parseMessage s s'"
  by (auto simp: over_def elim!: adv_stepE)

text \<open>Endless runs, and those in which neither the select nor the scheduler passes over the ready branch of the loop for ever.\<close>

definition endless :: "(bytes \<Rightarrow> ndp_message option) \<Rightarrow> (nat \<Rightarrow> advertiser) \<Rightarrow> bool" where
  "endless parseMessage run \<longleftrightarrow> (\<forall>n. adv_step parseMessage (run n) (run (Suc n)))"

definition fair_select :: "(nat \<Rightarrow> advertiser) \<Rightarrow> bool" where
  "fair_select run \<longleftrightarrow> (\<forall>n. runPc (run n) = Looping \<and> ctxDone (run n) \<longrightarrow> (\<exists>m\<ge>n. runPc (run m) \<noteq> Looping))"

lemma endless_reach: "endless parseMessage run \<Longrightarrow> adv_reach parseMessage (run 0) \<Longrightarrow> adv_reach parseMessage (run n)"
  by (induction n) (auto simp: endless_def intro: adv_reach.step)

lemma endless_cancelled: "endless parseMessage run \<Longrightarrow> ctxDone (run 0) \<Longrightarrow> ctxDone (run n)"
  by (induction n) (auto simp: endless_def intro: step_keeps_cancelled)

lemma endless_steps: "endless parseMessage run \<Longrightarrow> (adv_step parseMessage ^^ n) (run k) (run (k + n))"
  by (induction n) (auto simp: endless_def)

text \<open>An endless run of a cancelled advertiser stays in the loop.\<close>

lemma endless_loops:
  assumes run: "endless parseMessage run" and "adv_reach parseMessage (run 0)" and "ctxDone (run 0)"
  shows "runPc (run n) = Looping"
proof (rule ccontr)
  assume no: "runPc (run n) \<noteq> Looping"
  note r = endless_reach [OF run assms(2)] and c = endless_cancelled [OF run assms(3)]
  have closing: "runPc (run k) \<notin> {Closing, RunOver}" for k
    using closing_bounded [OF endless_steps [OF run, of 3] _ r c, of k] steps_left_bound [of "run k"] by fastforce
  then have "runPc (run n) = Starting" using no by (cases "runPc (run n)") auto
  moreover have "adv_step parseMessage (run n) (run (Suc n))" using run by (simp add: endless_def)
  ultimately have "runPc (run (Suc n)) = RunOver"
    using c [of n] adv_inv_reach [OF r [of n]] by (auto simp: adv_inv_def elim!: adv_stepE)
  with closing [of "Suc n"] show False by simp
qed

lemma cancelled_can_end:
  "adv_reach parseMessage s \<Longrightarrow> ctxDone s \<Longrightarrow> \<exists>s'. (adv_step parseMessage)\<^sup>*\<^sup>* s s' \<and> over s'"
proof (induction "if runPc s \<in> {Closing, RunOver} then steps_left s else 3" arbitrary: s rule: less_induct)
  case less
  have inv: "adv_inv s" using adv_inv_reach [OF less.prems(1)] .
  show ?case
  proof (cases "over s")
    case False
    then obtain s1 where s1: "adv_step parseMessage s s1" "runPc s1 \<in> {Closing, RunOver}"
      using not_stuck [OF inv less.prems(2)] by blast
    have "adv_reach parseMessage s1" "ctxDone s1"
      using adv_reach.step [OF less.prems(1) s1(1)] step_keeps_cancelled [OF s1(1) less.prems(2)] .
    moreover have "steps_left s1 < (if runPc s \<in> {Closing, RunOver} then steps_left s else 3)"
      using closing_step [OF inv _ less.prems(2) s1(1)] steps_left_bound [of s1] by simp
    ultimately obtain s' where "(adv_step parseMessage)\<^sup>*\<^sup>* s1 s'" "over s'"
      using s1(2) less.hyps [of s1] by auto
    with s1 show ?thesis by (meson converse_rtranclp_into_rtranclp)
  qed blast
qed

text \<open>
  C36: a cancelled advertiser ends, on a real connection and in a dry run. From every reachable state with a cancelled context,
  on any connection \<open>dial\<close> gave: the run goes on exactly as long as one of the two goroutines is not over, so neither is left
  behind; it cannot go on for ever unless the loop's select passes over its ready \<open>ctx.Done\<close> branch for ever; that branch is
  ready whenever the loop selects, and after it, with the connection closed under the reader, every run is over within two further
  steps. A \<open>Run\<close> that built its advertisement leaves the connection closed.
\<close>

theorem cancelled_advertiser_ends:
  assumes "adv_reach parseMessage s" and "ctxDone s"
  shows "(\<nexists>run. run 0 = s \<and> endless parseMessage run \<and> fair_select run) \<and>
    ((\<exists>s'. adv_step parseMessage s s') \<longleftrightarrow> \<not> over s) \<and>
    (\<exists>s'. (adv_step parseMessage)\<^sup>*\<^sup>* s s' \<and> over s') \<and>
    (runPc s = Looping \<longrightarrow> (\<exists>s'. adv_step parseMessage s s' \<and> runPc s' = Closing)) \<and>
    (runPc s = Closing \<longrightarrow> (\<forall>n s'. (adv_step parseMessage ^^ n) s s' \<longrightarrow> n \<le> 2)) \<and>
    (over s \<and> raBuilt s \<longrightarrow> conn_closed (aConn s))"
proof -
  have inv: "adv_inv s" using adv_inv_reach [OF assms(1)] .
  have "(\<exists>s'. adv_step parseMessage s s') \<longleftrightarrow> \<not> over s" using not_stuck [OF inv assms(2)] over_is_final assms(2) by blast
  moreover have "n \<le> 2" if "runPc s = Closing" "(adv_step parseMessage ^^ n) s s'" for n s'
    using closing_bounded [OF that(2) _ assms] that(1) steps_left_bound [of s] by simp
  moreover have "runPc s = Looping \<longrightarrow> (\<exists>s'. adv_step parseMessage s s' \<and> runPc s' = Closing)"
    using adv_step.run_done [of s parseMessage] assms(2) by auto
  moreover have "\<nexists>run. run 0 = s \<and> endless parseMessage run \<and> fair_select run"
    using endless_loops endless_cancelled assms unfolding fair_select_def by blast
  moreover have "over s \<and> raBuilt s \<longrightarrow> conn_closed (aConn s)" using inv by (simp add: adv_inv_def over_def)
  ultimately show ?thesis using cancelled_can_end [OF assms] by blast
qed

text \<open>A dry run that is cancelled while its reader blocks on the open connection.\<close>

definition blocked_dry_run :: advertiser where
  "blocked_dry_run =
     \<lparr>raBuilt = True, ctxDone = True, aConn = NopConn newNopConn, runPc = Looping, readerPc = Reading\<rparr>"

theorem cancelled_advertiser_ends_witness:
  "(\<nexists>r. conn_reads (\<lambda>_. None) (aConn blocked_dry_run) r) \<and>
   (\<nexists>run. run 0 = blocked_dry_run \<and> endless (\<lambda>_. None) run \<and> fair_select run) \<and>
   (\<exists>s'. (adv_step (\<lambda>_. None))\<^sup>*\<^sup>* blocked_dry_run s' \<and> over s')"
proof -
  have "dial (\<lambda>_. (Inl NoInterface, [])) (example_Config\<lparr>DryRun := True\<rparr>) = (Inr (NopConn newNopConn), [])"
    by (simp add: dial_def)
  from adv_reach.step [OF adv_reach.init [OF this] adv_step.start [of "adv_init True (NopConn newNopConn)"]]
  have "adv_reach (\<lambda>_. None) (blocked_dry_run\<lparr>ctxDone := False\<rparr>)" by (simp add: adv_init_def blocked_dry_run_def)
  from adv_reach.step [OF this adv_step.cancel] have "adv_reach (\<lambda>_. None) blocked_dry_run" by (simp add: blocked_dry_run_def)
  from cancelled_advertiser_ends [OF this] show ?thesis
    by (auto simp: blocked_dry_run_def nop_reads_def nop_ReadFrom_def newNopConn_def)
qed

text \<open>
  The connection is closed by the branches that see the context, and by no other: a \<open>Run\<close> whose advertisement cannot be built
  returns at once and leaves the connection, which \<open>OnStartup\<close> opened before, open for good.
\<close>

lemma failed_build_leaves_the_connection_open:
  assumes "adv_reach parseMessage s" and "\<not> raBuilt s"
  shows "\<not> conn_closed (aConn s) \<and> readerPc s = NotStarted"
  using adv_inv_reach [OF assms(1)] assms(2) by (simp add: adv_inv_def)

section \<open>Starting the plugin\<close>

text \<open>\<open>RADNR.OnStartup\<close> without an injected runner: validation, the connection, and only then the registry.\<close>

definition radnr_OnStartup ::
  "(string \<Rightarrow> addr option) \<Rightarrow> (string \<Rightarrow> (dial_error + nat) \<times> socket_call list) \<Rightarrow> ('i \<Rightarrow> 'o) \<Rightarrow> Config \<Rightarrow> 'i \<Rightarrow> ('i, 'o) proc \<Rightarrow>
     bool \<times> ('i, 'o) proc \<times> socket_call list" where
  "radnr_OnStartup parseAddr listenFn owner_of cfg r st =
     (if config_Validate parseAddr cfg \<noteq> None then (False, st, [])
      else
        let (conn, calls) = dial listenFn cfg;
            (ok, st') = OnStartup owner_of True (\<not> isl conn) r st in
        (ok, st', calls))"

lemma failed_start_changes_nothing:
  assumes "radnr_OnStartup parseAddr (ndpListen ifs l j c) owner_of cfg r st = (False, st', calls)"
  shows "st' = st \<and> (JoinAllRouters \<in> set calls \<longrightarrow> last calls = CloseSocket)"
proof (cases "config_Validate parseAddr cfg")
  case None
  obtain conn cs where d: "dial (ndpListen ifs l j c) cfg = (conn, cs)" by force
  then show ?thesis
    using assms None dial_never_leaks_a_socket [OF d]
    by (cases conn) (auto simp: radnr_OnStartup_def OnStartup_def)
qed (use assms in \<open>simp add: radnr_OnStartup_def\<close>)

end
