(* ===== verification/Sni_Store.thy ===== *)
theory Sni_Store
  imports Go_Text
begin

text \<open>
  \<open>sni_tls/sni_tls.go\<close>: the certificate store, which certificate a ClientHello selects, and how the
  store is built from the configured files. A certificate is an opaque value; \<open>loadX509\<close> stands for
  \<open>tls.LoadX509KeyPair\<close> and \<open>x509.ParseCertificate\<close> on the files as they are at that moment.
\<close>

section \<open>Names\<close>

text \<open>\<open>asciiLower\<close>: it skips the leading bytes that need no folding, then folds the rest.\<close>

definition asciiLower :: "string \<Rightarrow> string" where
  "asciiLower s =
     (let i = length (takeWhile (\<lambda>c. \<not> is_upper c) s) in
      if i = length s then s else take i s @ map lower_char (drop i s))"

definition validPresentedName :: "string \<Rightarrow> bool" where
  "validPresentedName name =
     (let n = length (filter (\<lambda>c. c = CHR ''*'') name) in
      if n = 0 then True
      else if n = 1 then has_prefix name ''*.'' \<and> 2 < length name
      else False)"

definition wildcardOf :: "string \<Rightarrow> string option" where
  "wildcardOf name =
     (case index_byte name CHR ''.'' of
        None \<Rightarrow> None
      | Some i \<Rightarrow> if i = 0 then None else Some (CHR ''*'' # drop i name))"

section \<open>The store\<close>

datatype noSNIPolicy = noSNIAsUnmatched | noSNIRefuse | noSNIFallback | noSNICertificate

record 'c certStore =
  byName :: "(string \<times> 'c) list"
  bySuffix :: "(string \<times> 'c) list option"
  fallback :: "'c option"
  noSNICert :: "'c option"
  noSNI :: noSNIPolicy
  strict :: bool

record storeConfig =
  noSNIPair :: "string \<times> string"
  pairs :: "(string \<times> string) list"
  cfg_noSNI :: noSNIPolicy
  cfg_strict :: bool

definition files :: "storeConfig \<Rightarrow> (string \<times> string) list" where
  "files c = (if cfg_noSNI c \<noteq> noSNICertificate then pairs c else pairs c @ [noSNIPair c])"

text \<open>Maps are association lists with the latest binding first; \<open>map_of\<close> is the lookup.\<close>

definition wildcardFor :: "'c certStore \<Rightarrow> string \<Rightarrow> 'c option" where
  "wildcardFor s name =
     (case bySuffix s of
        Some sfx \<Rightarrow>
          (case index_byte name CHR ''.'' of
             None \<Rightarrow> None
           | Some i \<Rightarrow> if i = 0 then None else map_of sfx (drop i name))
      | None \<Rightarrow>
          (case wildcardOf name of None \<Rightarrow> None | Some w \<Rightarrow> map_of (byName s) w))"

text \<open>
  The answer of \<open>GetCertificate\<close>: a certificate, the refusal \<open>(nil, nil)\<close>, or an error carrying the
  \<open>missing_extension\<close> alert. A nil fallback also comes out as \<open>(nil, nil)\<close>.
\<close>

datatype 'c verdict = Serve 'c | RefuseUnrecognized | RefuseMissingExtension

definition nil_or :: "'c option \<Rightarrow> 'c verdict" where
  "nil_or c = (case c of None \<Rightarrow> RefuseUnrecognized | Some x \<Rightarrow> Serve x)"

record hello =
  ServerName :: string
  Network :: "string option"

definition overQUIC :: "hello \<Rightarrow> bool" where
  "overQUIC h = (Network h = Some ''udp'')"

definition refuseNoSNI :: "hello \<Rightarrow> 'c verdict" where
  "refuseNoSNI h = (if overQUIC h then RefuseMissingExtension else RefuseUnrecognized)"

definition GetCertificate :: "'c certStore \<Rightarrow> hello \<Rightarrow> 'c verdict" where
  "GetCertificate s h =
     (let otherwise = (if strict s then RefuseUnrecognized else nil_or (fallback s)) in
      if ServerName h = [] then
        (case noSNI s of
           noSNIRefuse \<Rightarrow> refuseNoSNI h
         | noSNIFallback \<Rightarrow> nil_or (fallback s)
         | noSNICertificate \<Rightarrow> (case noSNICert s of None \<Rightarrow> refuseNoSNI h | Some c \<Rightarrow> Serve c)
         | noSNIAsUnmatched \<Rightarrow> if strict s then refuseNoSNI h else otherwise)
      else
        let name = asciiLower (ServerName h) in
        (case map_of (byName s) name of
           Some c \<Rightarrow> Serve c
         | None \<Rightarrow> (case wildcardFor s name of Some c \<Rightarrow> Serve c | None \<Rightarrow> otherwise)))"

section \<open>Building the store\<close>

datatype load_error = Missing | Broken

record 'c loaded =
  l_cert :: 'c
  l_DNSNames :: "string list"

type_synonym 'c loader = "string \<Rightarrow> string \<Rightarrow> load_error + 'c loaded"

definition loadCert :: "'c loader \<Rightarrow> string \<Rightarrow> string \<Rightarrow> load_error + 'c \<times> string list" where
  "loadCert loadX509 certFile keyFile =
     (case loadX509 certFile keyFile of
        Inl e \<Rightarrow> Inl e
      | Inr l \<Rightarrow>
        let names = map asciiLower (filter validPresentedName (l_DNSNames l)) in
        if names = [] then Inl Broken else Inr (l_cert l, names))"

fun key_names :: "'c \<Rightarrow> string list \<Rightarrow> 'c certStore \<Rightarrow> 'c certStore" where
  "key_names cert [] s = s"
| "key_names cert (name # names) s =
     (let s = s\<lparr>byName := (name, cert) # byName s\<rparr>;
          s = (case cut_prefix name ''*'' of
                 None \<Rightarrow> s
               | Some suffix \<Rightarrow> s\<lparr>bySuffix := map_option (\<lambda>m. (suffix, cert) # m) (bySuffix s)\<rparr>)
      in key_names cert names s)"

text \<open>The loop over the pairs; the number of missing pairs is counted.\<close>

fun load_pairs :: "'c loader \<Rightarrow> (string \<times> string) list \<Rightarrow> nat \<Rightarrow> 'c certStore \<Rightarrow> load_error + nat \<times> 'c certStore" where
  "load_pairs loadX509 [] missing s = Inr (missing, s)"
| "load_pairs loadX509 ((certFile, keyFile) # ps) missing s =
     (case loadCert loadX509 certFile keyFile of
        Inl Missing \<Rightarrow> load_pairs loadX509 ps (Suc missing) s
      | Inl Broken \<Rightarrow> Inl Broken
      | Inr (cert, names) \<Rightarrow>
        let s = (case fallback s of None \<Rightarrow> s\<lparr>fallback := Some cert\<rparr> | Some _ \<Rightarrow> s)
        in load_pairs loadX509 ps missing (key_names cert names s))"

text \<open>\<open>loadAnyCert\<close>, and \<open>loadNoSNI\<close> without its warnings.\<close>

definition loadAnyCert :: "'c loader \<Rightarrow> string \<Rightarrow> string \<Rightarrow> load_error + 'c" where
  "loadAnyCert loadX509 certFile keyFile = map_sum id l_cert (loadX509 certFile keyFile)"

definition loadNoSNI :: "'c loader \<Rightarrow> storeConfig \<Rightarrow> 'c certStore \<Rightarrow> load_error + 'c certStore" where
  "loadNoSNI loadX509 cfg s =
     (if cfg_noSNI cfg = noSNICertificate then
        (case loadAnyCert loadX509 (fst (noSNIPair cfg)) (snd (noSNIPair cfg)) of
           Inl Missing \<Rightarrow> Inr s
         | Inl Broken \<Rightarrow> Inl Broken
         | Inr cert \<Rightarrow> Inr (s\<lparr>noSNICert := Some cert\<rparr>))
      else Inr s)"

definition buildCertStore :: "'c loader \<Rightarrow> storeConfig \<Rightarrow> load_error + 'c certStore" where
  "buildCertStore loadX509 cfg =
     (let s0 = \<lparr>byName = [], bySuffix = Some [], fallback = None, noSNICert = None,
                noSNI = cfg_noSNI cfg, strict = cfg_strict cfg\<rparr> in
      case load_pairs loadX509 (pairs cfg) 0 s0 of
        Inl e \<Rightarrow> Inl e
      | Inr (missing, s) \<Rightarrow>
        if fallback s = None \<and> 0 < length (pairs cfg) \<and> missing = length (pairs cfg) then Inl Missing
        else loadNoSNI loadX509 cfg s)"

section \<open>Folding\<close>

lemma asciiLower_eq: "asciiLower s = lower_ascii s"
  unfolding asciiLower_def by (rule fold_after_prefix)

text \<open>
  \<open>asciiLower\<close>, with its early exit and its skipped prefix, folds exactly A to Z onto a to z in every
  position and leaves every other byte alone (so no Unicode folding can make two names meet).
\<close>

lemma asciiLower_is_ascii_fold:
  "asciiLower s = map (\<lambda>c. if CHR ''A'' \<le> c \<and> c \<le> CHR ''Z'' then char_of (of_char c + 32 :: nat) else c) s"
  by (simp add: asciiLower_eq lower_ascii_def lower_char_def is_upper_def)

section \<open>What the store holds\<close>

lemma lower_char_star [simp]: "lower_char c = CHR ''*'' \<longleftrightarrow> c = CHR ''*''"
  by (rule lower_char_eq_iff) simp

lemma cut_prefix_star: "cut_prefix name ''*'' = Some suffix \<longleftrightarrow> name = CHR ''*'' # suffix"
  by (cases name) (auto simp: cut_prefix_def has_prefix_def)

lemma key_names_byName:
  "map_of (byName (key_names cert names s)) n = (if n \<in> set names then Some cert else map_of (byName s) n)"
  by (induction cert names s rule: key_names.induct) (auto simp: Let_def split: option.splits)

lemma key_names_rest:
  "fallback (key_names cert names s) = fallback s" "noSNI (key_names cert names s) = noSNI s"
  "strict (key_names cert names s) = strict s" "noSNICert (key_names cert names s) = noSNICert s"
  by (induction cert names s rule: key_names.induct) (auto simp: Let_def split: option.splits)

text \<open>The suffix index holds the wildcard names of the main map.\<close>

definition index_ok :: "'c certStore \<Rightarrow> bool" where
  "index_ok s \<longleftrightarrow> (\<exists>sfx. bySuffix s = Some sfx \<and> (\<forall>t. map_of sfx t = map_of (byName s) (CHR ''*'' # t)))"

lemma key_names_index: "index_ok s \<Longrightarrow> index_ok (key_names cert names s)"
proof (induction cert names s rule: key_names.induct)
  case (2 cert name names s)
  let ?s1 = "s\<lparr>byName := (name, cert) # byName s\<rparr>"
  obtain sfx where sfx: "bySuffix s = Some sfx" "\<And>t. map_of sfx t = map_of (byName s) (CHR ''*'' # t)"
    using "2.prems" by (auto simp: index_ok_def)
  show ?case
  proof (cases "cut_prefix name ''*''")
    case None
    then have "name \<noteq> CHR ''*'' # t" for t using cut_prefix_star [of name] by auto
    then have "index_ok ?s1" using sfx by (auto simp: index_ok_def)
    from "2.IH" [OF refl refl] None this show ?thesis by simp
  next
    case (Some suffix)
    then have "name = CHR ''*'' # suffix" by (simp add: cut_prefix_star)
    then have "index_ok (?s1\<lparr>bySuffix := map_option (\<lambda>m. (suffix, cert) # m) (bySuffix ?s1)\<rparr>)"
      using sfx by (auto simp: index_ok_def)
    from "2.IH" [OF refl refl] Some this show ?thesis by (simp add: Let_def)
  qed
qed simp

lemma wildcardFor_byName:
  assumes "index_ok s"
  shows "wildcardFor s name = (case wildcardOf name of None \<Rightarrow> None | Some w \<Rightarrow> map_of (byName s) w)"
  using assms by (auto simp: wildcardFor_def wildcardOf_def index_ok_def split: option.splits)

definition provides :: "'c loader \<Rightarrow> (string \<times> string) list \<Rightarrow> string \<Rightarrow> 'c \<Rightarrow> bool" where
  "provides loadX509 ps n c \<longleftrightarrow> (\<exists>p\<in>set ps. \<exists>names. loadCert loadX509 (fst p) (snd p) = Inr (c, names) \<and> n \<in> set names)"

lemma load_pairs_spec:
  "load_pairs loadX509 ps m s = Inr (m', s') \<Longrightarrow>
     (\<forall>n c. map_of (byName s') n = Some c \<longrightarrow> map_of (byName s) n = Some c \<or> provides loadX509 ps n c) \<and>
     (\<forall>n c. provides loadX509 ps n c \<or> map_of (byName s) n \<noteq> None \<longrightarrow> map_of (byName s') n \<noteq> None) \<and>
     (index_ok s \<longrightarrow> index_ok s') \<and> noSNI s' = noSNI s \<and> strict s' = strict s"
proof (induction loadX509 ps m s arbitrary: m' s' rule: load_pairs.induct)
  case (2 loadX509 certFile keyFile ps missing s)
  show ?case
  proof (cases "loadCert loadX509 certFile keyFile")
    case (Inl e)
    with "2.prems" have e: "e = Missing" by (cases e) auto
    with "2.IH"(1) [OF _ e] "2.prems" Inl show ?thesis by (auto simp: provides_def)
  next
    case (Inr cn)
    obtain cert names where cn: "cn = (cert, names)" by (cases cn)
    let ?s1 = "case fallback s of None \<Rightarrow> s\<lparr>fallback := Some cert\<rparr> | Some _ \<Rightarrow> s"
    have s1: "byName ?s1 = byName s" "index_ok s \<Longrightarrow> index_ok ?s1" "noSNI ?s1 = noSNI s" "strict ?s1 = strict s"
      by (auto simp: index_ok_def split: option.splits)
    have rest: "load_pairs loadX509 ps missing (key_names cert names ?s1) = Inr (m', s')"
      using "2.prems" Inr cn by (simp add: Let_def)
    note IH = "2.IH"(2) [OF Inr cn [symmetric] refl rest]
    have p: "provides loadX509 ((certFile, keyFile) # ps) n c \<longleftrightarrow>
        (c = cert \<and> n \<in> set names) \<or> provides loadX509 ps n c" for n c
      using Inr cn by (auto simp: provides_def)
    show ?thesis
      using IH key_names_index [of ?s1 cert names] s1 by (auto simp: p key_names_byName key_names_rest split: if_splits)
  qed
qed (simp add: provides_def)

section \<open>Which certificate is served\<close>

text \<open>RFC 9525 section 6.3: a presented name against a host name.\<close>

definition san_matches :: "string \<Rightarrow> string \<Rightarrow> bool" where
  "san_matches san host \<longleftrightarrow> validPresentedName san \<and>
     (lower_ascii san = lower_ascii host \<or>
      (\<exists>label rest. label \<noteq> [] \<and> CHR ''.'' \<notin> set label \<and> lower_ascii host = label @ CHR ''.'' # rest \<and>
         lower_ascii san = ''*.'' @ rest))"

lemma wildcardOf_Some:
  "wildcardOf name = Some w \<longleftrightarrow>
     (\<exists>label rest. label \<noteq> [] \<and> CHR ''.'' \<notin> set label \<and> name = label @ CHR ''.'' # rest \<and> w = ''*.'' @ rest)"
proof
  assume "wildcardOf name = Some w"
  then obtain i where i: "index_byte name CHR ''.'' = Some i" "0 < i" "w = CHR ''*'' # drop i name"
    by (auto simp: wildcardOf_def split: option.splits if_splits)
  from index_byte_Some [OF i(1)] have "drop i name = CHR ''.'' # drop (Suc i) name"
    and "name = take i name @ CHR ''.'' # drop (Suc i) name" and "CHR ''.'' \<notin> set (take i name)"
    by (metis Cons_nth_drop_Suc, metis Cons_nth_drop_Suc append_take_drop_id, simp)
  moreover have "take i name \<noteq> []" using i(2) index_byte_Some [OF i(1)] by auto
  ultimately show "\<exists>label rest. label \<noteq> [] \<and> CHR ''.'' \<notin> set label \<and> name = label @ CHR ''.'' # rest \<and> w = ''*.'' @ rest"
    using i(3) by (intro exI [of _ "take i name"] exI [of _ "drop (Suc i) name"]) simp
next
  assume "\<exists>label rest. label \<noteq> [] \<and> CHR ''.'' \<notin> set label \<and> name = label @ CHR ''.'' # rest \<and> w = ''*.'' @ rest"
  then show "wildcardOf name = Some w"
    by (auto simp: wildcardOf_def index_byte_append_sep)
qed

lemma loadCert_Inr:
  "loadCert loadX509 cf kf = Inr (c, names) \<Longrightarrow>
     \<exists>l. loadX509 cf kf = Inr l \<and> l_cert l = c \<and> names = map lower_ascii (filter validPresentedName (l_DNSNames l))"
  by (auto simp: loadCert_def Let_def asciiLower_eq split: sum.splits if_splits)

lemma loadCert_provides:
  assumes "loadX509 cf kf = Inr l" "san \<in> set (l_DNSNames l)" "validPresentedName san"
  shows "\<exists>names. loadCert loadX509 cf kf = Inr (l_cert l, names) \<and> lower_ascii san \<in> set names"
proof -
  have "lower_ascii san \<in> set (map lower_ascii (filter validPresentedName (l_DNSNames l)))" using assms by auto
  then show ?thesis
    using assms by (auto simp: loadCert_def Let_def asciiLower_eq [abs_def] simp del: set_map set_filter)
qed

text \<open>A loaded certificate that may be served for a host name.\<close>

definition may_serve :: "'c loader \<Rightarrow> storeConfig \<Rightarrow> string \<Rightarrow> 'c \<Rightarrow> bool" where
  "may_serve loadX509 cfg host c \<longleftrightarrow>
     (\<exists>p\<in>set (pairs cfg). \<exists>l. loadX509 (fst p) (snd p) = Inr l \<and> l_cert l = c \<and>
        (\<exists>san\<in>set (l_DNSNames l). san_matches san host))"

lemma may_serve_iff:
  "may_serve loadX509 cfg host c \<longleftrightarrow>
     (\<exists>n. provides loadX509 (pairs cfg) n c \<and>
       (n = lower_ascii host \<or> wildcardOf (lower_ascii host) = Some n))"
proof
  assume "may_serve loadX509 cfg host c"
  then obtain p l san where p: "p \<in> set (pairs cfg)" "loadX509 (fst p) (snd p) = Inr l" "l_cert l = c"
    "san \<in> set (l_DNSNames l)" "san_matches san host" by (auto simp: may_serve_def)
  then obtain names where "loadCert loadX509 (fst p) (snd p) = Inr (c, names)" "lower_ascii san \<in> set names"
    using loadCert_provides [of loadX509 "fst p" "snd p" l san] by (auto simp: san_matches_def)
  with p show "\<exists>n. provides loadX509 (pairs cfg) n c \<and> (n = lower_ascii host \<or> wildcardOf (lower_ascii host) = Some n)"
    by (intro exI [of _ "lower_ascii san"]) (auto simp: provides_def san_matches_def wildcardOf_Some)
next
  assume "\<exists>n. provides loadX509 (pairs cfg) n c \<and> (n = lower_ascii host \<or> wildcardOf (lower_ascii host) = Some n)"
  then obtain n p names where n: "p \<in> set (pairs cfg)" "loadCert loadX509 (fst p) (snd p) = Inr (c, names)" "n \<in> set names"
    "n = lower_ascii host \<or> wildcardOf (lower_ascii host) = Some n" by (auto simp: provides_def)
  obtain l where l: "loadX509 (fst p) (snd p) = Inr l" "l_cert l = c"
    "names = map lower_ascii (filter validPresentedName (l_DNSNames l))" using loadCert_Inr [OF n(2)] by blast
  then obtain san where san: "san \<in> set (l_DNSNames l)" "validPresentedName san" "n = lower_ascii san" using n(3) by auto
  then have "san_matches san host" using n(4) by (simp add: san_matches_def wildcardOf_Some)
  with n(1) l(1,2) san(1) show "may_serve loadX509 cfg host c" by (auto simp: may_serve_def)
qed

text \<open>
  C33: in strict mode a named ClientHello is served exactly if some loaded certificate presents a name that
  matches it under RFC 9525 section 6.3 (equal, ignoring ASCII case, or a wildcard for its single
  left-most label), and the certificate served is one of those; otherwise the handshake is refused.
\<close>

theorem strict_serves_exactly_matching_certificates:
  assumes built: "buildCertStore loadX509 cfg = Inr s" and "cfg_strict cfg" and named: "ServerName h \<noteq> []"
  shows "(\<forall>c. GetCertificate s h = Serve c \<longrightarrow> may_serve loadX509 cfg (ServerName h) c) \<and>
    (GetCertificate s h = RefuseUnrecognized \<longleftrightarrow> \<not> (\<exists>c. may_serve loadX509 cfg (ServerName h) c))"
proof -
  let ?s0 = "\<lparr>byName = [], bySuffix = Some [], fallback = None, noSNICert = None,
    noSNI = cfg_noSNI cfg, strict = cfg_strict cfg\<rparr>"
  obtain m s1 where l: "load_pairs loadX509 (pairs cfg) 0 ?s0 = Inr (m, s1)"
    and s: "byName s = byName s1" "bySuffix s = bySuffix s1" "strict s = strict s1"
    using built by (auto simp: buildCertStore_def Let_def loadNoSNI_def split: sum.splits if_splits load_error.splits)
  note spec = load_pairs_spec [OF l]
  have idx: "index_ok s" using spec s by (simp add: index_ok_def)
  have str: "strict s" using spec s assms(2) by simp
  have from_map: "map_of (byName s) n = Some c \<Longrightarrow> provides loadX509 (pairs cfg) n c" for n c
    using spec s by auto
  have to_map: "map_of (byName s) n = None \<Longrightarrow> \<not> provides loadX509 (pairs cfg) n c" for n c
    using spec s by auto
  let ?n = "lower_ascii (ServerName h)"
  have g: "GetCertificate s h =
      (case map_of (byName s) ?n of Some c \<Rightarrow> Serve c
       | None \<Rightarrow> (case (case wildcardOf ?n of None \<Rightarrow> None | Some w \<Rightarrow> map_of (byName s) w) of
           Some c \<Rightarrow> Serve c | None \<Rightarrow> RefuseUnrecognized))"
    unfolding GetCertificate_def Let_def asciiLower_eq wildcardFor_byName [OF idx] using named str by simp
  have "GetCertificate s h = Serve c \<longrightarrow> may_serve loadX509 cfg (ServerName h) c" for c
    unfolding g may_serve_iff using from_map by (auto split: option.splits)
  moreover have "GetCertificate s h = RefuseUnrecognized \<longleftrightarrow> \<not> (\<exists>c. may_serve loadX509 cfg (ServerName h) c)"
    unfolding g may_serve_iff using from_map to_map by (auto split: option.splits)
  ultimately show ?thesis by blast
qed

definition example_loader :: "nat loader" where
  "example_loader cf kf =
     (if cf = ''c'' then Inr \<lparr>l_cert = 1, l_DNSNames = [''*.A'', ''f*.b'']\<rparr> else Inl Missing)"

definition example_store_config :: storeConfig where
  "example_store_config =
     \<lparr>noSNIPair = ([], []), pairs = [(''m'', ''k''), (''c'', ''k'')], cfg_noSNI = noSNIAsUnmatched, cfg_strict = True\<rparr>"

definition example_store :: "nat certStore" where
  "example_store =
     \<lparr>byName = [(''*.a'', 1)], bySuffix = Some [(''.a'', 1)], fallback = Some 1, noSNICert = None,
      noSNI = noSNIAsUnmatched, strict = True\<rparr>"

lemma example_store_built: "buildCertStore example_loader example_store_config = Inr example_store"
  by code_simp

theorem strict_serves_exactly_matching_certificates_witness:
  "may_serve example_loader example_store_config ''W.a'' 1 \<and>
   \<not> (\<exists>c. may_serve example_loader example_store_config ''f*.b'' c)"
proof -
  have "GetCertificate example_store \<lparr>ServerName = ''W.a'', Network = None\<rparr> = Serve 1"
    and "GetCertificate example_store \<lparr>ServerName = ''f*.b'', Network = None\<rparr> = RefuseUnrecognized"
    by code_simp+
  then show ?thesis
    using strict_serves_exactly_matching_certificates
        [OF example_store_built, of "\<lparr>ServerName = ''W.a'', Network = None\<rparr>"]
      strict_serves_exactly_matching_certificates
        [OF example_store_built, of "\<lparr>ServerName = ''f*.b'', Network = None\<rparr>"]
    by (simp add: example_store_config_def)
qed

section \<open>When a store can be built\<close>

lemma load_pairs_Inl:
  "load_pairs loadX509 ps m s = Inl e \<longleftrightarrow> e = Broken \<and> (\<exists>p\<in>set ps. loadCert loadX509 (fst p) (snd p) = Inl Broken)"
proof (induction loadX509 ps m s rule: load_pairs.induct)
  case (2 loadX509 certFile keyFile ps missing s)
  show ?case
  proof (cases "loadCert loadX509 certFile keyFile")
    case (Inl err)
    with 2 show ?thesis by (cases err) auto
  next
    case (Inr cn)
    with 2 show ?thesis by (cases cn) (simp add: Let_def)
  qed
qed simp

lemma load_pairs_missing:
  "load_pairs loadX509 ps m s = Inr (m', s') \<Longrightarrow>
     m' = m + length (filter (\<lambda>p. loadCert loadX509 (fst p) (snd p) = Inl Missing) ps) \<and>
     (fallback s' = None \<longleftrightarrow> fallback s = None \<and> (\<forall>p\<in>set ps. loadCert loadX509 (fst p) (snd p) = Inl Missing))"
proof (induction loadX509 ps m s arbitrary: m' s' rule: load_pairs.induct)
  case (2 loadX509 certFile keyFile ps missing s)
  show ?case
  proof (cases "loadCert loadX509 certFile keyFile")
    case (Inl err)
    with "2.prems" have err: "err = Missing" by (cases err) auto
    with "2.IH"(1) [OF _ err] "2.prems" Inl show ?thesis by auto
  next
    case (Inr cn)
    obtain cert names where cn: "cn = (cert, names)" by (cases cn)
    let ?s1 = "case fallback s of None \<Rightarrow> s\<lparr>fallback := Some cert\<rparr> | Some _ \<Rightarrow> s"
    have rest: "load_pairs loadX509 ps missing (key_names cert names ?s1) = Inr (m', s')"
      using "2.prems" Inr cn by (simp add: Let_def)
    have "fallback ?s1 \<noteq> None" by (auto split: option.splits)
    with "2.IH"(2) [OF Inr cn [symmetric] refl rest] Inr show ?thesis by (auto simp: key_names_rest)
  qed
qed simp

text \<open>
  C34: building fails exactly if a present certificate is broken (among the pairs or the \<open>no_sni\<close> one), or
  pairs are configured and every one is missing; a partly missing set is served with what loaded.
\<close>

theorem store_built_unless_broken_or_all_missing:
  "(\<exists>s. buildCertStore loadX509 cfg = Inr s) \<longleftrightarrow>
     (\<forall>p\<in>set (pairs cfg). loadCert loadX509 (fst p) (snd p) \<noteq> Inl Broken) \<and>
     (pairs cfg = [] \<or> (\<exists>p\<in>set (pairs cfg). loadCert loadX509 (fst p) (snd p) \<noteq> Inl Missing)) \<and>
     \<not> (cfg_noSNI cfg = noSNICertificate \<and> loadX509 (fst (noSNIPair cfg)) (snd (noSNIPair cfg)) = Inl Broken)"
proof -
  let ?s0 = "\<lparr>byName = [], bySuffix = Some [], fallback = None, noSNICert = None,
    noSNI = cfg_noSNI cfg, strict = cfg_strict cfg\<rparr>"
  have nosni: "(\<exists>s. loadNoSNI loadX509 cfg s1 = Inr s) \<longleftrightarrow>
      \<not> (cfg_noSNI cfg = noSNICertificate \<and> loadX509 (fst (noSNIPair cfg)) (snd (noSNIPair cfg)) = Inl Broken)" for s1
    by (cases "loadX509 (fst (noSNIPair cfg)) (snd (noSNIPair cfg))")
      (auto simp: loadNoSNI_def loadAnyCert_def split: load_error.splits)
  show ?thesis
  proof (cases "load_pairs loadX509 (pairs cfg) 0 ?s0")
    case (Inl e)
    then show ?thesis using load_pairs_Inl [of loadX509 "pairs cfg" 0 ?s0 e] by (auto simp: buildCertStore_def)
  next
    case (Inr ms)
    obtain m s1 where ms: "ms = (m, s1)" by (cases ms)
    have nb: "\<forall>p\<in>set (pairs cfg). loadCert loadX509 (fst p) (snd p) \<noteq> Inl Broken"
      using load_pairs_Inl [of loadX509 "pairs cfg" 0 ?s0 Broken] Inr by auto
    note miss = load_pairs_missing [OF Inr [unfolded ms]]
    have "fallback s1 = None \<and> 0 < length (pairs cfg) \<and> m = length (pairs cfg) \<longleftrightarrow>
        pairs cfg \<noteq> [] \<and> (\<forall>p\<in>set (pairs cfg). loadCert loadX509 (fst p) (snd p) = Inl Missing)"
      using miss by auto
    then show ?thesis using Inr ms nb nosni [of s1] by (auto simp: buildCertStore_def)
  qed
qed

theorem store_built_unless_broken_or_all_missing_witness:
  "(\<exists>s. buildCertStore example_loader example_store_config = Inr s) \<and>
   \<not> (\<exists>s. buildCertStore example_loader (example_store_config\<lparr>pairs := [(''m'', ''k'')]\<rparr>) = Inr s)"
proof -
  have "loadCert example_loader ''m'' ''k'' = Inl Missing" "loadCert example_loader ''c'' ''k'' = Inr (1, [''*.a''])"
    by code_simp+
  then show ?thesis
    unfolding store_built_unless_broken_or_all_missing by (simp add: example_store_config_def)
qed

end
