(* ===== verification/Sni_Reload.thy ===== *)
theory Sni_Reload
  imports Sni_Store Lifecycle
begin

text \<open>
  \<open>sni_tls/reload.go\<close> and \<open>sni_tls/setup.go\<close>: the live store that polls the certificate files, and the
  Corefile block. The file system is an explicit value, so that a rotation between two reads of one
  poll is two different values; \<open>readFile\<close> reads one file, \<open>loadX509\<close> loads a pair, \<open>sha256\<close> hashes.
\<close>

section \<open>Polling\<close>

record 'c liveStore =
  current :: "'c certStore"
  digest :: bytes
  l_cfg :: storeConfig

definition newLiveStore :: "storeConfig \<Rightarrow> 'c certStore \<Rightarrow> bytes \<Rightarrow> 'c liveStore" where
  "newLiveStore cfg initial initialDigest = \<lparr>current = initial, digest = initialDigest, l_cfg = cfg\<rparr>"

definition live_GetCertificate :: "'c liveStore \<Rightarrow> hello \<Rightarrow> 'c verdict" where
  "live_GetCertificate l h = GetCertificate (current l) h"

definition digest_input :: "(string \<Rightarrow> bytes option) \<Rightarrow> string \<Rightarrow> bytes" where
  "digest_input readFile path =
     (case readFile path of None \<Rightarrow> bytes_of (''sni_tls:missing:'' @ path) | Some b \<Rightarrow> b)"

definition digestPairs :: "(bytes \<Rightarrow> bytes) \<Rightarrow> (string \<Rightarrow> bytes option) \<Rightarrow> (string \<times> string) list \<Rightarrow> bytes" where
  "digestPairs sha256 readFile ps =
     sha256 (concat (map (\<lambda>(a, b). digest_input readFile a @ digest_input readFile b) ps))"

text \<open>What the plugin sees of the file system at one moment.\<close>

record 'c fsys =
  readFile :: "string \<Rightarrow> bytes option"
  loadX509 :: "'c loader"

definition reloadOnce :: "(bytes \<Rightarrow> bytes) \<Rightarrow> 'c fsys \<Rightarrow> 'c fsys \<Rightarrow> 'c liveStore \<Rightarrow> 'c liveStore" where
  "reloadOnce sha256 fs1 fs2 l =
     (let newDigest = digestPairs sha256 (readFile fs1) (files (l_cfg l)) in
      if newDigest = digest l then l
      else (case buildCertStore (loadX509 fs2) (l_cfg l) of
              Inl e \<Rightarrow> l
            | Inr store \<Rightarrow> l\<lparr>current := store, digest := newDigest\<rparr>))"

section \<open>Setup\<close>

datatype sni_error = AlreadyConfigured | SniArgErr | UnknownOption string | NoSNITwice | BadNoSNI | BuildError load_error

definition parseNoSNI :: "string list \<Rightarrow> storeConfig \<Rightarrow> sni_error + storeConfig" where
  "parseNoSNI args cfg =
     (if cfg_noSNI cfg \<noteq> noSNIAsUnmatched then Inl NoSNITwice
      else (case args of
              [a] \<Rightarrow>
                if a = ''refuse'' then Inr (cfg\<lparr>cfg_noSNI := noSNIRefuse\<rparr>)
                else if a = ''fallback'' then Inr (cfg\<lparr>cfg_noSNI := noSNIFallback\<rparr>)
                else Inl BadNoSNI
            | [a, c, k] \<Rightarrow>
                if a = ''cert'' then Inr (cfg\<lparr>cfg_noSNI := noSNICertificate, noSNIPair := (c, k)\<rparr>)
                else Inl BadNoSNI
            | _ \<Rightarrow> Inl BadNoSNI))"

fun parseBlockOptions :: "(string \<times> string list) list \<Rightarrow> storeConfig \<Rightarrow> sni_error + storeConfig" where
  "parseBlockOptions [] cfg = Inr cfg"
| "parseBlockOptions ((name, args) # rest) cfg =
     (if name = ''strict'' then
        (if args \<noteq> [] then Inl SniArgErr else parseBlockOptions rest (cfg\<lparr>cfg_strict := True\<rparr>))
      else if name = ''no_sni'' then
        (case parseNoSNI args cfg of Inl e \<Rightarrow> Inl e | Inr cfg' \<Rightarrow> parseBlockOptions rest cfg')
      else Inl (UnknownOption name))"

text \<open>The directives of the server block: arguments and block lines of each.\<close>

fun parse_directives :: "(string list \<times> (string \<times> string list) list) list \<Rightarrow> storeConfig \<Rightarrow> sni_error + storeConfig" where
  "parse_directives [] cfg = (if length (pairs cfg) = 0 then Inl SniArgErr else Inr cfg)"
| "parse_directives ((args, block_lines) # rest) cfg =
     (case args of
        [c, k] \<Rightarrow> parse_directives rest (cfg\<lparr>pairs := pairs cfg @ [(c, k)]\<rparr>)
      | [] \<Rightarrow>
          if block_lines = [] then Inl SniArgErr
          else (case parseBlockOptions block_lines cfg of Inl e \<Rightarrow> Inl e | Inr cfg' \<Rightarrow> parse_directives rest cfg')
      | _ \<Rightarrow> Inl SniArgErr)"

definition empty_storeConfig :: storeConfig where
  "empty_storeConfig = \<lparr>noSNIPair = ([], []), pairs = [], cfg_noSNI = noSNIAsUnmatched, cfg_strict = False\<rparr>"

definition parseConfig :: "(string list \<times> (string \<times> string list) list) list \<Rightarrow> sni_error + storeConfig" where
  "parseConfig directives = parse_directives directives empty_storeConfig"

text \<open>\<open>setup\<close>: the store is built from \<open>fs1\<close>, the digest then computed from \<open>fs2\<close>.\<close>

definition sni_setup ::
  "(bytes \<Rightarrow> bytes) \<Rightarrow> bool \<Rightarrow> 'c fsys \<Rightarrow> 'c fsys \<Rightarrow> (string list \<times> (string \<times> string list) list) list \<Rightarrow>
     sni_error + 'c liveStore" where
  "sni_setup sha256 tlsConfigured fs1 fs2 directives =
     (if tlsConfigured then Inl AlreadyConfigured
      else (case parseConfig directives of
              Inl e \<Rightarrow> Inl e
            | Inr cfg \<Rightarrow>
              (case buildCertStore (loadX509 fs1) cfg of
                 Inl e \<Rightarrow> Inl (BuildError e)
               | Inr store \<Rightarrow> Inr (newLiveStore cfg store (digestPairs sha256 (readFile fs2) (files cfg))))))"

section \<open>A reload never blanks the store\<close>

abbreviation fs_digest :: "(bytes \<Rightarrow> bytes) \<Rightarrow> 'c liveStore \<Rightarrow> 'c fsys \<Rightarrow> bytes" where
  "fs_digest sha256 l fs \<equiv> digestPairs sha256 (readFile fs) (files (l_cfg l))"

text \<open>
  A poll installs a store that was built from the configured files, or changes nothing: a failed
  build (files caught mid-rotation) keeps both the certificates and the digest, so the next poll
  tries again.
\<close>

lemma reload_keeps_a_built_store:
  "reloadOnce sha256 fs1 fs2 l = l \<or>
   (\<exists>store. buildCertStore (loadX509 fs2) (l_cfg l) = Inr store \<and>
      reloadOnce sha256 fs1 fs2 l = l\<lparr>current := store, digest := digestPairs sha256 (readFile fs1) (files (l_cfg l))\<rparr>)"
  by (auto simp: reloadOnce_def Let_def split: sum.split)

section \<open>Polling converges\<close>

text \<open>
  rotation during a poll is not lost. If a poll read the digest from \<open>fs1\<close> and built from a later \<open>fs2\<close>,
  then, provided the digest tells the two apart, the next poll that finds \<open>fs2\<close> unchanged serves
  exactly the certificates of \<open>fs2\<close>.
\<close>

lemma next_poll_installs_the_rotated_files:
  assumes "fs_digest sha256 l fs1 \<noteq> fs_digest sha256 l fs2" and "fs_digest sha256 l fs2 \<noteq> digest l"
    and "buildCertStore (loadX509 fs2) (l_cfg l) = Inr store"
  shows "current (reloadOnce sha256 fs2 fs2 (reloadOnce sha256 fs1 fs2 l)) = store"
  using assms by (auto simp: reloadOnce_def Let_def)

definition example_fs :: "byte \<Rightarrow> nat \<Rightarrow> nat fsys" where
  "example_fs content cert =
     \<lparr>readFile = (\<lambda>_. Some [content]), loadX509 = (\<lambda>_ _. Inr \<lparr>l_cert = cert, l_DNSNames = [''a'']\<rparr>)\<rparr>"

definition example_live :: "nat liveStore" where
  "example_live = \<lparr>current = example_store, digest = [9], l_cfg = example_store_config\<rparr>"

lemma next_poll_installs_the_rotated_files_witness:
  "fallback (current (reloadOnce id (example_fs 2 7) (example_fs 2 7) (reloadOnce id (example_fs 1 6) (example_fs 2 7) example_live)))
     = Some 7"
proof -
  let ?s = "\<lparr>byName = [(''a'', 7), (''a'', 7)], bySuffix = Some [], fallback = Some 7, noSNICert = None,
    noSNI = noSNIAsUnmatched, strict = True\<rparr> :: nat certStore"
  have "fs_digest id example_live (example_fs 1 6) \<noteq> fs_digest id example_live (example_fs 2 7)"
    and "fs_digest id example_live (example_fs 2 7) \<noteq> digest example_live"
    and "buildCertStore (loadX509 (example_fs 2 7)) (l_cfg example_live) = Inr ?s"
    by code_simp+
  from next_poll_installs_the_rotated_files [OF this] show ?thesis by simp
qed

text \<open>
  The digest runs the files' bytes together: a byte that moves from the end of one file to the start
  of the next leaves it unchanged, whatever the hash.
\<close>

lemma digest_ignores_file_boundaries:
  "digestPairs sha256 [''c'' \<mapsto> [1, 2], ''k'' \<mapsto> [3]] [(''c'', ''k'')] =
   digestPairs sha256 [''c'' \<mapsto> [1], ''k'' \<mapsto> [2, 3]] [(''c'', ''k'')]"
  by (simp add: digestPairs_def digest_input_def)

text \<open>
  at setup the two reads are in the other order: the store is built from \<open>fs1\<close>, the digest computed
  afterwards from \<open>fs2\<close>. A rotation in between is never noticed: however often the files are polled
  while they stay as they are, the store built from \<open>fs1\<close> remains.
\<close>

lemma rotation_during_setup_is_missed:
  assumes "sni_setup sha256 False fs1 fs2 directives = Inr l"
  shows "((\<lambda>l. reloadOnce sha256 fs2 fs2 l) ^^ n) l = l \<and>
    (\<exists>store. buildCertStore (loadX509 fs1) (l_cfg l) = Inr store \<and> current l = store)"
proof -
  have l: "digest l = fs_digest sha256 l fs2" "\<exists>store. buildCertStore (loadX509 fs1) (l_cfg l) = Inr store \<and> current l = store"
    using assms by (auto simp: sni_setup_def newLiveStore_def split: sum.splits)
  then have "reloadOnce sha256 fs2 fs2 l = l" by (simp add: reloadOnce_def)
  then have "((\<lambda>l. reloadOnce sha256 fs2 fs2 l) ^^ n) l = l" by (induction n) simp_all
  with l show ?thesis by simp
qed

lemma rotation_during_setup_is_missed_witness:
  "\<exists>l. sni_setup id False (example_fs 1 6) (example_fs 2 7) [([''c'', ''k''], [])] = Inr l \<and>
     ((\<lambda>l. reloadOnce id (example_fs 2 7) (example_fs 2 7) l) ^^ 5) l = l \<and> fallback (current l) = Some 6"
proof -
  let ?s = "\<lparr>byName = [(''a'', 6)], bySuffix = Some [], fallback = Some 6, noSNICert = None,
    noSNI = noSNIAsUnmatched, strict = False\<rparr> :: nat certStore"
  let ?l = "\<lparr>current = ?s, digest = [2, 2],
    l_cfg = \<lparr>noSNIPair = ([], []), pairs = [(''c'', ''k'')], cfg_noSNI = noSNIAsUnmatched, cfg_strict = False\<rparr>\<rparr>"
  have "sni_setup id False (example_fs 1 6) (example_fs 2 7) [([''c'', ''k''], [])] = Inr ?l" by code_simp
  with rotation_during_setup_is_missed [OF this, of 5] show ?thesis by auto
qed

end
