(* ===== verification/Sni_Concurrent.thy ===== *)
theory Sni_Concurrent
  imports Sni_Reload
begin

text \<open>
  \<open>reloadOnce\<close> of \<open>sni_tls/reload.go\<close> run by several poll loops on one store while the files are rotated: every read of the files, every
  store to \<open>current\<close> or \<open>digest\<close> and the lock of \<open>reloadMu\<close> is a step of its own. With the lock, the digest that is installed never
  belongs to files whose certificates are not; without it, two loops can end that way.
\<close>

section \<open>Loops, store and files\<close>

text \<open>
  A loop waits for its ticker, reads the digest, has a digest and is about to build, has a store and is about to install it, or
  has installed the store and is about to record the digest. \<open>Reading\<close> and \<open>Building\<close> remember how often the files had been
  rotated when the reading began, which tells whether they were rotated under it.
\<close>

datatype 'c poll_pc = Waiting | Reading nat | Building nat bytes | Swapping bytes "'c certStore" | Recording bytes

text \<open>
  Beside the files, the store and the lock, three fields that only record the history: how often the files were rotated, the
  digests of all contents they had and of the torn reads of them, and whether every rotation so far was a renewal, one that
  brought contents with a digest not among these.
\<close>

record 'c polls =
  fs :: "'c fsys"
  shared :: "'c liveStore"
  reloadMu :: "nat option"
  pcs :: "nat \<Rightarrow> 'c poll_pc"
  turn :: nat
  seen :: "bytes set"
  renewed :: bool

abbreviation now_digest :: "(bytes \<Rightarrow> bytes) \<Rightarrow> 'c polls \<Rightarrow> bytes" where
  "now_digest sha256 s \<equiv> fs_digest sha256 (shared s) (fs s)"

definition goto :: "nat \<Rightarrow> 'c poll_pc \<Rightarrow> 'c polls \<Rightarrow> 'c polls" where
  "goto i pc s = s\<lparr>pcs := (pcs s)(i := pc)\<rparr>"

definition unlock :: "nat \<Rightarrow> 'c polls \<Rightarrow> 'c polls" where
  "unlock i s = goto i Waiting (s\<lparr>reloadMu := None\<rparr>)"

definition rotated :: "(bytes \<Rightarrow> bytes) \<Rightarrow> 'c fsys \<Rightarrow> 'c polls \<Rightarrow> 'c polls" where
  "rotated sha256 f s =
     (let d = fs_digest sha256 (shared s) f in
      s\<lparr>fs := f, turn := Suc (turn s), seen := insert d (seen s), renewed := (renewed s \<and> d \<notin> seen s)\<rparr>)"

text \<open>
  The steps, with the lock (\<open>mutex\<close>) or without it. A rotation brings any contents whatever. A read during which the files are
  rotated gives any digest at all (\<open>torn_digest\<close>, or \<open>same_digest\<close> when it is the recorded one), and a build during which they
  are rotated, so after the digest was read, may give any store (\<open>torn_build\<close>) or fail.
\<close>

inductive poll_step :: "(bytes \<Rightarrow> bytes) \<Rightarrow> bool \<Rightarrow> 'c polls \<Rightarrow> 'c polls \<Rightarrow> bool" for sha256 mutex where
  rotate: "poll_step sha256 mutex s (rotated sha256 f s)"
| tick: "pcs s i = Waiting \<Longrightarrow> \<not> mutex \<or> reloadMu s = None \<Longrightarrow>
    poll_step sha256 mutex s (goto i (Reading (turn s)) (s\<lparr>reloadMu := Some i\<rparr>))"
| same_digest: "pcs s i = Reading n \<Longrightarrow> n \<noteq> turn s \<or> now_digest sha256 s = digest (shared s) \<Longrightarrow>
    poll_step sha256 mutex s (unlock i s)"
| new_digest: "pcs s i = Reading n \<Longrightarrow> now_digest sha256 s \<noteq> digest (shared s) \<Longrightarrow>
    poll_step sha256 mutex s (goto i (Building (turn s) (now_digest sha256 s)) s)"
| torn_digest: "pcs s i = Reading n \<Longrightarrow> n \<noteq> turn s \<Longrightarrow> d \<noteq> digest (shared s) \<Longrightarrow>
    poll_step sha256 mutex s (goto i (Building (turn s) d) (s\<lparr>seen := insert d (seen s)\<rparr>))"
| build_failed: "pcs s i = Building n d \<Longrightarrow> n \<noteq> turn s \<or> isl (buildCertStore (loadX509 (fs s)) (l_cfg (shared s))) \<Longrightarrow>
    poll_step sha256 mutex s (unlock i s)"
| built: "pcs s i = Building n d \<Longrightarrow> buildCertStore (loadX509 (fs s)) (l_cfg (shared s)) = Inr st \<Longrightarrow>
    poll_step sha256 mutex s (goto i (Swapping d st) s)"
| torn_build: "pcs s i = Building n d \<Longrightarrow> n \<noteq> turn s \<Longrightarrow> poll_step sha256 mutex s (goto i (Swapping d st) s)"
| swap: "pcs s i = Swapping d st \<Longrightarrow> poll_step sha256 mutex s (goto i (Recording d) (s\<lparr>shared := (shared s)\<lparr>current := st\<rparr>\<rparr>))"
| set_digest: "pcs s i = Recording d \<Longrightarrow> poll_step sha256 mutex s (unlock i (s\<lparr>shared := (shared s)\<lparr>digest := d\<rparr>\<rparr>))"

text \<open>
  A server starts with what \<open>setup\<close> made (\<open>sni_setup\<close>: the store was built first, the digest computed after that), the files as
  they were when the digest was computed, and its loops at their tickers.
\<close>

definition polls_init :: "'c fsys \<Rightarrow> 'c liveStore \<Rightarrow> 'c polls" where
  "polls_init f l =
     \<lparr>fs = f, shared = l, reloadMu = None, pcs = (\<lambda>_. Waiting), turn = 0, seen = {digest l}, renewed = True\<rparr>"

abbreviation polls_run :: "(bytes \<Rightarrow> bytes) \<Rightarrow> bool \<Rightarrow> 'c polls \<Rightarrow> 'c polls \<Rightarrow> bool" where
  "polls_run sha256 mutex \<equiv> (poll_step sha256 mutex)\<^sup>*\<^sup>*"

section \<open>The invariant of the lock\<close>

abbreviation built_now :: "'c polls \<Rightarrow> 'c certStore \<Rightarrow> bool" where
  "built_now s st \<equiv> buildCertStore (loadX509 (fs s)) (l_cfg (shared s)) = Inr st"

text \<open>While a loop has found a change, the recorded digest is not that of the files.\<close>

fun pc_ok :: "(bytes \<Rightarrow> bytes) \<Rightarrow> 'c polls \<Rightarrow> 'c poll_pc \<Rightarrow> bool" where
  "pc_ok sha256 s Waiting \<longleftrightarrow> True"
| "pc_ok sha256 s (Reading n) \<longleftrightarrow> (n \<noteq> turn s \<longrightarrow> digest (shared s) \<noteq> now_digest sha256 s)"
| "pc_ok sha256 s (Building n d) \<longleftrightarrow>
     d \<in> seen s \<and> digest (shared s) \<noteq> now_digest sha256 s \<and> (n \<noteq> turn s \<longrightarrow> d \<noteq> now_digest sha256 s)"
| "pc_ok sha256 s (Swapping d st) \<longleftrightarrow> d \<in> seen s \<and> digest (shared s) \<noteq> now_digest sha256 s \<and> (d = now_digest sha256 s \<longrightarrow> built_now s st)"
| "pc_ok sha256 s (Recording d) \<longleftrightarrow>
     d \<in> seen s \<and> digest (shared s) \<noteq> now_digest sha256 s \<and> (d = now_digest sha256 s \<longrightarrow> built_now s (current (shared s)))"

text \<open>
  What the renewals so far give, beside the position of each loop: the recorded digest is that of the files only beside their
  certificates, unless nothing was rotated yet and \<open>setup\<close> itself (\<open>ok\<close> says how it went) recorded another digest than that of its store.
\<close>

definition digest_inv :: "(bytes \<Rightarrow> bytes) \<Rightarrow> bool \<Rightarrow> 'c polls \<Rightarrow> bool" where
  "digest_inv sha256 ok s \<longleftrightarrow>
     now_digest sha256 s \<in> seen s \<and> digest (shared s) \<in> seen s \<and>
     (digest (shared s) = now_digest sha256 s \<longrightarrow> built_now s (current (shared s)) \<or> (turn s = 0 \<and> \<not> ok))"

definition poll_inv :: "(bytes \<Rightarrow> bytes) \<Rightarrow> bool \<Rightarrow> 'c polls \<Rightarrow> bool" where
  "poll_inv sha256 ok s \<longleftrightarrow>
     (\<forall>i. pcs s i \<noteq> Waiting \<longrightarrow> reloadMu s = Some i) \<and>
     (renewed s \<longrightarrow> digest_inv sha256 ok s \<and> (\<forall>i. pc_ok sha256 s (pcs s i)))"

lemma poll_inv_init:
  assumes "digest l = fs_digest sha256 l f"
  shows "poll_inv sha256 (buildCertStore (loadX509 f) (l_cfg l) = Inr (current l)) (polls_init f l)"
  using assms by (simp add: poll_inv_def digest_inv_def polls_init_def)

lemma poll_inv_rotate:
  assumes "poll_inv sha256 ok s"
  shows "poll_inv sha256 ok (rotated sha256 f s)"
proof -
  have "pc_ok sha256 (rotated sha256 f s) pc" if "pc_ok sha256 s pc" "digest_inv sha256 ok s" "renewed (rotated sha256 f s)" for pc
    using that by (cases pc) (auto simp: digest_inv_def rotated_def Let_def)
  moreover have "digest_inv sha256 ok (rotated sha256 f s)" if "digest_inv sha256 ok s" "renewed (rotated sha256 f s)"
    using that by (auto simp: digest_inv_def rotated_def Let_def)
  moreover have "renewed (rotated sha256 f s) \<Longrightarrow> renewed s" "pcs (rotated sha256 f s) = pcs s"
    "reloadMu (rotated sha256 f s) = reloadMu s"
    by (simp_all add: rotated_def Let_def)
  ultimately show ?thesis using assms by (auto simp: poll_inv_def)
qed

text \<open>A step of the loop that holds the lock: all others wait.\<close>

lemma poll_inv_alone:
  assumes "poll_inv sha256 ok s" and "pcs s i = pc" and "pc \<noteq> Waiting"
    and frame: "\<forall>j. j \<noteq> i \<longrightarrow> pcs t j = pcs s j" "reloadMu s = Some i \<Longrightarrow> reloadMu t = (if pcs t i = Waiting then None else Some i)"
      "renewed t = renewed s"
    and step: "pc_ok sha256 s pc \<Longrightarrow> digest_inv sha256 ok s \<Longrightarrow> digest_inv sha256 ok t \<and> pc_ok sha256 t (pcs t i)"
  shows "poll_inv sha256 ok t"
proof -
  have lock: "reloadMu s = Some i" using assms(1-3) unfolding poll_inv_def by blast
  have others: "pcs t j = Waiting" if "j \<noteq> i" for j
    using assms(1) lock frame(1) that unfolding poll_inv_def by (metis option.inject)
  then have "pcs t j \<noteq> Waiting \<Longrightarrow> reloadMu t = Some j" for j using frame(2) lock by (cases "j = i") auto
  moreover have "digest_inv sha256 ok t \<and> pc_ok sha256 t (pcs t j)" if "renewed t" for j
    using that step frame(3) others [of j] assms(1,2) unfolding poll_inv_def by (cases "j = i") auto
  ultimately show ?thesis unfolding poll_inv_def by blast
qed

lemma poll_inv_step:
  assumes "poll_inv sha256 ok s" and "poll_step sha256 True s s'"
  shows "poll_inv sha256 ok s'"
  using assms(2)
proof cases
  case (tick i)
  have "pc_ok sha256 s pc \<Longrightarrow> pc_ok sha256 (goto i p (s\<lparr>reloadMu := m\<rparr>)) pc" for pc p m
    by (cases pc) (auto simp: goto_def)
  then show ?thesis using assms(1) tick by (auto simp: poll_inv_def digest_inv_def goto_def)
next
  case (rotate f)
  then show ?thesis using poll_inv_rotate [OF assms(1)] by simp
qed (erule poll_inv_alone [OF assms(1)], simp, auto simp: unlock_def goto_def digest_inv_def)+

lemma poll_inv_run: "polls_run sha256 True s s' \<Longrightarrow> poll_inv sha256 ok s \<Longrightarrow> poll_inv sha256 ok s'"
  by (induction rule: rtranclp_induct) (auto intro: poll_inv_step)

text \<open>A poll that nobody disturbs is \<open>reloadOnce\<close>.\<close>

lemma undisturbed_poll_is_reloadOnce:
  assumes "reloadMu s = None" and "pcs s i = Waiting"
  shows "polls_run sha256 True s (s\<lparr>shared := reloadOnce sha256 (fs s) (fs s) (shared s)\<rparr>)"
proof -
  let ?d = "now_digest sha256 s" and ?b = "buildCertStore (loadX509 (fs s)) (l_cfg (shared s))"
  let ?r = "goto i (Reading (turn s)) (s\<lparr>reloadMu := Some i\<rparr>)"
  have restored: "unlock i (goto i pc (t\<lparr>reloadMu := m\<rparr>)) = t" if "pcs t i = Waiting" "reloadMu t = None" for t pc m
    using that by (auto simp: unlock_def goto_def fun_upd_idem)
  have tick: "poll_step sha256 True s ?r" using assms by (auto intro: poll_step.tick)
  show ?thesis
  proof (cases "?d = digest (shared s)")
    case True
    have "poll_step sha256 True ?r (unlock i ?r)" using True by (auto intro!: poll_step.same_digest simp: goto_def)
    with tick True restored [OF assms(2,1)] show ?thesis by (auto simp: reloadOnce_def intro: converse_rtranclp_into_rtranclp)
  next
    case False
    let ?w = "goto i (Building (turn s) ?d) ?r"
    have new: "poll_step sha256 True ?r ?w"
      using poll_step.new_digest [of ?r i "turn s" sha256 True] False by (simp add: goto_def)
    show ?thesis
    proof (cases ?b)
      case (Inl e)
      have "poll_step sha256 True ?w (unlock i ?w)" using Inl by (auto intro!: poll_step.build_failed simp: goto_def)
      moreover have "unlock i ?w = s" using assms by (simp add: unlock_def goto_def fun_upd_idem)
      ultimately show ?thesis using tick new False Inl
        by (auto simp: reloadOnce_def Let_def intro: converse_rtranclp_into_rtranclp)
    next
      case (Inr st)
      let ?p = "goto i (Swapping ?d st) ?w" let ?q = "goto i (Recording ?d) (?p\<lparr>shared := (shared ?p)\<lparr>current := st\<rparr>\<rparr>)"
      let ?e = "unlock i (?q\<lparr>shared := (shared ?q)\<lparr>digest := ?d\<rparr>\<rparr>)"
      have b: "poll_step sha256 True ?w ?p" by (rule poll_step.built [of _ _ "turn s" ?d]) (simp_all add: goto_def Inr)
      have w: "poll_step sha256 True ?p ?q" by (rule poll_step.swap [of _ _ ?d]) (simp add: goto_def)
      have e: "poll_step sha256 True ?q ?e" by (rule poll_step.set_digest) (simp add: goto_def)
      have "?e = s\<lparr>shared := reloadOnce sha256 (fs s) (fs s) (shared s)\<rparr>"
        using assms False Inr by (simp add: reloadOnce_def Let_def unlock_def goto_def fun_upd_idem)
      moreover have "polls_run sha256 True s ?e"
        by (rule converse_rtranclp_into_rtranclp, rule tick, rule converse_rtranclp_into_rtranclp, rule new,
            rule converse_rtranclp_into_rtranclp, rule b, rule converse_rtranclp_into_rtranclp, rule w, rule r_into_rtranclp, rule e)
      ultimately show ?thesis by simp
    qed
  qed
qed

section \<open>The property\<close>

text \<open>
  The conditions under which the recorded digest can be trusted: every rotation brought contents with a digest not met before
  (a pair put back may be missed, \<open>a_pair_put_back_is_missed\<close> below, and so is a change that leaves the concatenated bytes alone,
  \<open>digest_ignores_file_boundaries\<close>), and either the store \<open>setup\<close> built is that of the files it took the digest of, or the files
  were rotated since (a rotation between these two steps of \<open>setup\<close> is not noticed, \<open>rotation_during_setup_is_missed\<close>).
\<close>

definition trusted :: "'c fsys \<Rightarrow> 'c liveStore \<Rightarrow> 'c polls \<Rightarrow> bool" where
  "trusted f l s \<longleftrightarrow> renewed s \<and> (turn s \<noteq> 0 \<or> buildCertStore (loadX509 f) (l_cfg l) = Inr (current l))"

text \<open>
  C35: however many poll loops share the store that \<open>setup\<close> made, and however their steps interleave with each other and with
  changes of the files, at most one is inside \<open>reloadOnce\<close>. As long as the files are renewed and never changed to contents
  with a digest met before, and they were not rotated between the two steps of \<open>setup\<close> or have been since, the recorded digest is
  that of the files on disk only while the certificates being served are those built from these files: no later poll is needed, so
  none is missed. Under the same conditions, or else when the recorded digest is not that of the files, a poll that runs to its end
  without another rotation installs the certificates of the files, if the lock is free and they can be loaded.
\<close>

theorem concurrent_polls_serve_the_recorded_files:
  assumes "sni_setup sha256 False f1 f2 directives = Inr l" and "polls_run sha256 True (polls_init f2 l) s"
  shows "(\<forall>i j. pcs s i \<noteq> Waiting \<longrightarrow> pcs s j \<noteq> Waiting \<longrightarrow> i = j) \<and>
    (trusted f2 l s \<and> digest (shared s) = now_digest sha256 s \<longrightarrow>
       buildCertStore (loadX509 (fs s)) (l_cfg (shared s)) = Inr (current (shared s))) \<and>
    (reloadMu s = None \<and> buildCertStore (loadX509 (fs s)) (l_cfg (shared s)) = Inr st \<and>
       (trusted f2 l s \<or> digest (shared s) \<noteq> now_digest sha256 s) \<longrightarrow>
       polls_run sha256 True s (s\<lparr>shared := (shared s)\<lparr>current := st, digest := now_digest sha256 s\<rparr>\<rparr>))"
proof -
  have "digest l = fs_digest sha256 l f2"
    using assms(1) by (auto simp: sni_setup_def newLiveStore_def split: sum.splits)
  then have inv: "poll_inv sha256 (buildCertStore (loadX509 f2) (l_cfg l) = Inr (current l)) s"
    using poll_inv_run [OF assms(2) poll_inv_init] by blast
  have now: "built_now s (current (shared s))" if "trusted f2 l s" "digest (shared s) = now_digest sha256 s"
    using inv that unfolding poll_inv_def digest_inv_def trusted_def by blast
  have "polls_run sha256 True s (s\<lparr>shared := (shared s)\<lparr>current := st, digest := now_digest sha256 s\<rparr>\<rparr>)"
    if "reloadMu s = None" "built_now s st" "trusted f2 l s \<or> digest (shared s) \<noteq> now_digest sha256 s"
  proof -
    have "pcs s 0 = Waiting" using inv that(1) unfolding poll_inv_def by (metis option.distinct(1))
    moreover have "reloadOnce sha256 (fs s) (fs s) (shared s) = (shared s)\<lparr>current := st, digest := now_digest sha256 s\<rparr>"
      using now that(2,3) by (cases "digest (shared s) = now_digest sha256 s") (auto simp: reloadOnce_def Let_def)
    ultimately show ?thesis using undisturbed_poll_is_reloadOnce [OF that(1)] by metis
  qed
  then show ?thesis using inv now unfolding poll_inv_def by (metis option.inject)
qed

text \<open>A rotation under one loop's build, then a poll by another loop.\<close>

definition store_of :: "nat \<Rightarrow> nat certStore" where
  "store_of c = \<lparr>byName = [(''a'', c), (''a'', c)], bySuffix = Some [], fallback = Some c, noSNICert = None, noSNI = noSNIAsUnmatched, strict = True\<rparr>"

lemma store_of_built:
  "buildCertStore (loadX509 (example_fs 1 6)) example_store_config = Inr (store_of 6)"
  "buildCertStore (loadX509 (example_fs 2 7)) example_store_config = Inr (store_of 7)"
  "buildCertStore (loadX509 (example_fs 3 8)) example_store_config = Inr (store_of 8)"
  by code_simp+

lemma example_digests: "digestPairs id (readFile (example_fs b c)) (files example_store_config) = [b, b, b, b]"
  by (simp add: digestPairs_def digest_input_def example_fs_def example_store_config_def files_def)

definition example_directives :: "(string list \<times> (string \<times> string list) list) list" where
  "example_directives = [([''m'', ''k''], []), ([''c'', ''k''], []), ([], [(''strict'', [])])]"

definition start_live :: "nat liveStore" where
  "start_live = \<lparr>current = store_of 6, digest = [1, 1, 1, 1], l_cfg = example_store_config\<rparr>"

lemma start_live_setup: "sni_setup id False (example_fs 1 6) (example_fs 1 6) example_directives = Inr start_live"
proof -
  have "parseConfig example_directives = Inr example_store_config" by code_simp
  then show ?thesis by (simp add: sni_setup_def store_of_built example_digests newLiveStore_def start_live_def)
qed

text \<open>Two loops on the example files.\<close>

definition two_loops ::
  "nat fsys \<Rightarrow> nat \<Rightarrow> bytes \<Rightarrow> nat option \<Rightarrow> nat poll_pc \<Rightarrow> nat poll_pc \<Rightarrow> nat \<Rightarrow> bytes set \<Rightarrow> bool \<Rightarrow> nat polls" where
  "two_loops f c d m p q n sn r =
     \<lparr>fs = f, shared = \<lparr>current = store_of c, digest = d, l_cfg = example_store_config\<rparr>, reloadMu = m,
      pcs = (\<lambda>_. Waiting)(0 := p, 1 := q), turn = n, seen = sn, renewed = r\<rparr>"

abbreviation start_polls :: "nat polls" where
  "start_polls \<equiv> polls_init (example_fs 1 6) start_live"

abbreviation rotated_polls :: "nat polls" where
  "rotated_polls \<equiv> two_loops (example_fs 2 7) 6 [1, 1, 1, 1] None Waiting Waiting 1 {[2, 2, 2, 2], [1, 1, 1, 1]} True"

lemma two_loops_step: "polls_run id mutex a s \<Longrightarrow> poll_step id mutex s s' \<Longrightarrow> s' = t \<Longrightarrow> polls_run id mutex a t"
  by auto

lemmas two_loops_simps = two_loops_def goto_def unlock_def rotated_def Let_def example_digests store_of_built fun_eq_iff

lemma rotated_polls_reached: "polls_run id mutex start_polls rotated_polls"
  by (rule two_loops_step [OF rtranclp.rtrancl_refl poll_step.rotate [where f = "example_fs 2 7"]])
    (simp add: polls_init_def start_live_def two_loops_simps)

theorem concurrent_polls_serve_the_recorded_files_witness:
  "\<exists>s. polls_run id True start_polls rotated_polls \<and> polls_run id True rotated_polls s \<and> fs s = example_fs 2 7 \<and>
     fallback (current (shared rotated_polls)) = Some 6 \<and> fallback (current (shared s)) = Some 7"
proof -
  have "polls_run id True rotated_polls
    (rotated_polls\<lparr>shared := (shared rotated_polls)\<lparr>current := store_of 7, digest := now_digest id rotated_polls\<rparr>\<rparr>)"
    using concurrent_polls_serve_the_recorded_files [OF start_live_setup rotated_polls_reached, of "store_of 7"]
    by (simp add: two_loops_def store_of_built trusted_def)
  moreover have "fs rotated_polls = example_fs 2 7" "fallback (store_of 7) = Some 7" "fallback (current (shared rotated_polls)) = Some 6"
    by (simp_all add: two_loops_def store_of_def)
  ultimately show ?thesis using rotated_polls_reached [of True] by fastforce
qed

text \<open>
  Without the lock: one loop builds from the second contents, another from the third; their four stores interleave, and the digest
  of the third contents stands beside the certificates of the second, so no poll replaces them, although every rotation was a renewal.
\<close>

abbreviation stranded :: "nat polls" where
  "stranded \<equiv> two_loops (example_fs 3 8) 7 [3, 3, 3, 3] None Waiting Waiting 2 {[3, 3, 3, 3], [2, 2, 2, 2], [1, 1, 1, 1]} True"

lemma without_the_lock_a_certificate_is_stranded:
  "polls_run id False start_polls stranded \<and> trusted (example_fs 1 6) start_live stranded \<and>
   digest (shared stranded) = now_digest id stranded \<and>
   buildCertStore (loadX509 (fs stranded)) (l_cfg (shared stranded)) \<noteq> Inr (current (shared stranded))"
proof -
  let ?A = "[1, 1, 1, 1] :: bytes" and ?B = "[2, 2, 2, 2] :: bytes" and ?C = "[3, 3, 3, 3] :: bytes"
  let ?f2 = "example_fs 2 7" and ?f3 = "example_fs 3 8" and ?S = "{[2, 2, 2, 2], [1, 1, 1, 1]} :: bytes set"
  let ?T = "insert ?C ?S" and ?run = "polls_run id False start_polls"
  have "?run (two_loops ?f2 6 ?A (Some 0) (Reading 1) Waiting 1 ?S True)"
    by (rule two_loops_step [OF rotated_polls_reached poll_step.tick [where i = 0]]) (simp_all add: two_loops_simps)
  then have "?run (two_loops ?f2 6 ?A (Some 0) (Building 1 ?B) Waiting 1 ?S True)"
    by (rule two_loops_step [OF _ poll_step.new_digest [where i = 0]]) (simp_all add: two_loops_simps)
  then have "?run (two_loops ?f2 6 ?A (Some 0) (Swapping ?B (store_of 7)) Waiting 1 ?S True)"
    by (rule two_loops_step [OF _ poll_step.built [where i = 0]]) (simp_all add: two_loops_simps)
  then have "?run (two_loops ?f3 6 ?A (Some 0) (Swapping ?B (store_of 7)) Waiting 2 ?T True)"
    by (rule two_loops_step [OF _ poll_step.rotate [where f = ?f3]]) (simp_all add: two_loops_simps)
  then have "?run (two_loops ?f3 6 ?A (Some 1) (Swapping ?B (store_of 7)) (Reading 2) 2 ?T True)"
    by (rule two_loops_step [OF _ poll_step.tick [where i = 1]]) (simp_all add: two_loops_simps)
  then have "?run (two_loops ?f3 6 ?A (Some 1) (Swapping ?B (store_of 7)) (Building 2 ?C) 2 ?T True)"
    by (rule two_loops_step [OF _ poll_step.new_digest [where i = 1]]) (simp_all add: two_loops_simps)
  then have "?run (two_loops ?f3 6 ?A (Some 1) (Swapping ?B (store_of 7)) (Swapping ?C (store_of 8)) 2 ?T True)"
    by (rule two_loops_step [OF _ poll_step.built [where i = 1]]) (simp_all add: two_loops_simps)
  then have "?run (two_loops ?f3 8 ?A (Some 1) (Swapping ?B (store_of 7)) (Recording ?C) 2 ?T True)"
    by (rule two_loops_step [OF _ poll_step.swap [where i = 1]]) (simp_all add: two_loops_simps)
  then have "?run (two_loops ?f3 7 ?A (Some 1) (Recording ?B) (Recording ?C) 2 ?T True)"
    by (rule two_loops_step [OF _ poll_step.swap [where i = 0]]) (simp_all add: two_loops_simps)
  then have "?run (two_loops ?f3 7 ?B None Waiting (Recording ?C) 2 ?T True)"
    by (rule two_loops_step [OF _ poll_step.set_digest [where i = 0]]) (simp_all add: two_loops_simps)
  then have "?run stranded"
    by (rule two_loops_step [OF _ poll_step.set_digest [where i = 1]]) (simp_all add: two_loops_simps)
  then show ?thesis by (simp add: two_loops_def trusted_def example_digests store_of_built) (simp add: store_of_def)
qed

text \<open>
  With the lock, when a pair is put back: the files change under a build, the certificates of the third contents are installed with
  the digest of the second, and then the second contents return, with their digest recorded beside the certificates of the third.
\<close>

abbreviation put_back :: "nat polls" where
  "put_back \<equiv> two_loops (example_fs 2 7) 8 [2, 2, 2, 2] None Waiting Waiting 3 {[3, 3, 3, 3], [2, 2, 2, 2], [1, 1, 1, 1]} False"

lemma a_pair_put_back_is_missed:
  "polls_run id True start_polls put_back \<and> \<not> renewed put_back \<and> digest (shared put_back) = now_digest id put_back \<and>
   buildCertStore (loadX509 (fs put_back)) (l_cfg (shared put_back)) \<noteq> Inr (current (shared put_back))"
proof -
  let ?A = "[1, 1, 1, 1] :: bytes" and ?B = "[2, 2, 2, 2] :: bytes" and ?C = "[3, 3, 3, 3] :: bytes"
  let ?f2 = "example_fs 2 7" and ?f3 = "example_fs 3 8" and ?S = "{[2, 2, 2, 2], [1, 1, 1, 1]} :: bytes set"
  let ?T = "insert ?C ?S" and ?run = "polls_run id True start_polls"
  have "?run (two_loops ?f2 6 ?A (Some 0) (Reading 1) Waiting 1 ?S True)"
    by (rule two_loops_step [OF rotated_polls_reached poll_step.tick [where i = 0]]) (simp_all add: two_loops_simps)
  then have "?run (two_loops ?f2 6 ?A (Some 0) (Building 1 ?B) Waiting 1 ?S True)"
    by (rule two_loops_step [OF _ poll_step.new_digest [where i = 0]]) (simp_all add: two_loops_simps)
  then have "?run (two_loops ?f3 6 ?A (Some 0) (Building 1 ?B) Waiting 2 ?T True)"
    by (rule two_loops_step [OF _ poll_step.rotate [where f = ?f3]]) (simp_all add: two_loops_simps)
  then have "?run (two_loops ?f3 6 ?A (Some 0) (Swapping ?B (store_of 8)) Waiting 2 ?T True)"
    by (rule two_loops_step [OF _ poll_step.built [where i = 0]]) (simp_all add: two_loops_simps)
  then have "?run (two_loops ?f3 8 ?A (Some 0) (Recording ?B) Waiting 2 ?T True)"
    by (rule two_loops_step [OF _ poll_step.swap [where i = 0]]) (simp_all add: two_loops_simps)
  then have "?run (two_loops ?f3 8 ?B None Waiting Waiting 2 ?T True)"
    by (rule two_loops_step [OF _ poll_step.set_digest [where i = 0]]) (simp_all add: two_loops_simps)
  then have "?run put_back"
    by (rule two_loops_step [OF _ poll_step.rotate [where f = ?f2]]) (auto simp: two_loops_simps)
  then show ?thesis by (simp add: two_loops_def example_digests store_of_built) (simp add: store_of_def)
qed

end
