(* ===== verification/Probe_Ech.thy ===== *)
theory Probe_Ech
  imports Go_Lib Codec
begin

text \<open>
  The \<open>ECHConfigList\<close> the \<open>probe\<close> plugin serves as a transport canary (\<open>echconfig.go\<close>): the hand-written
  encoder with its nested length prefixes, and the parser that decides whether a list arrived intact.
\<close>

section \<open>Encoder\<close>

abbreviation (input) echVersion :: u16 where "echVersion \<equiv> 0xfe0d"
abbreviation (input) echKEMX25519 :: u16 where "echKEMX25519 \<equiv> 0x0020"
abbreviation (input) echKDFHKDFSHA256 :: u16 where "echKDFHKDFSHA256 \<equiv> 1"
abbreviation (input) echAEADAES128GCM :: u16 where "echAEADAES128GCM \<equiv> 1"
abbreviation (input) echMaxNameLength :: byte where "echMaxNameLength \<equiv> 0"

datatype ech_error =
  ErrECHPublicKeyLen nat
| PublicNameTooLong
| DoesNotFit nat
| Malformed string

text \<open>The checked conversions \<open>u16\<close> and \<open>u8\<close> of a length.\<close>

definition ech_u16 :: "nat \<Rightarrow> ech_error + u16" where
  "ech_u16 n = (if n > 65535 then Inl (DoesNotFit n) else Inr (of_nat n))"

definition ech_u8 :: "nat \<Rightarrow> ech_error + byte" where
  "ech_u8 n = (if n > 255 then Inl (DoesNotFit n) else Inr (of_nat n))"

definition buildHPKEKeyConfig :: "byte \<Rightarrow> bytes \<Rightarrow> ech_error + bytes" where
  "buildHPKEKeyConfig configID publicKey =
     (case ech_u16 (length publicKey) of
        Inl e \<Rightarrow> Inl e
      | Inr keyLen \<Rightarrow>
          let key = [configID] @ putBE16 echKEMX25519 @ putBE16 keyLen @ publicKey;
              suites = putBE16 echKDFHKDFSHA256 @ putBE16 echAEADAES128GCM in
          (case ech_u16 (length suites) of
             Inl e \<Rightarrow> Inl e
           | Inr suitesLen \<Rightarrow> Inr (key @ putBE16 suitesLen @ suites)))"

definition BuildECHConfigList :: "byte \<Rightarrow> bytes \<Rightarrow> string \<Rightarrow> ech_error + bytes" where
  "BuildECHConfigList configID publicKey publicName =
     (if length publicKey \<noteq> 32 then Inl (ErrECHPublicKeyLen (length publicKey))
      else if length publicName > 255 then Inl PublicNameTooLong
      else
        case buildHPKEKeyConfig configID publicKey of
          Inl e \<Rightarrow> Inl e
        | Inr key \<Rightarrow>
            (case ech_u8 (length publicName) of
               Inl e \<Rightarrow> Inl e
             | Inr nameLen \<Rightarrow>
                 let contents = key @ [echMaxNameLength, nameLen] @ bytes_of publicName @ putBE16 0 in
                 (case ech_u16 (length contents) of
                    Inl e \<Rightarrow> Inl e
                  | Inr contentsLen \<Rightarrow>
                      let cfg = putBE16 echVersion @ putBE16 contentsLen @ contents in
                      (case ech_u16 (length cfg) of
                         Inl e \<Rightarrow> Inl e
                       | Inr cfgLen \<Rightarrow> Inr (putBE16 cfgLen @ cfg)))))"

section \<open>Parser\<close>

definition parseHPKEKeyConfig :: "bytes \<Rightarrow> ech_error + byte \<times> bytes \<times> bytes" where
  "parseHPKEKeyConfig c0 =
     (if length c0 < 1 + 2 + 2 then Inl (Malformed ''truncated HpkeKeyConfig'')
      else
        let configID = c0 ! 0;
            kem = getBE16 (drop 1 c0) in
        if kem \<noteq> echKEMX25519 then Inl (Malformed ''unexpected KEM'')
        else
          let klen = unat (getBE16 (drop 3 c0));
              c = drop 5 c0 in
          if klen > length c then Inl (Malformed ''public key length exceeds available bytes'')
          else
            let publicKey = take klen c;
                c = drop klen c in
            if length c < 2 then Inl (Malformed ''truncated cipher suite list'')
            else
              let slen = unat (getBE16 c);
                  c = drop 2 c in
              if slen > length c \<or> slen mod 4 \<noteq> 0 then Inl (Malformed ''cipher suite list length invalid'')
              else Inr (configID, publicKey, drop slen c))"

definition ParseECHConfigList :: "bytes \<Rightarrow> ech_error + byte \<times> bytes \<times> string" where
  "ParseECHConfigList b0 =
     (if length b0 < 2 then Inl (Malformed ''shorter than its own length prefix'')
      else
        let outer = unat (getBE16 b0);
            b = drop 2 b0 in
        if outer \<noteq> length b then Inl (Malformed ''list length'')
        else if length b < 4 then Inl (Malformed ''no room for an ECHConfig header'')
        else if getBE16 b \<noteq> echVersion then Inl (Malformed ''unexpected version'')
        else
          let clen = unat (getBE16 (drop 2 b));
              b = drop 4 b in
          if clen > length b then Inl (Malformed ''config length exceeds available bytes'')
          else
            (case parseHPKEKeyConfig (take clen b) of
               Inl e \<Rightarrow> Inl e
             | Inr (configID, publicKey, c) \<Rightarrow>
                 if length c < 2 then Inl (Malformed ''truncated public_name'')
                 else
                   let nlen = unat (c ! 1);
                       c = drop 2 c in
                   if nlen > length c then Inl (Malformed ''public_name length exceeds available bytes'')
                   else Inr (configID, publicKey, string_of (take nlen c))))"

section \<open>Round trip\<close>

lemma ech_u16_ok [simp]: "n \<le> 65535 \<Longrightarrow> ech_u16 n = Inr (of_nat n)"
  by (simp add: ech_u16_def)

lemma ech_u8_ok [simp]: "n \<le> 255 \<Longrightarrow> ech_u8 n = Inr (of_nat n)"
  by (simp add: ech_u8_def)

lemma unat_len16 [simp]: "n \<le> 65535 \<Longrightarrow> unat (of_nat n :: u16) = n"
  by (simp add: unat_of_nat)

lemma unat_len8 [simp]: "n \<le> 255 \<Longrightarrow> unat (of_nat n :: byte) = n"
  by (simp add: unat_of_nat)

text \<open>The octets of the key configuration and of the whole list, with the lengths computed.\<close>

definition hpke_octets :: "byte \<Rightarrow> bytes \<Rightarrow> bytes" where
  "hpke_octets i k = i # putBE16 0x0020 @ putBE16 (of_nat (length k)) @ k @ putBE16 4 @ putBE16 1 @ putBE16 1"

definition contents_octets :: "byte \<Rightarrow> bytes \<Rightarrow> string \<Rightarrow> bytes" where
  "contents_octets i k n = hpke_octets i k @ [0, of_nat (length n)] @ bytes_of n @ putBE16 0"

definition list_octets :: "byte \<Rightarrow> bytes \<Rightarrow> string \<Rightarrow> bytes" where
  "list_octets i k n =
     putBE16 (of_nat (4 + length (contents_octets i k n))) @ putBE16 0xfe0d @
     putBE16 (of_nat (length (contents_octets i k n))) @ contents_octets i k n"

lemma length_hpke [simp]: "length (hpke_octets i k) = 11 + length k"
  by (simp add: hpke_octets_def)

lemma length_contents [simp]: "length (contents_octets i k n) = 15 + length k + length n"
  by (simp add: contents_octets_def)

lemma length_list_octets [simp]: "length (list_octets i k n) = 21 + length k + length n"
  by (simp add: list_octets_def)

lemma buildHPKEKeyConfig_ok: "length k \<le> 65535 \<Longrightarrow> buildHPKEKeyConfig i k = Inr (hpke_octets i k)"
  by (simp add: buildHPKEKeyConfig_def hpke_octets_def Let_def)

lemma BuildECHConfigList_ok:
  "length k = 32 \<Longrightarrow> length n \<le> 255 \<Longrightarrow> BuildECHConfigList i k n = Inr (list_octets i k n)"
  by (simp add: BuildECHConfigList_def buildHPKEKeyConfig_ok Let_def list_octets_def contents_octets_def)

lemma BuildECHConfigList_code [code]:
  "BuildECHConfigList i k n =
     (if length k \<noteq> 32 then Inl (ErrECHPublicKeyLen (length k))
      else if length n > 255 then Inl PublicNameTooLong else Inr (list_octets i k n))"
  using BuildECHConfigList_ok [of k n i] by (simp add: BuildECHConfigList_def)

lemma drop_put16 [simp]: "drop 2 (putBE16 w @ xs) = xs"
  by simp

lemma parseHPKE_ok:
  assumes "length k \<le> 65535"
  shows "parseHPKEKeyConfig (hpke_octets i k @ rest) = Inr (i, k, rest)"
proof -
  have d: "drop 3 (i # putBE16 w @ xs) = xs" "drop (Suc 0) (i # putBE16 w @ xs) = putBE16 w @ xs"
    "drop 5 (i # putBE16 w @ putBE16 v @ xs) = xs" for w v xs
    by (simp_all add: drop_Cons')
  show ?thesis
    using assms
    by (simp add: parseHPKEKeyConfig_def hpke_octets_def Let_def d)
qed

lemma Parse_list_octets:
  assumes "length k \<le> 1000" and "length n \<le> 255"
  shows "ParseECHConfigList (list_octets i k n) = Inr (i, k, n)"
proof -
  let ?c = "contents_octets i k n"
  have d4: "drop 4 (putBE16 w @ putBE16 v @ xs) = xs" for w v xs by simp
  have "parseHPKEKeyConfig ?c = Inr (i, k, [0, of_nat (length n)] @ bytes_of n @ putBE16 0)"
    using assms(1) parseHPKE_ok [of k i] by (simp add: contents_octets_def)
  moreover have "unat (of_nat (length ?c) :: u16) = length ?c" "unat (of_nat (4 + length ?c) :: u16) = 4 + length ?c"
    using assms by (simp_all only: length_contents unat_len16)
  ultimately show ?thesis
    using assms(2) by (simp add: ParseECHConfigList_def list_octets_def Let_def d4 del: of_nat_add length_contents)
qed

text \<open>The outer length is compared with the octets that follow, so a list of any other length is refused.\<close>

lemma Parse_length:
  assumes "ParseECHConfigList b = Inr r"
  shows "2 \<le> length b \<and> unat (getBE16 b) = length b - 2"
  using assms by (simp add: ParseECHConfigList_def Let_def split: if_splits)

lemma getBE16_take: "2 \<le> m \<Longrightarrow> getBE16 (take m b) = getBE16 b"
  by (simp add: getBE16_def min_absorb2)

definition ech_ok :: "byte \<times> bytes \<times> string \<Rightarrow> bool" where
  "ech_ok = (\<lambda>(i, k, n). length k = 32 \<and> length n \<le> 255)"

interpretation ech: roundtrip ech_ok "\<lambda>(i, k, n). ok_value (BuildECHConfigList i k n)"
  "\<lambda>b. ok_value (ParseECHConfigList b)"
  by unfold_locales (auto simp: ech_ok_def BuildECHConfigList_ok Parse_list_octets)

section \<open>Properties\<close>

text \<open>
  C38: the canary works: a list built from a 32-octet key and a name of at most 255 octets parses back to the
  same configuration id, key and name, different inputs give different octets, and no proper prefix of the list is
  accepted as intact, so a truncation on the path is always noticed.
\<close>

theorem ech_canary_detects_truncation:
  assumes "length publicKey = 32" and "length publicName \<le> 255"
  shows "\<exists>b. BuildECHConfigList configID publicKey publicName = Inr b \<and>
      ParseECHConfigList b = Inr (configID, publicKey, publicName) \<and>
      (\<forall>m < length b. \<forall>r. ParseECHConfigList (take m b) \<noteq> Inr r) \<and>
      (\<forall>i k n. BuildECHConfigList i k n = Inr b \<longrightarrow> i = configID \<and> k = publicKey \<and> n = publicName)"
proof -
  let ?b = "list_octets configID publicKey publicName"
  have built: "BuildECHConfigList configID publicKey publicName = Inr ?b" using assms by (rule BuildECHConfigList_ok)
  have parsed: "ParseECHConfigList ?b = Inr (configID, publicKey, publicName)"
    using assms by (simp add: Parse_list_octets)
  have "ParseECHConfigList (take m ?b) \<noteq> Inr r" if "m < length ?b" for m r
  proof
    assume "ParseECHConfigList (take m ?b) = Inr r"
    then have m: "2 \<le> length (take m ?b) \<and> unat (getBE16 (take m ?b)) = length (take m ?b) - 2"
      by (rule Parse_length)
    moreover have "unat (getBE16 ?b) = length ?b - 2" using Parse_length [OF parsed] by simp
    ultimately show False using that getBE16_take [of m ?b] by auto
  qed
  moreover have "i = configID \<and> k = publicKey \<and> n = publicName" if "BuildECHConfigList i k n = Inr ?b" for i k n
  proof -
    have "ech_ok (i, k, n)" using that by (auto simp: BuildECHConfigList_def ech_ok_def split: if_splits)
    then show ?thesis
      using ech.encode_inj [of "(i, k, n)" "(configID, publicKey, publicName)"] that built assms
      by (auto simp: ech_ok_def)
  qed
  ultimately show ?thesis using built parsed by blast
qed

theorem ech_canary_detects_truncation_witness:
  "\<exists>b. BuildECHConfigList 1 (replicate 32 7) ''check.example'' = Inr b \<and>
      ParseECHConfigList b = Inr (1, replicate 32 7, ''check.example'') \<and>
      (\<forall>r. ParseECHConfigList (take 60 b) \<noteq> Inr r)"
proof -
  obtain b where b: "BuildECHConfigList 1 (replicate 32 7) ''check.example'' = Inr b"
    "ParseECHConfigList b = Inr (1, replicate 32 7, ''check.example'')"
    "\<forall>m < length b. \<forall>r. ParseECHConfigList (take m b) \<noteq> Inr r"
    using ech_canary_detects_truncation [of "replicate 32 7" "''check.example''" 1] by auto
  moreover have "length b = 66" using b(1) by (auto simp: BuildECHConfigList_ok)
  ultimately show ?thesis by auto
qed

end
