(* ===== verification/Probe_Labels.thy ===== *)
theory Probe_Labels
  imports Go_Text Codec
begin

text \<open>
  The query grammar of the \<open>probe\<close> plugin (\<open>labels.go\<close>): modifier sets, the query they
  form with a token, the renderer \<open>Sub\<close> and the parser \<open>ParseQuery\<close>. Renderer and parser are an
  interpretation of the \<open>codec\<close> contract.
\<close>

unbundle bit_operations_syntax

section \<open>Modifiers\<close>

text \<open>A \<open>Modifier\<close> is a \<open>uint16\<close> read as a set of flags; the constants are \<open>1 << iota\<close>.\<close>

type_synonym Modifier = u16

definition ModUnsigned :: Modifier where "ModUnsigned = push_bit 0 1"
definition ModBadSig :: Modifier where "ModBadSig = push_bit 1 1"
definition ModExpiredSig :: Modifier where "ModExpiredSig = push_bit 2 1"
definition ModFutureSig :: Modifier where "ModFutureSig = push_bit 3 1"
definition ModTruncate :: Modifier where "ModTruncate = push_bit 4 1"
definition ModNXDOMAIN :: Modifier where "ModNXDOMAIN = push_bit 5 1"
definition ModServfail :: Modifier where "ModServfail = push_bit 6 1"
definition ModNXNAME :: Modifier where "ModNXNAME = push_bit 7 1"
definition ModBig :: Modifier where "ModBig = push_bit 8 1"

lemmas mod_defs = ModUnsigned_def ModBadSig_def ModExpiredSig_def ModFutureSig_def ModTruncate_def
  ModNXDOMAIN_def ModServfail_def ModNXNAME_def ModBig_def

text \<open>The map from wire labels to modifiers; a missing key reads as the zero modifier.\<close>

definition modifierNames :: "string \<rightharpoonup> Modifier" where
  "modifierNames = map_of
     [(''unsigned'', ModUnsigned), (''badsig'', ModBadSig), (''expiredsig'', ModExpiredSig),
      (''futuresig'', ModFutureSig), (''truncate'', ModTruncate), (''nxdomain'', ModNXDOMAIN),
      (''nxname'', ModNXNAME), (''servfail'', ModServfail), (''big'', ModBig)]"

definition modifierOrder :: "string list" where
  "modifierOrder = [''unsigned'', ''badsig'', ''expiredsig'', ''futuresig'', ''truncate'', ''nxdomain'',
     ''nxname'', ''servfail'', ''big'']"

definition Has :: "Modifier \<Rightarrow> Modifier \<Rightarrow> bool" where
  "Has m want \<longleftrightarrow> m AND want = want"

definition named_mod :: "string \<Rightarrow> Modifier" where
  "named_mod name = (case modifierNames name of Some m \<Rightarrow> m | None \<Rightarrow> 0)"

definition renderModifier :: "Modifier \<Rightarrow> string" where
  "renderModifier m =
     (if m = 0 then ''none'' else join_on (CHR '','') (filter (\<lambda>name. Has m (named_mod name)) modifierOrder))"

text \<open>The table \<open>modStrings\<close> of all \<open>1 << len(modifierOrder)\<close> renderings, and the method that reads it.\<close>

definition modStrings :: "string list" where
  "modStrings = map (\<lambda>i. renderModifier (of_nat i)) [0..<2 ^ length modifierOrder]"

definition Modifier_String :: "Modifier \<Rightarrow> string" where
  "Modifier_String m = (if unat m < length modStrings then modStrings ! unat m else renderModifier m)"

definition conflicts :: "Modifier list" where
  "conflicts =
     [ModUnsigned OR ModBadSig OR ModExpiredSig OR ModFutureSig, ModNXDOMAIN OR ModNXNAME OR ModServfail]"

datatype query_error =
  OutsideDefinedSet Modifier
| ConflictingModifiers Modifier
| TokenLength nat
| TokenNotHex string

text \<open>The loop over \<open>conflicts\<close> of \<open>Modifier.Validate\<close>; \<open>None\<close> is Go's nil error.\<close>

fun check_conflicts :: "Modifier \<Rightarrow> Modifier list \<Rightarrow> query_error option" where
  "check_conflicts m [] = None"
| "check_conflicts m (g # groups) =
     (let bits = m AND g in
      if bits \<noteq> 0 \<and> bits \<noteq> bits AND (- bits) then Some (ConflictingModifiers bits)
      else check_conflicts m groups)"

definition Modifier_Validate :: "Modifier \<Rightarrow> query_error option" where
  "Modifier_Validate m =
     (if drop_bit (length modifierOrder) m \<noteq> 0 then Some (OutsideDefinedSet m)
      else check_conflicts m conflicts)"

section \<open>Queries\<close>

record Query =
  Token :: string
  Mods :: Modifier

definition minTokenLen :: nat where "minTokenLen = 8"
definition maxTokenLen :: nat where "maxTokenLen = 32"

definition lower_hex :: "char \<Rightarrow> bool" where
  "lower_hex c \<longleftrightarrow> CHR ''0'' \<le> c \<and> c \<le> CHR ''9'' \<or> CHR ''a'' \<le> c \<and> c \<le> CHR ''f''"

definition Query_Validate :: "Query \<Rightarrow> query_error option" where
  "Query_Validate q =
     (let n = length (Token q) in
      if n < minTokenLen \<or> n > maxTokenLen then Some (TokenLength n)
      else if list_ex (\<lambda>c. \<not> lower_hex c) (Token q) then Some (TokenNotHex (Token q))
      else Modifier_Validate (Mods q))"

definition Sub :: "Query \<Rightarrow> string" where
  "Sub q =
     concat (map (\<lambda>name. ''_'' @ name @ ''.'') (filter (\<lambda>name. Has (Mods q) (named_mod name)) modifierOrder))
     @ Token q"

text \<open>
  \<open>toLowerASCII\<close>: a scan to the first upper-case letter; a string without one is returned as it is,
  otherwise the rest is folded byte by byte.
\<close>

definition toLowerASCII :: "string \<Rightarrow> string" where
  "toLowerASCII s =
     (let i = length (takeWhile (\<lambda>c. \<not> is_upper c) s) in
      if i = length s then s else take i s @ map lower_char (drop i s))"

definition parseToken :: "string \<Rightarrow> string option" where
  "parseToken l =
     (if length l < minTokenLen \<or> length l > maxTokenLen then None
      else let lower = toLowerASCII l in
        if list_all lower_hex lower then Some lower else None)"

definition maxModifierLabel :: nat where "maxModifierLabel = 16"

definition lookupModifier :: "string \<Rightarrow> Modifier option" where
  "lookupModifier name =
     (if length name > maxModifierLabel then None else modifierNames (map lower_char name))"

text \<open>The loop of \<open>ParseQuery\<close> that cuts modifier labels off the front of \<open>mods\<close>.\<close>

function parse_mods :: "Modifier \<Rightarrow> string \<Rightarrow> Modifier option" where
  "parse_mods set' mods =
     (if mods = [] then Some set'
      else
        let (l, rest) = (case index_byte mods (CHR ''.'') of
                           Some i \<Rightarrow> (take i mods, drop (Suc i) mods)
                         | None \<Rightarrow> (mods, [])) in
        (case cut_prefix l ''_'' of
           None \<Rightarrow> None
         | Some name \<Rightarrow>
             (case lookupModifier name of
                None \<Rightarrow> None
              | Some m \<Rightarrow> if Has set' m then None else parse_mods (set' OR m) rest)))"
  by pat_completeness auto

termination parse_mods
  by (relation "measure (\<lambda>(_, mods). length mods)") (auto split: option.splits)

declare parse_mods.simps [simp del]

definition ParseQuery :: "string \<Rightarrow> Query option" where
  "ParseQuery sub0 =
     (let sub = trim_suffix sub0 ''.'' in
      if sub = [] then None
      else
        let (mods, tokenLabel) = (case last_index_byte sub (CHR ''.'') of
                                    Some i \<Rightarrow> (take i sub, drop (Suc i) sub)
                                  | None \<Rightarrow> ([], sub)) in
        (case parseToken tokenLabel of
           None \<Rightarrow> None
         | Some token \<Rightarrow>
             (case parse_mods 0 mods of
                None \<Rightarrow> None
              | Some set' \<Rightarrow>
                  if Modifier_Validate set' \<noteq> None then None
                  else Some \<lparr>Token = token, Mods = set'\<rparr>)))"

text \<open>The table agrees with the renderer it was built from.\<close>

lemma Modifier_String_eq: "Modifier_String m = renderModifier m"
  by (simp add: Modifier_String_def modStrings_def)

section \<open>Modifier sets as bits\<close>

text \<open>\<open>mod_bit\<close> is the position of a named modifier's flag.\<close>

definition mod_bit :: "string \<Rightarrow> nat" where
  "mod_bit name = the (map_of
     [(''unsigned'', 0), (''badsig'', 1), (''expiredsig'', 2), (''futuresig'', 3), (''truncate'', 4),
      (''nxdomain'', 5), (''servfail'', 6), (''nxname'', 7), (''big'', 8)] name)"

lemma named_mod_bit: "n \<in> set modifierOrder \<Longrightarrow> named_mod n = push_bit (mod_bit n) 1"
  by (auto simp: modifierOrder_def named_mod_def modifierNames_def mod_bit_def mod_defs)

lemma mod_bit_less: "n \<in> set modifierOrder \<Longrightarrow> mod_bit n < 9"
  by (auto simp: modifierOrder_def mod_bit_def)

lemma mod_bit_inj: "inj_on mod_bit (set modifierOrder)"
  by (simp add: modifierOrder_def mod_bit_def)

lemma mod_bit_onto: "k < 9 \<Longrightarrow> \<exists>n\<in>set modifierOrder. mod_bit n = k"
proof -
  assume "k < 9"
  moreover have "mod_bit ` set modifierOrder = {0, 1, 2, 3, 4, 5, 6, 7, 8}"
    by (auto simp: modifierOrder_def mod_bit_def)
  moreover have "k \<in> {0, 1, 2, 3, 4, 5, 6, 7, 8}" using \<open>k < 9\<close> by auto
  ultimately show ?thesis by (metis imageE)
qed

lemma Has_push_bit: "k < 16 \<Longrightarrow> Has m (push_bit k 1) \<longleftrightarrow> bit m k"
proof
  assume k: "k < 16"
  show "bit m k" if "Has m (push_bit k 1)"
  proof -
    have "bit (m AND push_bit k 1) k" using that k by (simp add: Has_def bit_simps)
    then show ?thesis by (simp add: bit_simps)
  qed
  show "Has m (push_bit k 1)" if "bit m k"
    unfolding Has_def by (rule bit_word_eqI) (use that in \<open>auto simp: bit_simps\<close>)
qed

lemma Has_named: "n \<in> set modifierOrder \<Longrightarrow> Has m (named_mod n) \<longleftrightarrow> bit m (mod_bit n)"
  using Has_push_bit [of "mod_bit n" m] mod_bit_less [of n] by (simp add: named_mod_bit)

lemma Has_insert:
  "a \<in> set modifierOrder \<Longrightarrow> n \<in> set modifierOrder \<Longrightarrow>
   Has (m OR named_mod a) (named_mod n) \<longleftrightarrow> Has m (named_mod n) \<or> n = a"
  unfolding Has_named named_mod_bit [of a]
  using mod_bit_inj mod_bit_less [of n] by (auto simp: bit_simps inj_on_def)

lemma defined_bits: "drop_bit 9 x = 0 \<Longrightarrow> \<not> bit (x :: Modifier) (9 + j)"
proof -
  assume "drop_bit 9 x = 0"
  then have "bit (drop_bit 9 x) j = bit (0 :: Modifier) j" by simp
  then show ?thesis by (simp add: bit_drop_bit_eq)
qed

text \<open>The set that a list of names denotes.\<close>

definition mods_of :: "string list \<Rightarrow> Modifier \<Rightarrow> Modifier" where
  "mods_of ns s = fold (\<lambda>n s. s OR named_mod n) ns s"

lemma mods_of_Cons [simp]: "mods_of (n # ns) s = mods_of ns (s OR named_mod n)"
  and mods_of_Nil [simp]: "mods_of [] s = s"
  by (simp_all add: mods_of_def)

lemma Has_mods_of:
  "set ns \<subseteq> set modifierOrder \<Longrightarrow> n \<in> set modifierOrder \<Longrightarrow>
   Has (mods_of ns s) (named_mod n) \<longleftrightarrow> Has s (named_mod n) \<or> n \<in> set ns"
  by (induction ns arbitrary: s) (auto simp: Has_insert)

lemma mods_of_defined: "set ns \<subseteq> set modifierOrder \<Longrightarrow> drop_bit 9 s = 0 \<Longrightarrow> drop_bit 9 (mods_of ns s) = 0"
proof (induction ns arbitrary: s)
  case Nil
  then show ?case by simp
next
  case (Cons a ns)
  have "drop_bit 9 (s OR named_mod a) = 0"
  proof (rule bit_word_eqI)
    fix j
    have "\<not> bit s (9 + j)" using Cons.prems(2) by (rule defined_bits)
    moreover have "mod_bit a \<noteq> 9 + j" using mod_bit_less [of a] Cons.prems(1) by auto
    ultimately show "bit (drop_bit 9 (s OR named_mod a)) j \<longleftrightarrow> bit (0 :: Modifier) j"
      using Cons.prems(1) by (simp add: bit_simps named_mod_bit)
  qed
  then show ?case using Cons by simp
qed

text \<open>A modifier set within the defined bits is determined by the names it contains.\<close>

lemma mods_eqI:
  assumes "drop_bit 9 m = 0" and "drop_bit 9 m' = 0"
    and "\<And>n. n \<in> set modifierOrder \<Longrightarrow> Has m (named_mod n) \<longleftrightarrow> Has m' (named_mod n)"
  shows "m = (m' :: Modifier)"
proof (rule bit_word_eqI)
  fix k
  show "bit m k \<longleftrightarrow> bit m' k"
  proof (cases "k < 9")
    case True
    then show ?thesis using mod_bit_onto assms(3) by (metis Has_named)
  next
    case False
    then show ?thesis using defined_bits [OF assms(1), of "k - 9"] defined_bits [OF assms(2), of "k - 9"] by simp
  qed
qed

section \<open>Conflicts\<close>

text \<open>\<open>bits & -bits\<close> is the lowest flag of \<open>bits\<close>, so it differs from \<open>bits\<close> exactly when there is a second one.\<close>

lemma odd_or: "2 * y + 1 = (2 * y OR 1 :: 'a::len word)"
  by (simp add: or_one_eq)

lemma odd_and_minus: "(2 * y + 1) AND - (2 * y + 1) = (1 :: 'a::len word)"
proof -
  have "- (2 * y + 1) = NOT (2 * y)" by (simp add: minus_eq_not_minus_1)
  then have "(2 * y + 1) AND - (2 * y + 1) = (2 * y OR 1) AND NOT (2 * y)" by (simp only: odd_or)
  also have "\<dots> = 1" by (auto intro!: bit_word_eqI simp: bit_simps)
  finally show ?thesis .
qed

lemma and_minus_push_bit: "push_bit k x AND - push_bit k x = push_bit k (x AND - x)" for x :: "'a::len word"
proof -
  have "- push_bit k x = push_bit k (- x)" by (simp add: push_bit_eq_mult)
  then show ?thesis by (simp add: push_bit_and)
qed

lemma lowest_bit_split:
  fixes x :: "'a::len word"
  assumes "bit x k" and "\<And>j. j < k \<Longrightarrow> \<not> bit x j"
  shows "x = push_bit k (2 * drop_bit (Suc k) x + 1)"
proof (rule bit_word_eqI)
  fix n assume "n < LENGTH('a)"
  show "bit x n \<longleftrightarrow> bit (push_bit k (2 * drop_bit (Suc k) x + 1)) n"
  proof (cases "n < k")
    case True
    then show ?thesis using assms by (simp add: bit_push_bit_iff)
  next
    case False
    then show ?thesis
      unfolding odd_or using assms(1) \<open>n < LENGTH('a)\<close>
      by (cases "n = k") (auto simp: bit_simps dest!: le_Suc_ex)
  qed
qed

lemma single_flag_iff:
  fixes x :: "'a::len word"
  shows "x \<noteq> 0 \<and> x \<noteq> x AND - x \<longleftrightarrow> (\<exists>i j. i \<noteq> j \<and> bit x i \<and> bit x j)"
proof (cases "x = 0")
  case False
  then obtain k' where "bit x k'" using bit_eqI [of x 0] by auto
  then obtain k where k: "bit x k" "\<And>j. j < k \<Longrightarrow> \<not> bit x j" using exists_least_iff [of "bit x"] by blast
  define y where "y = drop_bit (Suc k) x"
  have "x = push_bit k (2 * y + 1)" unfolding y_def by (rule lowest_bit_split) (use k in auto)
  then have "x AND - x = push_bit k 1"
    using and_minus_push_bit [of k "2 * y + 1"] odd_and_minus [of y] by argo
  then have "bit (x AND - x) n \<longleftrightarrow> n = k" for n using k(1) bit_imp_le_length [of x k] by (auto simp: bit_simps)
  then have "x = x AND - x \<longleftrightarrow> (\<forall>n. bit x n \<longrightarrow> n = k)" using k(1) bit_eq_iff [of x "x AND - x"] by auto
  then show ?thesis using False k(1) by metis
qed simp

lemma check_conflicts_None:
  "check_conflicts m gs = None \<longleftrightarrow> (\<forall>g\<in>set gs. \<forall>i j. i \<noteq> j \<longrightarrow> \<not> (bit (m AND g) i \<and> bit (m AND g) j))"
  by (induction gs) (use single_flag_iff in \<open>auto simp: Let_def\<close>)

text \<open>The two groups, by name.\<close>

definition signature_group :: "string list" where
  "signature_group = [''unsigned'', ''badsig'', ''expiredsig'', ''futuresig'']"

definition outcome_group :: "string list" where
  "outcome_group = [''nxdomain'', ''nxname'', ''servfail'']"

lemma group_bits:
  "bit (ModUnsigned OR ModBadSig OR ModExpiredSig OR ModFutureSig) k \<longleftrightarrow> k \<in> mod_bit ` set signature_group"
  "bit (ModNXDOMAIN OR ModNXNAME OR ModServfail) k \<longleftrightarrow> k \<in> mod_bit ` set outcome_group"
  unfolding mod_defs bit_or_iff bit_push_bit_iff
  by (auto simp: bit_1_iff signature_group_def outcome_group_def mod_bit_def)

lemma groups_are_modifiers: "set signature_group \<subseteq> set modifierOrder" "set outcome_group \<subseteq> set modifierOrder"
  by (simp_all add: signature_group_def outcome_group_def modifierOrder_def)

lemma at_most_one_bit:
  assumes "\<And>k. bit g k \<longleftrightarrow> k \<in> mod_bit ` set ns" and "set ns \<subseteq> set modifierOrder"
  shows "(\<forall>i j. i \<noteq> j \<longrightarrow> \<not> (bit (m AND g) i \<and> bit (m AND g) j)) \<longleftrightarrow>
    (\<forall>a\<in>set ns. \<forall>b\<in>set ns. Has m (named_mod a) \<and> Has m (named_mod b) \<longrightarrow> a = b)"
proof -
  have b: "bit (m AND g) k \<longleftrightarrow> (\<exists>n\<in>set ns. k = mod_bit n \<and> Has m (named_mod n))" for k
    using assms Has_named [of _ m] by (auto simp: bit_and_iff)
  have "mod_bit a = mod_bit b \<longleftrightarrow> a = b" if "a \<in> set ns" "b \<in> set ns" for a b
    using mod_bit_inj assms(2) that by (auto simp: inj_on_def)
  then show ?thesis unfolding b by blast
qed

lemma at_most_one_filter:
  "distinct xs \<Longrightarrow> (\<forall>a\<in>set xs. \<forall>b\<in>set xs. P a \<and> P b \<longrightarrow> a = b) \<longleftrightarrow> length (filter P xs) \<le> 1"
proof (induction xs)
  case (Cons x xs)
  then show ?case by (cases "P x") (auto simp: filter_empty_conv)
qed simp

lemma distinct_groups: "distinct signature_group" "distinct outcome_group"
  by (simp_all add: signature_group_def outcome_group_def)

section \<open>The accepted language\<close>

text \<open>The labels a list of modifier names renders to, each with its dot.\<close>

definition render_mods :: "string list \<Rightarrow> string" where
  "render_mods ns = concat (map (\<lambda>name. ''_'' @ name @ ''.'') ns)"

lemma render_mods_simps [simp]:
  "render_mods [] = []" "render_mods (n # ns) = (CHR ''_'' # n) @ CHR ''.'' # render_mods ns"
  by (simp_all add: render_mods_def)

lemma sep_eq_iff:
  "c \<notin> set a \<Longrightarrow> c \<notin> set b \<Longrightarrow> a @ c # x = b @ c # y \<longleftrightarrow> a = b \<and> x = y"
proof (induction a arbitrary: b)
  case Nil
  then show ?case by (cases b) auto
next
  case (Cons z a)
  then show ?case by (cases b) auto
qed

lemma order_names:
  assumes "n \<in> set modifierOrder"
  shows "CHR ''.'' \<notin> set n" "lower_ascii n = n" "length n \<le> maxModifierLabel" "modifierNames n = Some (named_mod n)"
  using assms
  by (auto simp: modifierOrder_def lower_ascii_def lower_char_def is_upper_def maxModifierLabel_def named_mod_def
      modifierNames_def)

lemma modifierNames_Some: "modifierNames n = Some m \<longleftrightarrow> n \<in> set modifierOrder \<and> m = named_mod n"
proof
  assume "modifierNames n = Some m"
  then show "n \<in> set modifierOrder \<and> m = named_mod n"
    by (auto simp: modifierNames_def modifierOrder_def named_mod_def split: if_splits)
qed (simp add: order_names)

lemma lookupModifier_Some:
  "lookupModifier n = Some m \<longleftrightarrow> lower_ascii n \<in> set modifierOrder \<and> m = named_mod (lower_ascii n)"
  using order_names(3) [of "lower_ascii n"]
  by (auto simp: lookupModifier_def modifierNames_Some lower_ascii_def [symmetric])

lemma lookupModifier_name: "lower_ascii n \<in> set modifierOrder \<Longrightarrow> lookupModifier n = Some (named_mod (lower_ascii n))"
  by (simp add: lookupModifier_Some)

lemma dot_in_lower [simp]: "CHR ''.'' \<in> set (lower_ascii s) \<longleftrightarrow> CHR ''.'' \<in> set s"
  by (induction s) (auto simp: lower_ascii_def eq_commute [of "CHR ''.''"])

lemma cut_prefix_underscore: "cut_prefix l ''_'' = Some n \<longleftrightarrow> l = CHR ''_'' # n"
  by (cases l) (auto simp: cut_prefix_def has_prefix_def)

lemma cut_prefix_underscore_Cons [simp]: "cut_prefix (CHR ''_'' # n) ''_'' = Some n"
  by (simp add: cut_prefix_underscore)

text \<open>One turn of the loop, for a label followed by a dot and for the last label.\<close>

lemma parse_mods_label:
  assumes "CHR ''.'' \<notin> set l"
  shows "parse_mods s (l @ CHR ''.'' # rest) = Some s' \<longleftrightarrow>
      (\<exists>n. l = CHR ''_'' # n \<and> lower_ascii n \<in> set modifierOrder \<and> \<not> Has s (named_mod (lower_ascii n)) \<and>
           parse_mods (s OR named_mod (lower_ascii n)) rest = Some s')"
  using assms
  by (subst parse_mods.simps)
    (auto simp: index_byte_append_sep cut_prefix_underscore lookupModifier_Some lookupModifier_name
      split: option.splits if_splits)

lemma parse_mods_last:
  assumes "CHR ''.'' \<notin> set l" and "l \<noteq> []"
  shows "parse_mods s l = Some s' \<longleftrightarrow>
      (\<exists>n. l = CHR ''_'' # n \<and> lower_ascii n \<in> set modifierOrder \<and> \<not> Has s (named_mod (lower_ascii n)) \<and>
           s' = s OR named_mod (lower_ascii n))"
  using assms index_byte_None [of l "CHR ''.''"] parse_mods.simps [of _ "[]"]
  by (subst parse_mods.simps)
    (auto simp: cut_prefix_underscore lookupModifier_Some lookupModifier_name
      split: option.splits if_splits)

definition names_denote :: "Modifier \<Rightarrow> string list \<Rightarrow> Modifier \<Rightarrow> bool" where
  "names_denote s ns s' \<longleftrightarrow> distinct ns \<and> set ns \<subseteq> set modifierOrder \<and>
     (\<forall>n\<in>set ns. \<not> Has s (named_mod n)) \<and> s' = mods_of ns s"

lemma names_denote_Nil [simp]: "names_denote s [] s' \<longleftrightarrow> s' = s"
  by (auto simp: names_denote_def)

lemma names_denote_Cons:
  "names_denote s (n # ns) s' \<longleftrightarrow>
     n \<in> set modifierOrder \<and> \<not> Has s (named_mod n) \<and> names_denote (s OR named_mod n) ns s'"
  by (auto simp: names_denote_def Has_insert subset_iff)

lemma lower_underscore [simp]: "lower_ascii (CHR ''_'' # n) = CHR ''_'' # lower_ascii n"
  "lower_ascii (CHR ''.'' # n) = CHR ''.'' # lower_ascii n" "lower_ascii [] = []"
  by (simp_all add: lower_ascii_def lower_char_def is_upper_def)

lemma lower_underscore_iff: "lower_ascii l = CHR ''_'' # n \<longleftrightarrow> (\<exists>m. l = CHR ''_'' # m \<and> n = lower_ascii m)"
  by (cases l) (auto simp: lower_ascii_def)

text \<open>
  The text the loop accepts for a list of names: their labels, with or without a dot after the last one.
\<close>

definition mods_text :: "string \<Rightarrow> string list \<Rightarrow> bool" where
  "mods_text t ns \<longleftrightarrow> t = render_mods ns \<or> t @ ''.'' = render_mods ns"

lemma mods_text_Nil [simp]: "mods_text [] ns \<longleftrightarrow> ns = []"
  by (cases ns) (auto simp: mods_text_def)

lemma mods_text_label:
  assumes "CHR ''.'' \<notin> set l" and "set ns \<subseteq> set modifierOrder"
  shows "mods_text (l @ CHR ''.'' # rest) ns \<longleftrightarrow> (\<exists>n ns'. ns = n # ns' \<and> l = CHR ''_'' # n \<and> mods_text rest ns')"
proof (cases ns)
  case Nil
  then show ?thesis by (simp add: mods_text_def)
next
  case (Cons n ns')
  then have "CHR ''.'' \<notin> set (CHR ''_'' # n)" using assms(2) order_names(1) [of n] by simp
  with assms(1) show ?thesis
    using sep_eq_iff [of "CHR ''.''" l "CHR ''_'' # n"] by (auto simp: Cons mods_text_def)
qed

lemma mods_text_last:
  assumes "CHR ''.'' \<notin> set l" and "l \<noteq> []" and "set ns \<subseteq> set modifierOrder"
  shows "mods_text l ns \<longleftrightarrow> (\<exists>n. ns = [n] \<and> l = CHR ''_'' # n)"
proof -
  have "l \<noteq> render_mods ns" using assms(1,2) by (cases ns) auto
  then have "mods_text l ns \<longleftrightarrow> l @ CHR ''.'' # [] = render_mods ns" by (simp add: mods_text_def)
  also have "\<dots> \<longleftrightarrow> (\<exists>n. ns = [n] \<and> l = CHR ''_'' # n)"
  proof (cases ns)
    case (Cons n ns')
    then have "CHR ''.'' \<notin> set (CHR ''_'' # n)" using assms(3) order_names(1) [of n] by simp
    then show ?thesis
      using assms(1) sep_eq_iff [of "CHR ''.''" l "CHR ''_'' # n" "[]" "render_mods ns'"]
      by (cases ns') (auto simp: Cons)
  qed simp
  finally show ?thesis .
qed

lemma parse_mods_iff:
  "parse_mods s mods = Some s' \<longleftrightarrow> (\<exists>ns. names_denote s ns s' \<and> mods_text (lower_ascii mods) ns)"
proof (induction mods arbitrary: s rule: length_induct)
  case (1 mods)
  have sub: "names_denote s ns s' \<Longrightarrow> set ns \<subseteq> set modifierOrder" for ns
    by (simp add: names_denote_def)
  consider (empty) "mods = []" | (last) "CHR ''.'' \<notin> set mods" "mods \<noteq> []"
    | (label) l rest where "mods = l @ CHR ''.'' # rest" "CHR ''.'' \<notin> set l"
    by (metis split_list_first)
  then show ?case
  proof cases
    case empty
    then show ?thesis using parse_mods.simps [of s "[]"] by auto
  next
    case last
    have "(\<exists>ns. names_denote s ns s' \<and> mods_text (lower_ascii mods) ns) \<longleftrightarrow>
        (\<exists>n. names_denote s [n] s' \<and> lower_ascii mods = CHR ''_'' # n)"
      using mods_text_last [of "lower_ascii mods"] last sub by auto
    then show ?thesis
      using last by (auto simp: parse_mods_last names_denote_Cons lower_underscore_iff)
  next
    case label
    then have IH: "parse_mods t rest = Some s' \<longleftrightarrow> (\<exists>ns. names_denote t ns s' \<and> mods_text (lower_ascii rest) ns)" for t
      using 1 by simp
    have "names_denote s ns s' \<and> mods_text (lower_ascii mods) ns \<longleftrightarrow> names_denote s ns s' \<and>
        (\<exists>n ns'. ns = n # ns' \<and> lower_ascii l = CHR ''_'' # n \<and> mods_text (lower_ascii rest) ns')" for ns
      using mods_text_label [of "lower_ascii l" ns "lower_ascii rest"] label sub [of ns] by auto
    then have "(\<exists>ns. names_denote s ns s' \<and> mods_text (lower_ascii mods) ns) \<longleftrightarrow>
        (\<exists>n ns'. names_denote s (n # ns') s' \<and> lower_ascii l = CHR ''_'' # n \<and> mods_text (lower_ascii rest) ns')"
      by metis
    then show ?thesis
      using label by (auto simp: parse_mods_label IH names_denote_Cons lower_underscore_iff)
  qed
qed

section \<open>Tokens\<close>

lemma toLowerASCII_eq: "toLowerASCII s = lower_ascii s"
  unfolding toLowerASCII_def by (rule fold_after_prefix)

definition token_ok :: "string \<Rightarrow> bool" where
  "token_ok t \<longleftrightarrow> minTokenLen \<le> length t \<and> length t \<le> maxTokenLen \<and> list_all lower_hex t"

lemma parseToken_eq: "parseToken l = (if token_ok (lower_ascii l) then Some (lower_ascii l) else None)"
  by (auto simp: parseToken_def token_ok_def toLowerASCII_eq Let_def)

lemma Query_Validate_None:
  "Query_Validate q = None \<longleftrightarrow> token_ok (Token q) \<and> Modifier_Validate (Mods q) = None"
  by (auto simp: Query_Validate_def token_ok_def Let_def list_all_iff list_ex_iff)

lemma token_no_dot: "token_ok t \<Longrightarrow> CHR ''.'' \<notin> set t"
  by (auto simp: token_ok_def list_all_iff lower_hex_def less_eq_char_def)

lemma token_lower: "token_ok t \<Longrightarrow> lower_ascii t = t"
  by (rule lower_ascii_id)
    (auto simp: token_ok_def list_all_iff lower_hex_def less_eq_char_def is_upper_alt)

lemma token_nonempty: "token_ok t \<Longrightarrow> t \<noteq> []"
  by (auto simp: token_ok_def minTokenLen_def)

section \<open>The parser\<close>

lemma lower_trim: "lower_ascii (trim_suffix s ''.'') = trim_suffix (lower_ascii s) ''.''"
  by (cases s rule: rev_cases) (auto simp: trim_suffix_dot lower_ascii_def)

lemma ParseQuery_dotless:
  assumes "CHR ''.'' \<notin> set (trim_suffix s ''.'')"
  shows "ParseQuery s = Some q \<longleftrightarrow>
      lower_ascii (trim_suffix s ''.'') = Token q \<and> Mods q = 0 \<and> Query_Validate q = None"
proof -
  have "Modifier_Validate 0 = None" by code_simp
  moreover have "last_index_byte (trim_suffix s ''.'') (CHR ''.'') = None"
    using assms by (simp add: last_index_byte_None)
  ultimately have "ParseQuery s = (if trim_suffix s ''.'' \<noteq> [] \<and> token_ok (lower_ascii (trim_suffix s ''.''))
      then Some \<lparr>Token = lower_ascii (trim_suffix s ''.''), Mods = 0\<rparr> else None)"
    by (simp add: ParseQuery_def Let_def parse_mods.simps [of _ "[]"] parseToken_eq)
  with \<open>Modifier_Validate 0 = None\<close> show ?thesis
    using token_nonempty [of "lower_ascii (trim_suffix s ''.'')"] by (cases q) (auto simp: Query_Validate_None)
qed

lemma ParseQuery_dotted:
  assumes "trim_suffix s ''.'' = mods @ CHR ''.'' # t" and "CHR ''.'' \<notin> set t"
  shows "ParseQuery s = Some q \<longleftrightarrow>
      lower_ascii t = Token q \<and> parse_mods 0 mods = Some (Mods q) \<and> Query_Validate q = None"
proof -
  have "last_index_byte (trim_suffix s ''.'') (CHR ''.'') = Some (length mods)"
    using assms by (simp add: last_index_byte_append_sep)
  then show ?thesis
    using assms(1) by (cases q) (auto simp: ParseQuery_def parseToken_eq Query_Validate_None
        split: option.splits if_splits)
qed

text \<open>
  The language \<open>ParseQuery\<close> accepts, up to ASCII case and one trailing dot: the labels of distinct modifier names
  in any order, then an optional stray dot, then the token.
\<close>

definition query_text :: "Query \<Rightarrow> string list \<Rightarrow> bool \<Rightarrow> string" where
  "query_text q ns stray = render_mods ns @ (if stray then ''.'' else []) @ Token q"

lemma sep_eq_iff_right: "c \<notin> set x \<Longrightarrow> c \<notin> set y \<Longrightarrow> a @ c # x = b @ c # y \<longleftrightarrow> a = b \<and> x = y"
  using sep_eq_iff [of c "rev x" "rev y" "rev a" "rev b"]
  by (metis append.assoc append_Cons append_Nil rev.simps(2) rev_append rev_is_rev_conv rev_rev_ident set_rev)

lemma render_mods_ends: "ns \<noteq> [] \<Longrightarrow> \<exists>r. render_mods ns = r @ ''.''"
  by (cases ns rule: rev_cases) (auto simp: render_mods_def)

lemma query_text_dotless:
  "CHR ''.'' \<notin> set t \<Longrightarrow> t = query_text q ns stray \<longleftrightarrow> ns = [] \<and> \<not> stray \<and> t = Token q"
  by (cases ns) (auto simp: query_text_def)

lemma query_text_dotted:
  assumes "token_ok (Token q)" and "CHR ''.'' \<notin> set t"
  shows "m @ CHR ''.'' # t = query_text q ns stray \<longleftrightarrow>
      t = Token q \<and> m @ (if stray then [] else ''.'') = render_mods ns"
proof (cases stray)
  case True
  then show ?thesis
    using sep_eq_iff_right [of "CHR ''.''" t "Token q"] assms token_no_dot by (auto simp: query_text_def)
next
  case False
  show ?thesis
  proof (cases "ns = []")
    case True
    moreover have "m @ CHR ''.'' # t \<noteq> Token q" using assms token_no_dot [of "Token q"] in_set_conv_decomp by metis
    ultimately show ?thesis using False by (simp add: query_text_def)
  next
    case ne: False
    then obtain r where "render_mods ns = r @ ''.''" using render_mods_ends by blast
    then show ?thesis
      using False sep_eq_iff_right [of "CHR ''.''" t "Token q" m r] assms token_no_dot [of "Token q"]
      by (auto simp: query_text_def)
  qed
qed

lemma ParseQuery_iff:
  "ParseQuery s = Some q \<longleftrightarrow> Query_Validate q = None \<and>
     (\<exists>ns stray. names_denote 0 ns (Mods q) \<and> lower_ascii (trim_suffix s ''.'') = query_text q ns stray)"
proof (cases "CHR ''.'' \<in> set (trim_suffix s ''.'')")
  case False
  then show ?thesis
    unfolding ParseQuery_dotless [OF False] by (auto simp: query_text_dotless)
next
  case True
  then obtain mods t where st: "trim_suffix s ''.'' = mods @ CHR ''.'' # t" "CHR ''.'' \<notin> set t"
    by (metis split_list_last)
  have eq: "lower_ascii (trim_suffix s ''.'') = query_text q ns stray \<longleftrightarrow>
      lower_ascii t = Token q \<and> lower_ascii mods @ (if stray then [] else ''.'') = render_mods ns"
    if "Query_Validate q = None" for ns stray
    using query_text_dotted [of q "lower_ascii t" "lower_ascii mods"] that st by (simp add: Query_Validate_None)
  have "mods_text (lower_ascii mods) ns \<longleftrightarrow>
      (\<exists>stray. lower_ascii mods @ (if stray then [] else ''.'') = render_mods ns)" for ns
    by (auto simp: mods_text_def split: if_splits)
  then show ?thesis
    unfolding ParseQuery_dotted [OF st] parse_mods_iff using eq by blast
qed

section \<open>The renderer\<close>

lemma Sub_eq: "Sub q = query_text q (filter (\<lambda>n. Has (Mods q) (named_mod n)) modifierOrder) False"
  by (simp add: Sub_def query_text_def render_mods_def)

lemma Modifier_Validate_defined: "Modifier_Validate m = None \<Longrightarrow> drop_bit 9 m = 0"
  by (simp add: Modifier_Validate_def modifierOrder_def numeral_eq_Suc split: if_splits)

lemma not_Has_0: "n \<in> set modifierOrder \<Longrightarrow> \<not> Has 0 (named_mod n)"
  by (simp add: Has_named)

lemma names_denote_0:
  assumes "Modifier_Validate m = None"
  shows "names_denote 0 ns m \<longleftrightarrow> distinct ns \<and> set ns = {n \<in> set modifierOrder. Has m (named_mod n)}"
proof
  show "distinct ns \<and> set ns = {n \<in> set modifierOrder. Has m (named_mod n)}" if "names_denote 0 ns m"
    using that Has_mods_of [of ns _ 0] not_Has_0 by (auto simp: names_denote_def)
next
  assume r: "distinct ns \<and> set ns = {n \<in> set modifierOrder. Has m (named_mod n)}"
  have "m = mods_of ns 0"
    using Modifier_Validate_defined [OF assms]
    by (rule mods_eqI) (use r not_Has_0 in \<open>auto simp: mods_of_defined Has_mods_of\<close>)
  then show "names_denote 0 ns m" using r by (auto simp: names_denote_def Has_named)
qed

lemma distinct_modifierOrder: "distinct modifierOrder"
  by (simp add: modifierOrder_def)

lemma names_denote_filter:
  "Modifier_Validate m = None \<Longrightarrow> names_denote 0 (filter (\<lambda>n. Has m (named_mod n)) modifierOrder) m"
  using distinct_modifierOrder by (auto simp: names_denote_0)

lemma lower_Sub: "Query_Validate q = None \<Longrightarrow> lower_ascii (Sub q) = Sub q"
proof -
  have "lower_ascii (render_mods ns) = render_mods ns" if "set ns \<subseteq> set modifierOrder" for ns
    using that by (induction ns) (auto simp: order_names)
  then show "Query_Validate q = None \<Longrightarrow> lower_ascii (Sub q) = Sub q"
    using token_lower [of "Token q"] by (simp add: Sub_eq query_text_def Query_Validate_None)
qed

lemma trim_Sub: "Query_Validate q = None \<Longrightarrow> trim_suffix (Sub q) ''.'' = Sub q"
  using token_no_dot [of "Token q"] token_nonempty [of "Token q"]
  by (auto simp: trim_suffix_dot Sub_def Query_Validate_None dest: last_in_set)

lemma ParseQuery_Sub: "Query_Validate q = None \<Longrightarrow> ParseQuery (Sub q) = Some q"
  unfolding ParseQuery_iff trim_Sub lower_Sub
  using names_denote_filter [of "Mods q"] Sub_eq [of q] by (auto simp: Query_Validate_None)

interpretation probe_query: codec "\<lambda>q. Query_Validate q = None" "\<lambda>q. Some (Sub q)" ParseQuery
  by unfold_locales (auto simp: ParseQuery_Sub, auto simp: ParseQuery_iff)

section \<open>Properties\<close>

text \<open>
  C31: \<open>ParseQuery\<close> accepts exactly this language, up to ASCII case and one trailing dot: the labels of
  distinct modifiers in any order, at most one stray dot, and the token; the query it returns has that token and
  exactly the named modifiers, and passes \<open>Query.Validate\<close>. Everything else is refused.
\<close>

theorem probe_query_grammar:
  "ParseQuery s = Some q \<longleftrightarrow>
     Query_Validate q = None \<and>
     (\<exists>ns stray. distinct ns \<and> set ns = {n \<in> set modifierOrder. Has (Mods q) (named_mod n)} \<and>
        lower_ascii (trim_suffix s ''.'') =
          concat (map (\<lambda>n. ''_'' @ n @ ''.'') ns) @ (if stray then ''.'' else []) @ Token q)"
  unfolding ParseQuery_iff by (auto simp: names_denote_0 Query_Validate_None query_text_def render_mods_def)

text \<open>
  \<open>Modifier.Validate\<close>, with its test \<open>bits != bits & -bits\<close> on machine words, accepts a set exactly when
  it has no bit outside the nine modifiers and names at most one signature variant and at most one negative outcome.
\<close>

lemma modifier_validate_is_at_most_one:
  "Modifier_Validate m = None \<longleftrightarrow>
     unat m < 2 ^ 9 \<and>
     length (filter (\<lambda>n. Has m (named_mod n)) [''unsigned'', ''badsig'', ''expiredsig'', ''futuresig'']) \<le> 1 \<and>
     length (filter (\<lambda>n. Has m (named_mod n)) [''nxdomain'', ''nxname'', ''servfail'']) \<le> 1"
proof -
  have d: "drop_bit (length modifierOrder) m = 0 \<longleftrightarrow> unat m < 2 ^ 9"
    by (simp add: modifierOrder_def word_unat_eq_iff unat_drop_bit_div div_eq_0_iff)
  have "Modifier_Validate m = None \<longleftrightarrow> unat m < 2 ^ 9 \<and> check_conflicts m conflicts = None"
    by (simp add: Modifier_Validate_def d)
  also have "check_conflicts m conflicts = None \<longleftrightarrow>
     length (filter (\<lambda>n. Has m (named_mod n)) signature_group) \<le> 1 \<and>
     length (filter (\<lambda>n. Has m (named_mod n)) outcome_group) \<le> 1"
    unfolding check_conflicts_None conflicts_def list.set ball_simps
      at_most_one_bit [OF group_bits(1) groups_are_modifiers(1)]
      at_most_one_bit [OF group_bits(2) groups_are_modifiers(2)]
      at_most_one_filter [OF distinct_groups(1)] at_most_one_filter [OF distinct_groups(2)] by simp
  finally show ?thesis by (simp only: signature_group_def outcome_group_def)
qed

lemma outcomes_exclusive:
  assumes "Modifier_Validate m = None"
  shows "\<not> (Has m ModNXDOMAIN \<and> Has m ModServfail)" "\<not> (Has m ModNXNAME \<and> Has m ModServfail)"
    "\<not> (Has m ModNXDOMAIN \<and> Has m ModNXNAME)"
proof -
  have n: "named_mod ''nxdomain'' = ModNXDOMAIN" "named_mod ''nxname'' = ModNXNAME" "named_mod ''servfail'' = ModServfail"
    by (simp_all add: named_mod_def modifierNames_def)
  have "length (filter (\<lambda>n. Has m (named_mod n)) [''nxdomain'', ''nxname'', ''servfail'']) \<le> 1"
    using assms by (simp only: modifier_validate_is_at_most_one)
  then show "\<not> (Has m ModNXDOMAIN \<and> Has m ModServfail)" "\<not> (Has m ModNXNAME \<and> Has m ModServfail)"
    "\<not> (Has m ModNXDOMAIN \<and> Has m ModNXNAME)"
    by (auto simp: n split: if_splits)
qed

text \<open>
  The query name rendered for a valid query parses back to it, two valid queries never share
  a name, and every parsed query can be rendered and parsed again.
\<close>

lemma probe_query_round_trip:
  "(Query_Validate q = None \<longrightarrow> ParseQuery (Sub q) = Some q) \<and>
   (Query_Validate q = None \<and> Query_Validate q' = None \<and> Sub q = Sub q' \<longrightarrow> q = q') \<and>
   (ParseQuery s = Some q \<longrightarrow> ParseQuery (Sub q) = Some q)"
  using probe_query.encode_inj [of q q'] probe_query.reencode [of s q] ParseQuery_Sub by auto

definition example_query :: Query where
  "example_query = \<lparr>Token = ''a1b2c3d4'', Mods = ModBadSig OR ModTruncate OR ModNXNAME\<rparr>"

lemma probe_query_round_trip_witness:
  "Sub example_query = ''_badsig._truncate._nxname.a1b2c3d4'' \<and>
   ParseQuery ''_badsig._truncate._nxname.a1b2c3d4'' = Some example_query"
proof -
  have v: "Query_Validate example_query = None" by code_simp
  have "Sub example_query = ''_badsig._truncate._nxname.a1b2c3d4''" by code_simp
  with probe_query_round_trip [of example_query] v show ?thesis by metis
qed

end
