(* ===== verification/Probe_Keytag.thy ===== *)
theory Probe_Keytag
  imports Probe_Labels Dns_Msg
begin

text \<open>
  RFC 8145 key tags in the \<open>probe\<close> plugin (\<open>keytag.go\<close>): the query-name form, the EDNS option and
  their parsers.
\<close>

section \<open>Operations\<close>

definition keyTagPrefix :: string where "keyTagPrefix = ''_ta-''"
definition keyTagHexDigits :: nat where "keyTagHexDigits = 4"
definition maxKeyTagsPerQuery :: nat where "maxKeyTagsPerQuery = 16"

datatype keytag_error = ErrNotKeyTagQuery | ErrBadKeyTagQuery

text \<open>The loop over the hyphen-separated parts.\<close>

fun parse_tags :: "string list \<Rightarrow> keytag_error + u16 list" where
  "parse_tags [] = Inr []"
| "parse_tags (p # parts) =
     (if length p \<noteq> keyTagHexDigits then Inl ErrBadKeyTagQuery
      else case parse_uint 16 16 p of
             None \<Rightarrow> Inl ErrBadKeyTagQuery
           | Some n \<Rightarrow> (case parse_tags parts of Inl e \<Rightarrow> Inl e | Inr tags \<Rightarrow> Inr (of_nat n # tags)))"

definition ParseKeyTagQuery :: "string \<Rightarrow> keytag_error + u16 list" where
  "ParseKeyTagQuery sub =
     (if CHR ''.'' \<in> set sub then Inl ErrNotKeyTagQuery
      else if \<not> has_prefix (toLowerASCII sub) keyTagPrefix then Inl ErrNotKeyTagQuery
      else let rest = drop (length keyTagPrefix) sub in
        if rest = [] then Inl ErrBadKeyTagQuery
        else let parts = split_on (CHR ''-'') rest in
          if length parts > maxKeyTagsPerQuery then Inl ErrBadKeyTagQuery else parse_tags parts)"

text \<open>\<open>sort.SliceIsSorted\<close> with \<open><\<close>: no element is below its predecessor.\<close>

fun KeyTagsSorted :: "u16 list \<Rightarrow> bool" where
  "KeyTagsSorted (a # b # tags) \<longleftrightarrow> \<not> b < a \<and> KeyTagsSorted (b # tags)"
| "KeyTagsSorted _ \<longleftrightarrow> True"

fun write_tags :: "nat \<Rightarrow> u16 list \<Rightarrow> string" where
  "write_tags i [] = []"
| "write_tags i (t # ts) = (if i > 0 then ''-'' else []) @ hex4 t @ write_tags (Suc i) ts"

definition FormatKeyTagQuery :: "u16 list \<Rightarrow> string" where
  "FormatKeyTagQuery tags = keyTagPrefix @ write_tags 0 (sort tags)"

definition ednsKeyTagOption :: u16 where "ednsKeyTagOption = 14"

fun read_tags :: "bytes \<Rightarrow> u16 list" where
  "read_tags (a # b # data) = getBE16 [a, b] # read_tags data"
| "read_tags _ = []"

definition parseEDNSKeyTags :: "bytes \<Rightarrow> u16 list option" where
  "parseEDNSKeyTags data =
     (if length data = 0 \<or> length data mod 2 \<noteq> 0 then None
      else if length data div 2 > maxKeyTagsPerQuery then None
      else Some (read_tags data))"

fun collect_tags :: "edns0 list \<Rightarrow> u16 list" where
  "collect_tags [] = []"
| "collect_tags (o' # os) =
     (case o' of
        EDNS0_LOCAL code data \<Rightarrow>
          (if code = ednsKeyTagOption
           then (case parseEDNSKeyTags data of Some more' \<Rightarrow> more' | None \<Rightarrow> []) else [])
      | _ \<Rightarrow> []) @ collect_tags os"

definition ednsKeyTags :: "opt \<Rightarrow> u16 list" where
  "ednsKeyTags o' = collect_tags (Options o')"

definition hasKeyTag :: "u16 list \<Rightarrow> u16 \<Rightarrow> bool" where
  "hasKeyTag tags want = List.member tags want"

section \<open>The query name\<close>

lemma write_tags_join: "write_tags i ts = (if i > 0 \<and> ts \<noteq> [] then ''-'' else []) @ join_on (CHR ''-'') (map hex4 ts)"
proof (induction ts arbitrary: i)
  case (Cons t ts)
  then show ?case by (cases ts) auto
qed simp

lemma KeyTagsSorted_iff: "KeyTagsSorted tags \<longleftrightarrow> sorted tags"
  by (induction tags rule: KeyTagsSorted.induct) (auto simp: not_less intro: order_trans)

lemma hex4_chars: "CHR ''-'' \<notin> set (hex4 w)" "CHR ''.'' \<notin> set (hex4 w)"
proof -
  have "unat w < 65536" using unsigned_less [of w, where ?'a = nat] by simp
  then have "unat w div 4096 < 16" by (simp add: less_mult_imp_div_less)
  moreover have "(of_char (hex_digit i) :: nat) \<notin> {45, 46}" if "i < 16" for i
    using that by (auto simp: of_char_hex_digit)
  then have "hex_digit i \<noteq> CHR ''-''" "hex_digit i \<noteq> CHR ''.''" if "i < 16" for i
    using that by force+
  ultimately show "CHR ''-'' \<notin> set (hex4 w)" "CHR ''.'' \<notin> set (hex4 w)"
    unfolding hex4_def by (metis (no_types) list.set_cases mod_less_divisor set_ConsD zero_less_numeral empty_iff list.set(1))+
qed

lemma one_tag: "length p = 4 \<and> parse_uint 16 16 p = Some (unat w) \<longleftrightarrow> lower_ascii p = hex4 w"
proof -
  have "unat w = unat v \<longleftrightarrow> v = w" for v by (auto simp: word_unat_eq_iff)
  then show ?thesis using parse_uint_hex4 [of p "unat w"] by simp
qed

lemma of_nat_tag: "parse_uint 16 16 p = Some n \<Longrightarrow> of_nat n = (t :: u16) \<longleftrightarrow> n = unat t"
  using parse_uint_less [of 16 16 p n] by (auto simp: unat_of_nat)

lemma parse_tags_Cons:
  "parse_tags (p # parts) = Inr (t # ts) \<longleftrightarrow>
     (length p = 4 \<and> parse_uint 16 16 p = Some (unat t)) \<and> parse_tags parts = Inr ts"
  by (auto simp: keyTagHexDigits_def of_nat_tag split: option.splits sum.splits)

lemma parse_tags_iff: "parse_tags parts = Inr tags \<longleftrightarrow> map lower_ascii parts = map hex4 tags"
proof (induction parts arbitrary: tags)
  case Nil
  then show ?case by auto
next
  case (Cons p parts)
  show ?case
  proof (cases tags)
    case Nil
    then show ?thesis by (auto split: option.splits sum.splits)
  next
    case (Cons t ts)
    then show ?thesis unfolding Cons parse_tags_Cons one_tag Cons.IH by simp
  qed
qed

lemma length_tags: "map lower_ascii parts = map hex4 tags \<Longrightarrow> length parts = length tags"
  by (metis length_map)

text \<open>The names that parse: the prefix and the hyphen-separated four-digit tags, in any case.\<close>

lemma lower_join: "lower_ascii (join_on c ls) = join_on (lower_char c) (map lower_ascii ls)"
  by (induction c ls rule: join_on.induct) (auto simp: lower_ascii_def)

lemma split_lower: "\<not> is_upper c \<Longrightarrow> (\<And>d. lower_char d = c \<longleftrightarrow> d = c) \<Longrightarrow>
    split_on c (lower_ascii s) = map lower_ascii (split_on c s)"
  by (induction s) (auto simp: lower_ascii_def split: list.splits)

lemma split_hyphen: "map lower_ascii (split_on (CHR ''-'') s) = split_on (CHR ''-'') (lower_ascii s)"
  by (rule split_lower [symmetric]) (simp_all add: is_upper_def)

lemma split_tags: "tags \<noteq> [] \<Longrightarrow> split_on (CHR ''-'') t = map hex4 tags \<longleftrightarrow> t = join_on (CHR ''-'') (map hex4 tags)"
  using split_join [of "map hex4 tags" "CHR ''-''"] join_split [of "CHR ''-''" t] hex4_chars(1)
  by (metis (no_types, lifting) ex_map_conv list.map_disc_iff)

lemma dot_in_tags: "CHR ''.'' \<notin> set (join_on (CHR ''-'') (map hex4 tags))"
proof (induction tags)
  case (Cons t ts)
  then show ?case using hex4_chars(2) by (cases ts) auto
qed simp

lemma parse_parts:
  "length (split_on (CHR ''-'') rest) \<le> maxKeyTagsPerQuery \<and> parse_tags (split_on (CHR ''-'') rest) = Inr tags \<longleftrightarrow>
   tags \<noteq> [] \<and> length tags \<le> maxKeyTagsPerQuery \<and> lower_ascii rest = join_on (CHR ''-'') (map hex4 tags)"
  unfolding parse_tags_iff split_hyphen
  using split_tags [of tags "lower_ascii rest"] split_hyphen [of rest] split_on_nonempty [of "CHR ''-''" "lower_ascii rest"]
  by (metis length_map list.map_disc_iff)

lemma tags_text_nonempty: "tags \<noteq> [] \<Longrightarrow> join_on (CHR ''-'') (map hex4 tags) \<noteq> []"
  by (cases tags rule: remdups_adj.cases) (auto simp: hex4_def)

lemma ParseKeyTagQuery_iff:
  "ParseKeyTagQuery s = Inr tags \<longleftrightarrow>
     tags \<noteq> [] \<and> length tags \<le> 16 \<and> lower_ascii s = ''_ta-'' @ join_on (CHR ''-'') (map hex4 tags)"
proof -
  let ?rest = "drop 4 s" and ?text = "join_on (CHR ''-'') (map hex4 tags)"
  have s: "lower_ascii s = take 4 (lower_ascii s) @ lower_ascii ?rest"
    by (simp add: lower_ascii_def drop_map [symmetric])
  have p: "has_prefix (lower_ascii s) keyTagPrefix \<longleftrightarrow> take 4 (lower_ascii s) = ''_ta-''"
    by (simp add: has_prefix_def keyTagPrefix_def numeral_eq_Suc)
  have len: "length keyTagPrefix = 4" by (simp add: keyTagPrefix_def)
  have "ParseKeyTagQuery s = Inr tags \<longleftrightarrow> CHR ''.'' \<notin> set s \<and> take 4 (lower_ascii s) = ''_ta-'' \<and> ?rest \<noteq> [] \<and>
      length (split_on (CHR ''-'') ?rest) \<le> maxKeyTagsPerQuery \<and> parse_tags (split_on (CHR ''-'') ?rest) = Inr tags"
    by (auto simp: ParseKeyTagQuery_def Let_def toLowerASCII_eq p len)
  also have "\<dots> \<longleftrightarrow> CHR ''.'' \<notin> set s \<and> take 4 (lower_ascii s) = ''_ta-'' \<and> ?rest \<noteq> [] \<and>
      tags \<noteq> [] \<and> length tags \<le> 16 \<and> lower_ascii ?rest = ?text"
    by (simp only: parse_parts) (simp add: maxKeyTagsPerQuery_def)
  also have "\<dots> \<longleftrightarrow> tags \<noteq> [] \<and> length tags \<le> 16 \<and> lower_ascii s = ''_ta-'' @ ?text"
  proof (intro iffI conjI; elim conjE)
    assume h: "tags \<noteq> []" "lower_ascii s = ''_ta-'' @ ?text"
    have "take 4 (lower_ascii s) = ''_ta-''" using h(2) by simp
    with s h(2) show r: "lower_ascii ?rest = ?text" by simp
    show "?rest \<noteq> []" using r tags_text_nonempty [OF h(1)] by (metis lower_ascii_Nil_iff)
    have "CHR ''.'' \<notin> set (lower_ascii s)" unfolding h(2) using dot_in_tags [of tags] by simp
    then show "CHR ''.'' \<notin> set s" by simp
  qed (use s in auto)
  finally show ?thesis .
qed

lemma lower_hex_digit: "d < 16 \<Longrightarrow> lower_char (hex_digit d) = hex_digit d"
  using hex_digit_val_hex_digit hex_digit_val_Some by blast

lemma lower_hex4: "lower_ascii (hex4 w) = hex4 w"
  using unsigned_less [of w, where ?'a = nat]
  by (simp add: hex4_def lower_ascii_def lower_hex_digit less_mult_imp_div_less)

lemma FormatKeyTagQuery_eq: "FormatKeyTagQuery tags = ''_ta-'' @ join_on (CHR ''-'') (map hex4 (sort tags))"
  by (simp add: FormatKeyTagQuery_def keyTagPrefix_def write_tags_join)

lemma lower_format: "lower_ascii (FormatKeyTagQuery tags) = FormatKeyTagQuery tags"
proof -
  have l: "lower_ascii ''_ta-'' = ''_ta-''" "lower_char (CHR ''-'') = CHR ''-''"
    by (simp_all add: lower_ascii_def lower_char_def is_upper_def)
  show ?thesis unfolding FormatKeyTagQuery_eq lower_ascii_append lower_join l
    by (simp add: lower_hex4 comp_def)
qed

section \<open>The EDNS option\<close>

lemma read_tags_put: "read_tags (putBE16 t @ data) = t # read_tags data"
proof -
  obtain a b where "putBE16 t = [a, b]"
    using length_put(1) [of t] by (metis (no_types) length_0_conv length_Suc_conv numeral_2_eq_2)
  moreover from this have "getBE16 [a, b] = t" by (metis getBE16_putBE16(2))
  ultimately show ?thesis by simp
qed

lemma read_tags_concat: "read_tags (concat (map putBE16 tags)) = tags"
  by (induction tags) (simp_all add: read_tags_put)

lemma length_concat_put: "length (concat (map putBE16 tags)) = 2 * length tags"
  by (induction tags) auto

lemma parseEDNSKeyTags_put:
  "parseEDNSKeyTags (concat (map putBE16 tags)) = (if tags \<noteq> [] \<and> length tags \<le> 16 then Some tags else None)"
  by (auto simp: parseEDNSKeyTags_def length_concat_put read_tags_concat maxKeyTagsPerQuery_def)

section \<open>Properties\<close>

text \<open>
  \<open>ParseKeyTagQuery\<close> accepts exactly the names \<open>_ta-\<close> followed by one to sixteen hyphen-separated tags of
  four hexadecimal digits (in any case) and returns the tags in the order of the name; so the label formatted for up
  to sixteen tags parses back to the tags in numerical order, which \<open>KeyTagsSorted\<close> recognises.
\<close>

lemma key_tag_query_grammar:
  "(ParseKeyTagQuery s = Inr tags \<longleftrightarrow>
     1 \<le> length tags \<and> length tags \<le> 16 \<and> lower_ascii s = ''_ta-'' @ join_on (CHR ''-'') (map hex4 tags)) \<and>
   (1 \<le> length ts \<and> length ts \<le> 16 \<longrightarrow>
     ParseKeyTagQuery (FormatKeyTagQuery ts) = Inr (sort ts) \<and> KeyTagsSorted (sort ts))"
proof -
  have "tags \<noteq> [] \<longleftrightarrow> 1 \<le> length tags" for tags :: "u16 list" by (cases tags) auto
  moreover have "sort ts \<noteq> [] \<longleftrightarrow> 1 \<le> length ts" by (cases ts) auto
  ultimately show ?thesis
    using ParseKeyTagQuery_iff [of s tags] ParseKeyTagQuery_iff [of "FormatKeyTagQuery ts" "sort ts"]
      lower_format [of ts] FormatKeyTagQuery_eq [of ts] by (simp add: KeyTagsSorted_iff)
qed

lemma key_tag_query_grammar_witness:
  "ParseKeyTagQuery ''_ta-0635-7aae-aa1b'' = Inr [0x0635, 0x7aae, 0xaa1b]"
proof -
  have s: "sort [0x7aae, 0xaa1b, 0x0635 :: u16] = [0x0635, 0x7aae, 0xaa1b]" by code_simp
  moreover have "FormatKeyTagQuery [0x7aae, 0xaa1b, 0x0635] = ''_ta-0635-7aae-aa1b''"
    unfolding FormatKeyTagQuery_eq s by (simp add: hex4_def hex_digit_def char_of_def bit_0)
  ultimately show ?thesis using key_tag_query_grammar [of _ _ "[0x7aae, 0xaa1b, 0x0635]"] by simp
qed

end
