(* ===== verification/Probe_Observe.thy ===== *)
theory Probe_Observe
  imports Probe_Keytag Go_Net
begin

text \<open>
  What the \<open>probe\<close> plugin records of one query (\<open>observe.go\<close>, \<open>encrypted.go\<close>): the transport and its TLS
  details, the resolver's address and prefix, and the EDNS signals. Names that Go's and the DNS library's tables give to
  codes are parameters: \<open>typeToString\<close> (\<open>dns.TypeToString\<close>, the empty string for a missing entry) and the three
  TLS tables.
\<close>

unbundle bit_operations_syntax

section \<open>Transport\<close>

datatype Transport = TransportUDP | TransportTCP | TransportTLS | TransportQUIC | TransportHTTP

record TLSInfo =
  TVersion :: string
  TCipherSuite :: string
  TNamedGroup :: string
  TServerName :: string
  TDidResume :: bool

record ConnectionState =
  CVersion :: u16
  CCipherSuite :: u16
  CServerName :: string
  CDidResume :: bool
  CCurveID :: u16
  CNegotiatedProtocol :: string

record tls_names =
  VersionName :: "u16 \<Rightarrow> string"
  CipherSuiteName :: "u16 \<Rightarrow> string"
  CurveName :: "u16 \<Rightarrow> string"

text \<open>
  A response writer as \<open>connectionState\<close> sees it: it offers a connection state (possibly nil), it wraps another
  writer (possibly nil), or it does neither.
\<close>

datatype writer = StateWriter "ConnectionState option" | WrapWriter "writer option" | PlainWriter

fun connectionState_at :: "nat \<Rightarrow> writer option \<Rightarrow> ConnectionState option" where
  "connectionState_at 0 w = None"
| "connectionState_at (Suc i) None = None"
| "connectionState_at (Suc i) (Some (StateWriter cs)) = cs"
| "connectionState_at (Suc i) (Some (WrapWriter w)) = connectionState_at i w"
| "connectionState_at (Suc i) (Some PlainWriter) = None"

definition connectionState :: "writer option \<Rightarrow> ConnectionState option" where
  "connectionState w = connectionState_at 8 w"

definition transportFrom :: "tls_names \<Rightarrow> writer option \<Rightarrow> string \<Rightarrow> Transport \<times> TLSInfo option" where
  "transportFrom tn w proto =
     (case connectionState w of
        Some cs \<Rightarrow>
          let info = \<lparr>TVersion = VersionName tn (CVersion cs), TCipherSuite = CipherSuiteName tn (CCipherSuite cs),
                      TNamedGroup = (if CCurveID cs \<noteq> 0 then CurveName tn (CCurveID cs) else []),
                      TServerName = CServerName cs, TDidResume = CDidResume cs\<rparr> in
          if CNegotiatedProtocol cs = ''h2'' \<or> CNegotiatedProtocol cs = ''http/1.1'' then (TransportHTTP, Some info)
          else if CNegotiatedProtocol cs = ''doq'' then (TransportQUIC, Some info)
          else (TransportTLS, Some info)
      | None \<Rightarrow> if proto = ''tcp'' then (TransportTCP, None) else (TransportUDP, None))"

section \<open>Observations\<close>

record Observation =
  oAt :: int
  oResolverAddr :: addr
  oTLS :: "TLSInfo option"
  oResolverPrefix :: prefix
  oECSPrefix :: prefix
  oToken :: string
  oQtype :: string
  oMods :: string
  oTransport :: Transport
  oKeyTags :: "u16 list"
  oSeen :: nat
  oECSFamily :: u16
  oUDPSize :: u16
  oIPv6 :: bool
  oECSScope :: byte
  oECS :: bool
  oCookie :: bool
  oDELEGAware :: bool
  oEDNS :: bool
  oKnowsZoneKey :: bool
  oZoneVersionAsked :: bool
  oCompactAware :: bool
  oCaseRandomized :: bool
  oDO :: bool

definition Encrypted :: "Observation \<Rightarrow> bool" where
  "Encrypted obs =
     (case oTransport obs of
        TransportTLS \<Rightarrow> True | TransportQUIC \<Rightarrow> True | TransportHTTP \<Rightarrow> True
      | TransportUDP \<Rightarrow> False | TransportTCP \<Rightarrow> False)"

abbreviation (input) v4PrefixBits :: nat where "v4PrefixBits \<equiv> 24"
abbreviation (input) v6PrefixBits :: nat where "v6PrefixBits \<equiv> 56"

definition coFlag :: u32 where "coFlag = push_bit 14 1"
definition deFlag :: u32 where "deFlag = push_bit 13 1"

definition is_lower :: "char \<Rightarrow> bool" where
  "is_lower c \<longleftrightarrow> CHR ''a'' \<le> c \<and> c \<le> CHR ''z''"

text \<open>The scan of \<open>isCaseRandomized\<close>, with its two flags and its early exit.\<close>

fun scan_case :: "bool \<Rightarrow> bool \<Rightarrow> string \<Rightarrow> bool" where
  "scan_case hasUpper hasLower [] = False"
| "scan_case hasUpper hasLower (c # cs) =
     (let hasUpper = hasUpper \<or> is_upper c;
          hasLower = hasLower \<or> (\<not> is_upper c \<and> is_lower c) in
      if hasUpper \<and> hasLower then True else scan_case hasUpper hasLower cs)"

definition isCaseRandomized :: "string \<Rightarrow> bool" where
  "isCaseRandomized name = scan_case False False name"

definition applyECSObservation :: "edns_subnet \<Rightarrow> Observation \<Rightarrow> Observation" where
  "applyECSObservation v obs0 =
     (let obs = obs0\<lparr>oECS := True, oECSScope := SourceNetmask v, oECSFamily := Family v\<rparr> in
      if SourceNetmask v = 0 then obs
      else case AddrFromSlice (Address v) of
             None \<Rightarrow> obs
           | Some a \<Rightarrow> (case addr_Prefix (Unmap a) (unat (SourceNetmask v)) of
                          Some p \<Rightarrow> obs\<lparr>oECSPrefix := p\<rparr>
                        | None \<Rightarrow> obs))"

fun apply_option :: "edns0 \<Rightarrow> Observation \<Rightarrow> Observation" where
  "apply_option (EDNS0_COOKIE _) obs = obs\<lparr>oCookie := True\<rparr>"
| "apply_option (EDNS0_ZONEVERSION _) obs = obs\<lparr>oZoneVersionAsked := True\<rparr>"
| "apply_option (EDNS0_SUBNET v) obs = applyECSObservation v obs"
| "apply_option _ obs = obs"

definition applyEDNSObservation :: "opt \<Rightarrow> Observation \<Rightarrow> Observation" where
  "applyEDNSObservation o' obs0 =
     (let obs = obs0\<lparr>oEDNS := True, oDO := Do o', oUDPSize := UDPSize o',
                      oCompactAware := (OptTtl o' AND coFlag \<noteq> 0), oDELEGAware := (OptTtl o' AND deFlag \<noteq> 0),
                      oKeyTags := ednsKeyTags o'\<rparr> in
      fold apply_option (Options o') obs)"

text \<open>The prefix both \<open>Observe\<close> and \<open>NewReportRecord\<close> group an address by.\<close>

definition egress_prefix :: "addr \<Rightarrow> prefix" where
  "egress_prefix a =
     (let bits = (if Is6 a then v6PrefixBits else v4PrefixBits) in
      case addr_Prefix a bits of Some p \<Rightarrow> p | None \<Rightarrow> PrefixFrom a (BitLen a))"

definition Observe ::
  "(u16 \<Rightarrow> string) \<Rightarrow> int \<Rightarrow> Query \<Rightarrow> string \<Rightarrow> addr \<Rightarrow> Transport \<Rightarrow> u16 \<Rightarrow> msg \<Rightarrow> Observation" where
  "Observe typeToString now q raw addr0 transport qtype m =
     (let a = Unmap addr0;
          name = typeToString qtype;
          obs = \<lparr>oAt = now, oResolverAddr = a, oTLS = None, oResolverPrefix = egress_prefix a,
                 oECSPrefix = zero_prefix, oToken = Token q,
                 oQtype = (if name = [] then ''TYPE'' @ itoa (unat qtype) else name),
                 oMods = Modifier_String (Mods q), oTransport = transport, oKeyTags = [], oSeen = 0, oECSFamily = 0,
                 oUDPSize = 0, oIPv6 = Is6 a, oECSScope = 0, oECS = False, oCookie = False, oDELEGAware = False,
                 oEDNS = False, oKnowsZoneKey = False, oZoneVersionAsked = False, oCompactAware = False,
                 oCaseRandomized = isCaseRandomized raw, oDO = False\<rparr> in
      case Opt m of None \<Rightarrow> obs | Some o' \<Rightarrow> applyEDNSObservation o' obs)"

section \<open>Client subnet\<close>

text \<open>
  The client-subnet part of an observation, and the effect of one option on it alone: the rest of the loop does not
  interfere.
\<close>

fun subnets :: "edns0 list \<Rightarrow> edns_subnet list" where
  "subnets [] = []"
| "subnets (EDNS0_SUBNET v # os) = v # subnets os"
| "subnets (_ # os) = subnets os"

definition disclosed :: "edns_subnet \<Rightarrow> prefix option" where
  "disclosed v =
     (if SourceNetmask v = 0 then None
      else do { a \<leftarrow> AddrFromSlice (Address v); addr_Prefix (Unmap a) (unat (SourceNetmask v)) })"

definition ecs_view :: "Observation \<Rightarrow> bool \<times> byte \<times> u16 \<times> prefix" where
  "ecs_view obs = (oECS obs, oECSScope obs, oECSFamily obs, oECSPrefix obs)"

definition ecs_step :: "edns_subnet \<Rightarrow> bool \<times> byte \<times> u16 \<times> prefix \<Rightarrow> bool \<times> byte \<times> u16 \<times> prefix" where
  "ecs_step v = (\<lambda>(e, s, f, p). (True, SourceNetmask v, Family v, case disclosed v of Some p' \<Rightarrow> p' | None \<Rightarrow> p))"

lemma ecs_view_apply: "ecs_view (applyECSObservation v obs) = ecs_step v (ecs_view obs)"
  by (auto simp: ecs_view_def ecs_step_def applyECSObservation_def disclosed_def Let_def split: option.splits)

lemma ecs_view_frame [simp]:
  "ecs_view (obs\<lparr>oCookie := c\<rparr>) = ecs_view obs" "ecs_view (obs\<lparr>oZoneVersionAsked := z\<rparr>) = ecs_view obs"
  by (simp_all add: ecs_view_def)

lemma ecs_view_fold: "ecs_view (fold apply_option os obs) = fold ecs_step (subnets os) (ecs_view obs)"
proof (induction os arbitrary: obs)
  case (Cons o' os)
  then show ?case by (cases o') (simp_all add: ecs_view_apply)
qed simp

lemma ecs_view_Observe:
  "ecs_view (Observe tts now q raw a t qt m) =
     (case Opt m of None \<Rightarrow> (False, 0, 0, zero_prefix)
      | Some o' \<Rightarrow> fold ecs_step (subnets (Options o')) (False, 0, 0, zero_prefix))"
proof -
  have "ecs_view (applyEDNSObservation o' obs) = fold ecs_step (subnets (Options o')) (ecs_view obs)" for o' obs
    unfolding applyEDNSObservation_def Let_def ecs_view_fold by (simp add: ecs_view_def)
  then show ?thesis by (simp add: Observe_def Let_def split: option.split) (simp add: ecs_view_def)
qed

lemma disclosed_bits:
  assumes "disclosed v = Some p"
  shows "SourceNetmask v \<noteq> 0 \<and> Bits p = int (unat (SourceNetmask v)) \<and> masked_to (unat (SourceNetmask v)) (PAddr p)"
proof -
  obtain a where a: "AddrFromSlice (Address v) = Some a" and n: "SourceNetmask v \<noteq> 0"
    and p: "addr_Prefix (Unmap a) (unat (SourceNetmask v)) = Some p"
    using assms by (auto simp: disclosed_def split: if_splits bind_splits)
  have "IsValid (Unmap a)" using a by (auto simp: AddrFromSlice_def AddrFrom16_def split: if_splits)
  then show ?thesis using addr_Prefix_masked [OF p] n by simp
qed

section \<open>Case randomisation\<close>

lemma not_both_cases: "is_upper c \<Longrightarrow> \<not> is_lower c"
  by (auto simp: is_upper_def is_lower_def less_eq_char_def)

lemma scan_case_iff:
  "\<not> (u \<and> l) \<Longrightarrow> scan_case u l cs \<longleftrightarrow> (u \<or> list_ex is_upper cs) \<and> (l \<or> list_ex is_lower cs)"
proof (induction cs arbitrary: u l)
  case (Cons c cs)
  then show ?case using not_both_cases [of c] by (auto simp: Let_def)
qed auto

lemma isCaseRandomized_iff: "isCaseRandomized name \<longleftrightarrow> list_ex is_upper name \<and> list_ex is_lower name"
  by (simp add: isCaseRandomized_def scan_case_iff)

section \<open>Properties\<close>

text \<open>
  the three client-subnet states are kept apart. A query without the option, or without EDNS, records no
  subnet; a query with exactly one option records its source length, and a prefix exactly when the resolver disclosed
  one; the prefix then has that length and no bit of the client address beyond it, so an opt-out (length 0) is never
  recorded as a disclosure.
\<close>

lemma ecs_opt_out_is_not_a_disclosure:
  assumes "Opt m = Some o'" and "subnets (Options o') = [v]"
  shows "let obs = Observe tts now q raw a t qt m in
    oECS obs \<and> oECSScope obs = SourceNetmask v \<and>
    (prefix_valid (oECSPrefix obs) \<longrightarrow>
       oECSScope obs \<noteq> 0 \<and> Bits (oECSPrefix obs) = int (unat (oECSScope obs)) \<and>
       masked_to (unat (oECSScope obs)) (PAddr (oECSPrefix obs)))"
proof -
  have "ecs_view (Observe tts now q raw a t qt m) = ecs_step v (False, 0, 0, zero_prefix)"
    using ecs_view_Observe [of tts now q raw a t qt m] assms by simp
  then show ?thesis
    using disclosed_bits [of v]
    by (cases "disclosed v")
      (simp_all add: Let_def ecs_view_def ecs_step_def prefix_valid_def zero_prefix_def)
qed

text \<open>A query with one option disclosing 24 bits of 192.0.2.77, and one with an opt-out followed by nothing.\<close>

definition example_subnet :: edns_subnet where
  "example_subnet = \<lparr>Family = 1, SourceNetmask = 24, Address = [192, 0, 2, 77]\<rparr>"

lemma example_disclosed: "disclosed example_subnet = Some \<lparr>PAddr = Addr4 0xc0000200, Bits = 24\<rparr>"
  by (simp add: disclosed_def example_subnet_def AddrFromSlice_def keep_bits_def)

definition example_subnet_query :: msg where
  "example_subnet_query =
     \<lparr>Id = 7, Opcode = 0, Rcode = 0, Authoritative = False, Truncated = False,
      Question = [\<lparr>QName = ''a1b2c3d4.check.example.'', Qtype = 1, Qclass = 1\<rparr>], Answer = [], Ns = [], Extra = [],
      Opt = Some \<lparr>OptTtl = 0x8000, UDPSize = 1232,
        Options = [EDNS0_COOKIE ''0011223344556677'',
          EDNS0_SUBNET example_subnet]\<rparr>\<rparr>"

lemma ecs_opt_out_is_not_a_disclosure_witness:
  "let obs = Observe (\<lambda>_. ''A'') 5 \<lparr>Token = ''a1b2c3d4'', Mods = 0\<rparr> ''a1b2c3d4'' (Addr4 1) TransportUDP 1 example_subnet_query in
   oECS obs \<and> oECSScope obs = 24 \<and> Bits (oECSPrefix obs) = 24"
proof -
  let ?obs = "Observe (\<lambda>_. ''A'') 5 \<lparr>Token = ''a1b2c3d4'', Mods = 0\<rparr> ''a1b2c3d4'' (Addr4 1) TransportUDP 1 example_subnet_query"
  have "ecs_view ?obs = (True, 24, 1, \<lparr>PAddr = Addr4 0xc0000200, Bits = 24\<rparr>)"
    unfolding ecs_view_Observe
    by (simp add: example_subnet_query_def ecs_step_def example_disclosed) (simp add: example_subnet_def)
  then have "prefix_valid (oECSPrefix ?obs)" by (simp add: ecs_view_def prefix_valid_def)
  moreover have "Opt example_subnet_query = Some \<lparr>OptTtl = 0x8000, UDPSize = 1232,
        Options = [EDNS0_COOKIE ''0011223344556677'', EDNS0_SUBNET example_subnet]\<rparr>"
    by (simp add: example_subnet_query_def)
  ultimately show ?thesis
    using ecs_opt_out_is_not_a_disclosure [of example_subnet_query _ example_subnet "\<lambda>_. ''A''" 5
        "\<lparr>Token = ''a1b2c3d4'', Mods = 0\<rparr>" "''a1b2c3d4''" "Addr4 1" TransportUDP 1]
    by (simp add: Let_def) (simp add: example_subnet_def)
qed

end
