(* ===== verification/Probe_Report.thy ===== *)
theory Probe_Report
  imports Probe_Observe
begin

text \<open>
  RFC 9567 error reports in the \<open>probe\<close> plugin (\<open>errorreport.go\<close>): the decoder of report names, the
  record that is stored, and the Report-Channel option. The DNS library's name functions and tables are the parameter
  \<open>probe_dns\<close>; \<open>probe_dns_ok\<close> states what the library documents of them for names without escapes.
\<close>

section \<open>Library parameter\<close>

record probe_dns =
  pCanonicalName :: "string \<Rightarrow> string"
  pIsSubDomain :: "string \<Rightarrow> string \<Rightarrow> bool"
  pSplitDomainName :: "string \<Rightarrow> string list"
  pFqdn :: "string \<Rightarrow> string"
  pCountLabel :: "string \<Rightarrow> nat"
  pTypeToString :: "u16 \<Rightarrow> string option"
  pEDEToString :: "u16 \<Rightarrow> string option"

section \<open>Reports\<close>

record Report =
  rQtypeName :: string
  rQname :: string
  rEDEText :: string
  rToken :: string
  rQtype :: u16
  rEDE :: u16

record ReportRecord =
  rrAt :: int
  rrReporterAddr :: addr
  rrReporterPrefix :: prefix
  rrToken :: string
  rrQtypeName :: string
  rrQname :: string
  rrEDEText :: string
  rrTransport :: Transport
  rrQtype :: u16
  rrEDE :: u16

definition NewReportRecord :: "int \<Rightarrow> Report \<Rightarrow> addr \<Rightarrow> Transport \<Rightarrow> ReportRecord" where
  "NewReportRecord now r addr0 transport =
     (let a = Unmap addr0 in
      \<lparr>rrAt = now, rrReporterAddr = a, rrReporterPrefix = egress_prefix a, rrToken = rToken r,
       rrQtypeName = rQtypeName r, rrQname = rQname r, rrEDEText = rEDEText r, rrTransport = transport,
       rrQtype = rQtype r, rrEDE = rEDE r\<rparr>)"

datatype report_error = ErrNotReport | ErrBadReport

abbreviation (input) maxReportLabels :: nat where "maxReportLabels \<equiv> 24"
abbreviation (input) maxDecimalLabel :: nat where "maxDecimalLabel \<equiv> 5"
abbreviation (input) minReportLabels :: nat where "minReportLabels \<equiv> 5"

definition parseDecimalLabel :: "string \<Rightarrow> report_error + u16" where
  "parseDecimalLabel s =
     (if s = [] \<or> length s > maxDecimalLabel then Inl ErrBadReport
      else if list_ex (\<lambda>c. c < CHR ''0'' \<or> c > CHR ''9'') s then Inl ErrBadReport
      else case parse_uint 10 16 s of None \<Rightarrow> Inl ErrBadReport | Some n \<Rightarrow> Inr (of_nat n))"

definition parseReportLabels :: "probe_dns \<Rightarrow> string \<Rightarrow> string \<Rightarrow> report_error + u16 \<times> u16 \<times> string" where
  "parseReportLabels lib name agent =
     (let rest = trim_suffix (trim_suffix name agent) ''.'' in
      if rest = [] then Inl ErrNotReport
      else
        let labels = pSplitDomainName lib rest;
            n = length labels in
        if n < minReportLabels then Inl ErrNotReport
        else if n > maxReportLabels then Inl ErrBadReport
        else if labels ! 0 \<noteq> ''_er'' \<or> labels ! (n - 1) \<noteq> ''_er'' then Inl ErrNotReport
        else
          case parseDecimalLabel (labels ! 1) of
            Inl e \<Rightarrow> Inl e
          | Inr qtype \<Rightarrow>
              (case parseDecimalLabel (labels ! (n - 2)) of
                 Inl e \<Rightarrow> Inl e
               | Inr ede \<Rightarrow>
                   let reported = take (n - 2 - 2) (drop 2 labels) in
                   if reported = [] then Inl ErrBadReport
                   else Inr (qtype, ede, pFqdn lib (join_on (CHR ''.'') reported))))"

definition qtypeName :: "probe_dns \<Rightarrow> u16 \<Rightarrow> string" where
  "qtypeName lib t = (case pTypeToString lib t of Some s \<Rightarrow> s | None \<Rightarrow> ''TYPE'' @ itoa (unat t))"

definition ParseReport :: "probe_dns \<Rightarrow> string \<Rightarrow> string \<Rightarrow> string \<Rightarrow> report_error + Report" where
  "ParseReport lib qname agentDomain probeZone =
     (let name = pCanonicalName lib qname;
          agent = pCanonicalName lib agentDomain in
      if agent = [] \<or> agent = ''.'' then Inl ErrNotReport
      else if \<not> pIsSubDomain lib agent name then Inl ErrNotReport
      else
        case parseReportLabels lib name agent of
          Inl e \<Rightarrow> Inl e
        | Inr (qtype, ede, qn) \<Rightarrow>
            let r = \<lparr>rQtypeName = qtypeName lib qtype, rQname = qn,
                     rEDEText = (case pEDEToString lib ede of Some t \<Rightarrow> t | None \<Rightarrow> []),
                     rToken = [], rQtype = qtype, rEDE = ede\<rparr> in
            if probeZone = [] then Inr r
            else
              let zone = pCanonicalName lib probeZone in
              if zone \<noteq> ''.'' \<and> pIsSubDomain lib zone qn
              then (case ParseQuery (trim_suffix (trim_suffix qn zone) ''.'') of
                      Some q \<Rightarrow> Inr (r\<lparr>rToken := Token q\<rparr>)
                    | None \<Rightarrow> Inr r)
              else Inr r)"

section \<open>The Report-Channel option\<close>

definition ReportChannelOption :: "probe_dns \<Rightarrow> string \<Rightarrow> edns0 option" where
  "ReportChannelOption lib agentDomain =
     (let d = pCanonicalName lib agentDomain in
      if d = [] \<or> d = ''.'' then None else Some (EDNS0_REPORTING d))"

definition is_reporting :: "edns0 \<Rightarrow> bool" where
  "is_reporting e = (case e of EDNS0_REPORTING _ \<Rightarrow> True | _ \<Rightarrow> False)"

text \<open>Options are appended to the OPT record a response already has.\<close>

definition append_option :: "edns0 \<Rightarrow> opt \<Rightarrow> msg \<Rightarrow> msg" where
  "append_option e o' m = m\<lparr>Opt := Some (o'\<lparr>Options := Options o' @ [e]\<rparr>)\<rparr>"

definition attachReportChannel :: "probe_dns \<Rightarrow> string \<Rightarrow> msg \<Rightarrow> msg" where
  "attachReportChannel lib agentDomain m =
     (case ReportChannelOption lib agentDomain of
        None \<Rightarrow> m
      | Some e \<Rightarrow>
          (case Opt m of
             None \<Rightarrow> m
           | Some o' \<Rightarrow> if list_ex is_reporting (Options o') then m else append_option e o' m))"

definition edeLabel :: "probe_dns \<Rightarrow> u16 \<Rightarrow> string" where
  "edeLabel lib code = (case pEDEToString lib code of None \<Rightarrow> ''other'' | Some _ \<Rightarrow> itoa (unat code))"

section \<open>Names as label lists\<close>

definition label_ok :: "string \<Rightarrow> bool" where
  "label_ok l \<longleftrightarrow> l \<noteq> [] \<and> CHR ''.'' \<notin> set l \<and> CHR 0x5C \<notin> set l"

definition dotted :: "string list \<Rightarrow> string" where
  "dotted ls = concat (map (\<lambda>l. l @ ''.'') ls)"

text \<open>What the library documents, for names whose labels carry neither a dot nor a backslash.\<close>

definition probe_dns_ok :: "probe_dns \<Rightarrow> bool" where
  "probe_dns_ok lib \<longleftrightarrow>
     (\<forall>ls. ls \<noteq> [] \<and> list_all label_ok ls \<longrightarrow>
        pCanonicalName lib (dotted ls) = lower_ascii (dotted ls) \<and>
        pSplitDomainName lib (join_on (CHR ''.'') ls) = ls \<and>
        pFqdn lib (join_on (CHR ''.'') ls) = dotted ls \<and>
        (\<forall>as. as \<noteq> [] \<and> list_all label_ok as \<longrightarrow>
           (pIsSubDomain lib (dotted as) (dotted ls) \<longleftrightarrow> (\<exists>bs. map lower_ascii ls = bs @ map lower_ascii as))))"

lemma dotted_append [simp]: "dotted (as @ bs) = dotted as @ dotted bs"
  and dotted_Cons [simp]: "dotted (l # ls) = l @ CHR ''.'' # dotted ls"
  and dotted_Nil [simp]: "dotted [] = []"
  by (simp_all add: dotted_def)

lemma dotted_join: "ls \<noteq> [] \<Longrightarrow> dotted ls = join_on (CHR ''.'') ls @ ''.''"
  by (induction "CHR ''.''" ls rule: join_on.induct) simp_all

lemma trim_suffix_append [simp]: "trim_suffix (a @ b) b = a"
  by (simp add: trim_suffix_def has_suffix_def)

lemma trim_dotted: "ls \<noteq> [] \<Longrightarrow> trim_suffix (dotted ls) ''.'' = join_on (CHR ''.'') ls"
  by (simp add: dotted_join)

lemma lower_dotted: "lower_ascii (dotted ls) = dotted (map lower_ascii ls)"
  by (induction ls) simp_all

lemma join_nonempty: "ls \<noteq> [] \<Longrightarrow> list_all label_ok ls \<Longrightarrow> join_on (CHR ''.'') ls \<noteq> []"
  by (cases ls rule: remdups_adj.cases) (auto simp: label_ok_def)

definition plain_name :: "string list \<Rightarrow> bool" where
  "plain_name ls \<longleftrightarrow> ls \<noteq> [] \<and> list_all (\<lambda>l. label_ok l \<and> lower_ascii l = l) ls"

lemma plain_nameD:
  assumes "plain_name ls"
  shows "ls \<noteq> []" "list_all label_ok ls" "map lower_ascii ls = ls" "lower_ascii (dotted ls) = dotted ls"
proof -
  show "ls \<noteq> []" "list_all label_ok ls" using assms by (auto simp: plain_name_def list_all_iff)
  show m: "map lower_ascii ls = ls" using assms by (auto simp: plain_name_def list_all_iff intro: map_idI)
  show "lower_ascii (dotted ls) = dotted ls" by (simp add: lower_dotted m)
qed

lemma dotted_not_root: "plain_name ls \<Longrightarrow> dotted ls \<noteq> [] \<and> dotted ls \<noteq> ''.''"
  by (cases ls) (auto simp: plain_name_def label_ok_def append_eq_Cons_conv)

lemma lib_plain:
  assumes "probe_dns_ok lib" and "plain_name ls"
  shows "pCanonicalName lib (dotted ls) = dotted ls"
    "pSplitDomainName lib (join_on (CHR ''.'') ls) = ls"
    "pFqdn lib (join_on (CHR ''.'') ls) = dotted ls"
    "plain_name as \<Longrightarrow> pIsSubDomain lib (dotted as) (dotted ls) \<longleftrightarrow> (\<exists>bs. ls = bs @ as)"
  using assms plain_nameD [of ls] plain_nameD [of as] unfolding probe_dns_ok_def by metis+

section \<open>Decoding a report\<close>

text \<open>The labels RFC 9567 section 6.1.1 puts before the agent domain.\<close>

definition report_labels :: "u16 \<Rightarrow> string list \<Rightarrow> u16 \<Rightarrow> string list" where
  "report_labels t ns e = [''_er'', itoa (unat t)] @ ns @ [itoa (unat e), ''_er'']"

lemma parseDecimalLabel_itoa: "parseDecimalLabel (itoa (unat (w :: u16))) = Inr w"
proof -
  have w: "unat w < 65536" using unsigned_less [of w, where ?'a = nat] by simp
  then have "length (itoa (unat w)) \<le> 5" using length_itoa [of "unat w" 5] by simp
  moreover have "\<not> list_ex (\<lambda>c. c < CHR ''0'' \<or> c > CHR ''9'') (itoa (unat w))"
    using itoa_digits [of _ "unat w"] by (auto simp: list_ex_iff not_less [symmetric])
  ultimately show ?thesis using parse_uint_itoa [OF w] by (simp add: parseDecimalLabel_def)
qed

lemma digits_lower: "lower_ascii (itoa n) = itoa n" "label_ok (itoa n)"
proof -
  have "\<not> is_upper c \<and> c \<noteq> CHR ''.'' \<and> c \<noteq> CHR 0x5C" if "c \<in> set (itoa n)" for c
    using itoa_digits [OF that] by (auto simp: is_upper_def less_eq_char_def)
  then show "lower_ascii (itoa n) = itoa n" "label_ok (itoa n)"
    by (auto intro: lower_ascii_id simp: label_ok_def)
qed

lemma plain_report: "plain_name ns \<Longrightarrow> plain_name (report_labels t ns e)"
proof -
  have "label_ok ''_er'' \<and> lower_ascii ''_er'' = ''_er''"
    by (simp add: label_ok_def lower_ascii_def lower_char_def is_upper_def)
  then show "plain_name ns \<Longrightarrow> plain_name (report_labels t ns e)"
    by (simp add: plain_name_def report_labels_def digits_lower)
qed

lemma plain_append: "plain_name as \<Longrightarrow> plain_name bs \<Longrightarrow> plain_name (as @ bs)"
  by (auto simp: plain_name_def)

lemma parseReportLabels_report:
  assumes lib: "probe_dns_ok lib" and ns: "plain_name ns" and len: "length ns \<le> 20"
  shows "parseReportLabels lib (dotted (report_labels t ns e) @ dotted agent) (dotted agent) = Inr (t, e, dotted ns)"
proof -
  let ?L = "report_labels t ns e"
  have L: "plain_name ?L" using ns by (rule plain_report)
  have ne: "ns \<noteq> []" using ns by (simp add: plain_name_def)
  have n: "length ?L = length ns + 4" by (simp add: report_labels_def)
  have at: "?L ! 0 = ''_er''" "?L ! 1 = itoa (unat t)" "?L ! (length ?L - 1) = ''_er''"
    "?L ! (length ?L - 2) = itoa (unat e)" "take (length ?L - 2 - 2) (drop 2 ?L) = ns"
    by (simp_all add: report_labels_def nth_append nth_Cons')
  have "1 \<le> length ns" using ne by (cases ns) auto
  then show ?thesis
    using ne len at n lib_plain [OF lib L] lib_plain [OF lib ns] join_nonempty [of ?L] plain_nameD(1,2) [OF L]
    by (simp add: parseReportLabels_def Let_def trim_dotted parseDecimalLabel_itoa)
qed

section \<open>Properties\<close>

text \<open>
  C32: a report name built as RFC 9567 section 6.1.1 prescribes, about a name of at most twenty labels,
  decodes to the type, the extended error and the name it was built from; and when the name is a probe query below the
  probe zone the report is attributed to the token of that query, while a name outside the zone gets no token.
\<close>

theorem error_report_round_trip:
  assumes "probe_dns_ok lib" and "plain_name ns" and "length ns \<le> 20" and "plain_name agent" and "plain_name zone"
  shows "\<exists>r. ParseReport lib (dotted (report_labels t ns e @ agent)) (dotted agent) (dotted zone) = Inr r \<and>
      rQtype r = t \<and> rEDE r = e \<and> rQname r = dotted ns \<and>
      (\<forall>q. ns = split_on (CHR ''.'') (Sub q) @ zone \<and> Query_Validate q = None \<longrightarrow> rToken r = Token q) \<and>
      ((\<nexists>ss. ns = ss @ zone) \<longrightarrow> rToken r = [])"
proof -
  note lp = lib_plain [OF assms(1)]
  have full: "plain_name (report_labels t ns e @ agent)"
    using assms(2,4) by (intro plain_append plain_report)
  have sub: "pIsSubDomain lib (dotted agent) (dotted (report_labels t ns e) @ dotted agent)"
    using lp(4) [OF full assms(4)] by simp
  have zsub: "pIsSubDomain lib (dotted zone) (dotted ns) \<longleftrightarrow> (\<exists>ss. ns = ss @ zone)"
    using lp(4) [OF assms(2,5)] .
  define r where "r = \<lparr>rQtypeName = qtypeName lib t, rQname = dotted ns,
      rEDEText = (case pEDEToString lib e of Some t \<Rightarrow> t | None \<Rightarrow> []), rToken = [], rQtype = t, rEDE = e\<rparr>"
  have P: "ParseReport lib (dotted (report_labels t ns e @ agent)) (dotted agent) (dotted zone) =
      (if \<exists>ss. ns = ss @ zone
       then (case ParseQuery (trim_suffix (trim_suffix (dotted ns) (dotted zone)) ''.'') of
               Some q \<Rightarrow> Inr (r\<lparr>rToken := Token q\<rparr>) | None \<Rightarrow> Inr r)
       else Inr r)"
    using lp(1) [OF full] lp(1) [OF assms(4)] lp(1) [OF assms(5)] sub zsub
      dotted_not_root [OF assms(4)] dotted_not_root [OF assms(5)]
      parseReportLabels_report [OF assms(1,2,3), of t e agent]
    by (auto simp: ParseReport_def Let_def r_def split: option.split)
  have tok: "ParseQuery (trim_suffix (trim_suffix (dotted ns) (dotted zone)) ''.'') = Some q"
    if "ns = split_on (CHR ''.'') (Sub q) @ zone" "Query_Validate q = None" for q
    using that by (simp add: trim_dotted ParseQuery_Sub)
  show ?thesis
  proof (cases "\<exists>ss. ns = ss @ zone")
    case True
    then show ?thesis
      using P tok by (cases "ParseQuery (trim_suffix (trim_suffix (dotted ns) (dotted zone)) ''.'')") (auto simp: r_def)
  next
    case False
    then show ?thesis using P by (auto simp: r_def)
  qed
qed

text \<open>A concrete library for names without escapes, which has the documented behaviour.\<close>

definition plain_dns :: probe_dns where
  "plain_dns =
     \<lparr>pCanonicalName = lower_ascii,
      pIsSubDomain = (\<lambda>a c.
        let as = map lower_ascii (butlast (split_on (CHR ''.'') a));
            cs = map lower_ascii (butlast (split_on (CHR ''.'') c)) in
        length as \<le> length cs \<and> drop (length cs - length as) cs = as),
      pSplitDomainName = split_on (CHR ''.''), pFqdn = (\<lambda>s. s @ ''.''),
      pCountLabel = (\<lambda>s. length (butlast (split_on (CHR ''.'') s))),
      pTypeToString = (\<lambda>_. None), pEDEToString = (\<lambda>_. None)\<rparr>"

lemma split_dotted: "list_all label_ok ls \<Longrightarrow> split_on (CHR ''.'') (dotted ls) = ls @ [[]]"
  by (induction ls) (auto simp: label_ok_def split_append_sep)

lemma suffix_drop: "(length as \<le> length cs \<and> drop (length cs - length as) cs = as) \<longleftrightarrow> (\<exists>bs. cs = bs @ as)"
  by (metis append_take_drop_id diff_diff_cancel drop_append_eq le_add2 length_append length_drop add_diff_cancel_right')

lemma plain_dns_ok: "probe_dns_ok plain_dns"
  unfolding probe_dns_ok_def
proof (intro allI impI conjI, goal_cases)
  case (2 ls)
  then show ?case
    using split_join [of ls "CHR ''.''"] by (auto simp: plain_dns_def label_ok_def list_all_iff)
next
  case (4 ls as)
  then show ?case by (simp add: plain_dns_def Let_def split_dotted suffix_drop)
qed (simp_all add: plain_dns_def dotted_join)

theorem error_report_round_trip_witness:
  "\<exists>r. ParseReport plain_dns ''_er.1._badsig.deadbeef.check.test.7._er.agent.test.'' ''agent.test.'' ''check.test.'' = Inr r \<and>
      rQtype r = 1 \<and> rEDE r = 7 \<and> rToken r = ''deadbeef''"
proof -
  let ?q = "\<lparr>Token = ''deadbeef'', Mods = ModBadSig\<rparr>"
  let ?ns = "[''_badsig'', ''deadbeef'', ''check'', ''test'']"
  have q: "Query_Validate ?q = None" "Sub ?q = ''_badsig.deadbeef''" by code_simp+
  have p: "plain_name ?ns" "plain_name [''agent'', ''test'']" "plain_name [''check'', ''test'']"
    by (simp_all add: plain_name_def label_ok_def lower_ascii_def lower_char_def is_upper_def)
  have n: "dotted (report_labels 1 ?ns 7 @ [''agent'', ''test'']) =
      ''_er.1._badsig.deadbeef.check.test.7._er.agent.test.''"
    by (simp add: report_labels_def itoa.simps hex_digit_def char_of_def bit_0)
  have s: "?ns = split_on (CHR ''.'') (Sub ?q) @ [''check'', ''test'']" unfolding q(2) by simp
  obtain r where r: "ParseReport plain_dns (dotted (report_labels 1 ?ns 7 @ [''agent'', ''test'']))
      (dotted [''agent'', ''test'']) (dotted [''check'', ''test'']) = Inr r" "rQtype r = 1" "rEDE r = 7"
    "\<forall>q. ?ns = split_on (CHR ''.'') (Sub q) @ [''check'', ''test''] \<and> Query_Validate q = None \<longrightarrow> rToken r = Token q"
    using error_report_round_trip [OF plain_dns_ok p(1) _ p(2,3), of 1 7] by auto
  have "rToken r = ''deadbeef''" using r(4) [rule_format, OF conjI, OF s q(1)] by simp
  then show ?thesis using r(1,2,3) unfolding n by auto
qed

end
