(* ===== verification/Probe_Sign.thy ===== *)
theory Probe_Sign
  imports Probe_Report
begin

text \<open>
  Signing in the \<open>probe\<close> plugin (\<open>sign.go\<close>): the RRSIG a query gets, with the deliberate deviations its modifiers ask
  for. The private key is the parameter \<open>sign_bytes\<close>: what \<open>RRSIG.Sign\<close> puts into the signature field for a filled-in
  RRSIG and an RRset, or a failure. Times are nanoseconds since year 1, as in the observation store.
\<close>

section \<open>Operations\<close>

record Signer =
  sKey :: rr
  sAlgorithm :: byte
  sOwner :: string
  sValidity :: int
  sKeyTag :: u16

definition defaultSigValidity :: int where "defaultSigValidity = 3600 * 1000000000"

text \<open>\<open>time.Time.Unix\<close>: seconds since 1970.\<close>

definition time_Unix :: "int \<Rightarrow> int" where
  "time_Unix t = t div 1000000000 - 62135596800"

datatype sign_error = TooManyLabels | PredatesEpoch | SignFailed

definition rrsigLabelCount :: "probe_dns \<Rightarrow> string \<Rightarrow> sign_error + byte" where
  "rrsigLabelCount lib name =
     (let n = pCountLabel lib name in if n > 255 then Inl TooManyLabels else Inr (of_nat n))"

definition rrsigYear68 :: int where "rrsigYear68 = 2 ^ 31"

definition rrsigTime :: "int \<Rightarrow> sign_error + u32" where
  "rrsigTime t =
     (let unix = time_Unix t in
      if unix < 0 then Inl PredatesEpoch
      else let md = max (unix div rrsigYear68 - 1) 0 in Inr (of_int (unix - md * rrsigYear68)))"

definition trim_right :: "char \<Rightarrow> string \<Rightarrow> string" where
  "trim_right c s = rev (dropWhile (\<lambda>x. x = c) (rev s))"

definition corruptSignature :: "string \<Rightarrow> string" where
  "corruptSignature sig =
     (if sig = [] then sig
      else
        let trimmed = trim_right (CHR ''='') sig in
        if trimmed = [] then sig
        else let i = length trimmed div 2 in
          sig[i := (if sig ! i = CHR ''A'' then CHR ''B'' else CHR ''A'')])"

text \<open>The validity window the modifiers select.\<close>

definition sig_window :: "int \<Rightarrow> Modifier \<Rightarrow> int \<Rightarrow> int \<times> int" where
  "sig_window validity mods now =
     (if Has mods ModExpiredSig then (now - validity - validity, now - validity)
      else if Has mods ModFutureSig then (now + validity, now + validity + validity)
      else (now - validity, now + validity))"

definition signRRset ::
  "probe_dns \<Rightarrow> (rrsig_data \<Rightarrow> rr list \<Rightarrow> string option) \<Rightarrow> Signer \<Rightarrow> int \<Rightarrow> rr list \<Rightarrow> Modifier \<Rightarrow> sign_error + rr option" where
  "signRRset lib sign_bytes s now rrs mods =
     (if rrs = [] then Inr None
      else if Has mods ModUnsigned then Inr None
      else
        let (inception, expiration) = sig_window (sValidity s) mods now;
            hdr = rrs ! 0 in
        case rrsigLabelCount lib (Name hdr) of
          Inl e \<Rightarrow> Inl e
        | Inr labels \<Rightarrow>
            (case rrsigTime inception of
               Inl e \<Rightarrow> Inl e
             | Inr incept \<Rightarrow>
                 (case rrsigTime expiration of
                    Inl e \<Rightarrow> Inl e
                  | Inr expire \<Rightarrow>
                      let sig = \<lparr>TypeCovered = Rrtype hdr, Algorithm = sAlgorithm s, Labels = labels, OrigTtl = Ttl hdr,
                                 Expiration = expire, Inception = incept, SigKeyTag = sKeyTag s, SignerName = sOwner s,
                                 Signature = []\<rparr> in
                      (case sign_bytes sig rrs of
                         None \<Rightarrow> Inl SignFailed
                       | Some b \<Rightarrow>
                           let sig = sig\<lparr>Signature := (if Has mods ModBadSig then corruptSignature b else b)\<rparr> in
                           Inr (Some \<lparr>Name = Name hdr, Rrtype = TypeRRSIG, Class = ClassINET, Ttl = Ttl hdr, Rdlength = 0,
                                      Rdata = RRSIG_rr sig\<rparr>)))))"

section \<open>Times\<close>

text \<open>
  The field's value, exactly: the time itself up to \<open>2 ^ 32\<close> seconds, and a value that runs through the upper half again
  and again afterwards.
\<close>

lemma rrsigTime_value:
  assumes "0 \<le> time_Unix t"
  shows "\<exists>w. rrsigTime t = Inr w \<and>
    uint w = (if time_Unix t < 2 ^ 31 then time_Unix t else 2 ^ 31 + time_Unix t mod 2 ^ 31)"
proof -
  define u where "u = time_Unix t"
  define q r where "q = u div 2 ^ 31" and "r = u mod 2 ^ 31"
  have u: "u = 2 ^ 31 * q + r" by (simp add: q_def r_def)
  have r: "0 \<le> r" "r < 2 ^ 31" by (simp_all add: r_def)
  have q: "0 \<le> q" using assms by (simp add: q_def u_def pos_imp_zdiv_nonneg_iff)
  have "u < 2 ^ 31 \<longleftrightarrow> q = 0"
  proof
    show "q = 0" if "u < 2 ^ 31" using that assms by (simp add: q_def u_def)
    show "u < 2 ^ 31" if "q = 0" using that u r by simp
  qed
  moreover have "u - max (q - 1) 0 * 2 ^ 31 = (if q = 0 then r else 2 ^ 31 + r)"
    using q u by (auto simp: max_def algebra_simps)
  moreover have "uint (of_int (if q = 0 then r else 2 ^ 31 + r) :: u32) = (if q = 0 then r else 2 ^ 31 + r)"
    using r by (simp add: uint_word_of_int)
  moreover have "q = 0 \<Longrightarrow> u = r" using u by simp
  ultimately show ?thesis
    using assms unfolding rrsigTime_def rrsigYear68_def u_def [symmetric] q_def [symmetric] r_def [symmetric] Let_def
    by (auto simp: not_less)
qed

lemma rrsigTime_this_era:
  assumes "rrsigTime t = Inr w" and "time_Unix t < 2 ^ 32"
  shows "uint w = time_Unix t"
proof -
  have u: "0 \<le> time_Unix t" using assms(1) by (auto simp: rrsigTime_def Let_def split: if_splits)
  show ?thesis
  proof (cases "time_Unix t < 2 ^ 31")
    case True
    then show ?thesis using rrsigTime_value [OF u] assms(1) by auto
  next
    case False
    then have "time_Unix t mod 2 ^ 31 = time_Unix t - 2 ^ 31"
      using assms(2) mod_pos_pos_trivial [of "time_Unix t - 2 ^ 31" "2 ^ 31"] by simp
    then show ?thesis using rrsigTime_value [OF u] assms(1) False by auto
  qed
qed

lemma time_Unix_mono: "t \<le> t' \<Longrightarrow> time_Unix t \<le> time_Unix t'"
  by (simp add: time_Unix_def zdiv_mono1)

lemma time_Unix_second: "t + 1000000000 \<le> t' \<Longrightarrow> time_Unix t < time_Unix t'"
  using zdiv_mono1 [of "t + 1000000000" t' 1000000000] by (simp add: time_Unix_def)

section \<open>Corruption\<close>

lemma trim_right_length: "length (trim_right c s) \<le> length s"
  using length_dropWhile_le [of "\<lambda>x. x = c" "rev s"] by (simp add: trim_right_def)

text \<open>One character before the padding changes, to another letter of the base64 alphabet.\<close>

lemma corruptSignature_spec:
  assumes "trim_right (CHR ''='') sig \<noteq> []"
  shows "\<exists>i c. i < length (trim_right (CHR ''='') sig) \<and> c \<in> {CHR ''A'', CHR ''B''} \<and> c \<noteq> sig ! i \<and>
    corruptSignature sig = sig[i := c]"
proof -
  let ?i = "length (trim_right (CHR ''='') sig) div 2"
  let ?c = "if sig ! ?i = CHR ''A'' then CHR ''B'' else CHR ''A''"
  have "sig \<noteq> []" using assms by (auto simp: trim_right_def)
  then have "corruptSignature sig = sig[?i := ?c]" using assms by (simp add: corruptSignature_def Let_def)
  moreover have "?i < length (trim_right (CHR ''='') sig)" using assms by (cases "trim_right (CHR ''='') sig") auto
  moreover have "?c \<in> {CHR ''A'', CHR ''B''}" "?c \<noteq> sig ! ?i" by auto
  ultimately show ?thesis by blast
qed

lemma corruptSignature_differs:
  assumes "trim_right (CHR ''='') sig \<noteq> []"
  shows "corruptSignature sig \<noteq> sig \<and> length (corruptSignature sig) = length sig"
proof -
  obtain i c where "i < length (trim_right (CHR ''='') sig)" "c \<noteq> sig ! i" "corruptSignature sig = sig[i := c]"
    using corruptSignature_spec [OF assms] by blast
  then show ?thesis using trim_right_length [of "CHR ''=''" sig]
    by (metis length_list_update nth_list_update_eq order_less_le_trans)
qed

section \<open>Signatures\<close>

lemma signRRset_ok:
  assumes "signRRset lib sb s now rrs mods = Inr (Some x)"
  obtains w1 w2 b lb where "\<not> Has mods ModUnsigned" "rrs \<noteq> []"
    "rrsigTime (fst (sig_window (sValidity s) mods now)) = Inr w1"
    "rrsigTime (snd (sig_window (sValidity s) mods now)) = Inr w2"
    "Rdata x = RRSIG_rr \<lparr>TypeCovered = Rrtype (rrs ! 0), Algorithm = sAlgorithm s, Labels = lb, OrigTtl = Ttl (rrs ! 0),
       Expiration = w2, Inception = w1, SigKeyTag = sKeyTag s, SignerName = sOwner s,
       Signature = (if Has mods ModBadSig then corruptSignature b else b)\<rparr>"
    "sb \<lparr>TypeCovered = Rrtype (rrs ! 0), Algorithm = sAlgorithm s, Labels = lb, OrigTtl = Ttl (rrs ! 0),
       Expiration = w2, Inception = w1, SigKeyTag = sKeyTag s, SignerName = sOwner s, Signature = []\<rparr> rrs = Some b"
    "Name x = Name (rrs ! 0)" "Rrtype x = TypeRRSIG"
  using assms
  by (auto simp: signRRset_def Let_def case_prod_unfold split: if_splits sum.splits option.splits)

text \<open>The window of a signature in whole seconds, while the times fit 32 bits.\<close>

lemma signed_window:
  assumes "signRRset lib sign_bytes s now rrs mods = Inr (Some x)" and "0 \<le> sValidity s"
    and "time_Unix (now + 2 * sValidity s) < 2 ^ 32"
  shows "\<exists>sig b. Rdata x = RRSIG_rr sig \<and> sign_bytes (sig\<lparr>Signature := []\<rparr>) rrs = Some b \<and> \<not> Has mods ModUnsigned \<and>
    uint (Inception sig) = time_Unix (fst (sig_window (sValidity s) mods now)) \<and>
    uint (Expiration sig) = time_Unix (snd (sig_window (sValidity s) mods now)) \<and>
    Signature sig = (if Has mods ModBadSig then corruptSignature b else b)"
proof -
  from assms(1) obtain w1 w2 b lb where x: "\<not> Has mods ModUnsigned"
    "rrsigTime (fst (sig_window (sValidity s) mods now)) = Inr w1"
    "rrsigTime (snd (sig_window (sValidity s) mods now)) = Inr w2"
    "Rdata x = RRSIG_rr \<lparr>TypeCovered = Rrtype (rrs ! 0), Algorithm = sAlgorithm s, Labels = lb, OrigTtl = Ttl (rrs ! 0),
       Expiration = w2, Inception = w1, SigKeyTag = sKeyTag s, SignerName = sOwner s,
       Signature = (if Has mods ModBadSig then corruptSignature b else b)\<rparr>"
    "sign_bytes \<lparr>TypeCovered = Rrtype (rrs ! 0), Algorithm = sAlgorithm s, Labels = lb, OrigTtl = Ttl (rrs ! 0),
       Expiration = w2, Inception = w1, SigKeyTag = sKeyTag s, SignerName = sOwner s, Signature = []\<rparr> rrs = Some b"
    by (rule signRRset_ok)
  let ?i = "fst (sig_window (sValidity s) mods now)" and ?e = "snd (sig_window (sValidity s) mods now)"
  have "?e \<le> now + 2 * sValidity s" "?i \<le> now + 2 * sValidity s" using assms(2) by (auto simp: sig_window_def)
  then have "time_Unix ?e < 2 ^ 32" "time_Unix ?i < 2 ^ 32" using time_Unix_mono assms(3) by (meson order_le_less_trans)+
  then have w: "uint w1 = time_Unix ?i" "uint w2 = time_Unix ?e"
    using rrsigTime_this_era [OF x(2)] rrsigTime_this_era [OF x(3)] by simp_all
  show ?thesis using x w by (intro exI [of _ b] exI conjI) auto
qed

text \<open>
  C23: each deviation spoils exactly what it names. While the times fit 32 bits and the configured validity is a second or more, a signed answer has a window
  around the clock unless an expired or future signature was asked for; an expired one ended before the clock and a future
  one begins after it; the signature is the key's own, with a character changed before the padding exactly for a bad
  signature; and an unsigned answer has none.
\<close>

theorem signature_deviations:
  assumes "signRRset lib sign_bytes s now rrs mods = Inr (Some x)" and "1000000000 \<le> sValidity s"
    and "time_Unix (now + 2 * sValidity s) < 2 ^ 32"
  shows "\<exists>sig b. Rdata x = RRSIG_rr sig \<and> sign_bytes (sig\<lparr>Signature := []\<rparr>) rrs = Some b \<and>
    (if Has mods ModExpiredSig then uint (Expiration sig) < time_Unix now
     else if Has mods ModFutureSig then time_Unix now < uint (Inception sig)
     else uint (Inception sig) < time_Unix now \<and> time_Unix now < uint (Expiration sig)) \<and>
    uint (Inception sig) < uint (Expiration sig) \<and> \<not> Has mods ModUnsigned \<and>
    Signature sig = (if Has mods ModBadSig then corruptSignature b else b) \<and>
    (Has mods ModBadSig \<and> trim_right (CHR ''='') b \<noteq> [] \<longrightarrow> Signature sig \<noteq> b \<and> length (Signature sig) = length b)"
proof -
  let ?i = "fst (sig_window (sValidity s) mods now)" and ?e = "snd (sig_window (sValidity s) mods now)"
  have v: "0 \<le> sValidity s" using assms(2) by simp
  obtain sig b where x: "Rdata x = RRSIG_rr sig" "sign_bytes (sig\<lparr>Signature := []\<rparr>) rrs = Some b" "\<not> Has mods ModUnsigned"
    "uint (Inception sig) = time_Unix ?i" "uint (Expiration sig) = time_Unix ?e"
    "Signature sig = (if Has mods ModBadSig then corruptSignature b else b)"
    using signed_window [OF assms(1) v assms(3)] by blast
  have "?i + 1000000000 \<le> ?e" using assms(2) by (auto simp: sig_window_def)
  then have "uint (Inception sig) < uint (Expiration sig)" using x(4,5) time_Unix_second by simp
  moreover have "if Has mods ModExpiredSig then uint (Expiration sig) < time_Unix now
     else if Has mods ModFutureSig then time_Unix now < uint (Inception sig)
     else uint (Inception sig) < time_Unix now \<and> time_Unix now < uint (Expiration sig)"
    using assms(2) by (auto simp: x(4,5) sig_window_def intro: time_Unix_second)
  ultimately show ?thesis using x corruptSignature_differs [of b] by (intro exI [of _ sig] exI [of _ b]) auto
qed

text \<open>An expired and corrupted signature over an address record, made in November 2023.\<close>

lemma signature_deviations_witness:
  "let now = (62135596800 + 1700000000) * 1000000000;
       a = \<lparr>Name = ''t.example.'', Rrtype = TypeA, Class = ClassINET, Ttl = 5, Rdlength = 0, Rdata = A_rr [192, 0, 2, 1]\<rparr>;
       s = \<lparr>sKey = a, sAlgorithm = 13, sOwner = ''example.'', sValidity = 3600 * 1000000000, sKeyTag = 7\<rparr> in
   \<exists>x sig. signRRset plain_dns (\<lambda>_ _. Some ''QUJD'') s now [a] (ModExpiredSig OR ModBadSig) = Inr (Some x) \<and>
     Rdata x = RRSIG_rr sig \<and> uint (Expiration sig) < time_Unix now \<and> Signature sig \<noteq> ''QUJD''"
proof -
  define now :: int where "now = (62135596800 + 1700000000) * 1000000000"
  define a where "a = \<lparr>Name = ''t.example.'', Rrtype = TypeA, Class = ClassINET, Ttl = 5, Rdlength = 0,
    Rdata = A_rr [192, 0, 2, 1]\<rparr>"
  define s where "s = \<lparr>sKey = a, sAlgorithm = 13, sOwner = ''example.'', sValidity = 3600 * 1000000000, sKeyTag = 7\<rparr>"
  have m: "Has (ModExpiredSig OR ModBadSig) ModExpiredSig" "Has (ModExpiredSig OR ModBadSig) ModBadSig" by code_simp+
  let ?r = "signRRset plain_dns (\<lambda>_ _. Some ''QUJD'') s now [a] (ModExpiredSig OR ModBadSig)"
  have "case ?r of Inr (Some _) \<Rightarrow> True | _ \<Rightarrow> False"
    unfolding now_def s_def a_def by code_simp
  then obtain x where x: "?r = Inr (Some x)" by (auto split: sum.splits option.splits)
  have t: "trim_right (CHR ''='') ''QUJD'' \<noteq> []" by code_simp
  have "1000000000 \<le> sValidity s" "time_Unix (now + 2 * sValidity s) < 2 ^ 32"
    by (simp_all add: s_def now_def time_Unix_def)
  from signature_deviations [OF x this] t m x show ?thesis
    by (auto simp: now_def s_def a_def)
qed

end
