(* ===== verification/Probe_Store.thy ===== *)
theory Probe_Store
  imports Probe_Report "HOL-Library.Multiset"
begin

text \<open>
  The in-process observation store of the \<open>probe\<close> plugin (\<open>observe.go\<close>): two maps from tokens to entries, each
  with a queue of the live entries in first-seen order from which expiry pops. Times are nanoseconds, the zero time is
  0; every method takes the clock reading it may make as an argument, and the mutex makes each method one step.
\<close>

section \<open>Queues\<close>

text \<open>
  An entry is a heap object: \<open>eAddr\<close> is its address, which the identity test \<open>s.entries[e.token] == e\<close> compares. The
  queue holds the pointers; all it reads of an entry is the part that never changes, its \<open>expiry\<close>.
\<close>

record expiry =
  eAddr :: nat
  eFirst :: int
  eToken :: string

record 'a memEntry = expiry +
  eItems :: "'a list"

text \<open>\<open>time.Time.Sub\<close> saturates at the limits of a \<open>Duration\<close>.\<close>

definition time_Sub :: "int \<Rightarrow> int \<Rightarrow> int" where
  "time_Sub t u = max (- (2 ^ 63)) (min (2 ^ 63 - 1) (t - u))"

text \<open>\<open>sort.Search\<close>: binary search for the least index whose predicate holds.\<close>

function bisect :: "(nat \<Rightarrow> bool) \<Rightarrow> nat \<Rightarrow> nat \<Rightarrow> nat" where
  "bisect f i j =
     (if i < j then let h = (i + j) div 2 in if \<not> f h then bisect f (h + 1) j else bisect f i h else i)"
  by pat_completeness auto

termination bisect
  by (relation "measure (\<lambda>(_, i, j). j - i)") auto

declare bisect.simps [simp del]

definition sort_Search :: "nat \<Rightarrow> (nat \<Rightarrow> bool) \<Rightarrow> nat" where
  "sort_Search n f = bisect f 0 n"

definition queue_push :: "expiry \<Rightarrow> expiry list \<Rightarrow> expiry list" where
  "queue_push e q =
     (let n = length q in
      if n > 0 \<and> eFirst e < eFirst (q ! (n - 1))
      then let i = sort_Search n (\<lambda>i. eFirst (q ! i) > eFirst e) in take i q @ [e] @ drop i q
      else q @ [e])"

text \<open>The scan of \<open>expire\<close>: the entries handed to \<open>drop\<close>, and the queue that is left.\<close>

fun queue_expire :: "int \<Rightarrow> int \<Rightarrow> expiry list \<Rightarrow> expiry list \<times> expiry list" where
  "queue_expire now ttl [] = ([], [])"
| "queue_expire now ttl (e # q) =
     (if time_Sub now (eFirst e) > ttl
      then let (gone, rest) = queue_expire now ttl q in (e # gone, rest)
      else ([], e # q))"

section \<open>The store\<close>

text \<open>A map with its queue: \<open>entries\<close> and \<open>order\<close>, or \<open>reports\<close> and \<open>reportOrder\<close>.\<close>

record 'a shelf =
  Items :: "(string \<times> 'a memEntry) list"
  Order :: "expiry list"

record MemStore =
  Entries :: "Observation shelf"
  Reports :: "ReportRecord shelf"
  s_TTL :: int
  MaxTokens :: int
  MaxPerToken :: int
  NextAddr :: nat

datatype store_error = ErrStoreFull

definition maxUnattributedReports :: int where "maxUnattributedReports = 256"
definition defaultStoreTTL :: int where "defaultStoreTTL = 10 * 60 * 1000000000"
definition defaultMaxTokens :: int where "defaultMaxTokens = 10000"
definition defaultMaxPerToken :: int where "defaultMaxPerToken = 64"

definition empty_shelf :: "'a shelf" where
  "empty_shelf = \<lparr>Items = [], Order = []\<rparr>"

definition NewMemStore :: "int \<Rightarrow> int \<Rightarrow> int \<Rightarrow> MemStore" where
  "NewMemStore ttl maxTokens maxPerToken =
     \<lparr>Entries = empty_shelf, Reports = empty_shelf,
      s_TTL = (if ttl \<le> 0 then defaultStoreTTL else ttl),
      MaxTokens = (if maxTokens \<le> 0 then defaultMaxTokens else maxTokens),
      MaxPerToken = (if maxPerToken \<le> 0 then defaultMaxPerToken else maxPerToken),
      NextAddr = 0\<rparr>"

text \<open>The callback of \<open>expireLocked\<close>: the map is cleared only of the very entry that was popped.\<close>

definition drop_entry :: "expiry \<Rightarrow> (string \<times> 'a memEntry) list \<Rightarrow> (string \<times> 'a memEntry) list" where
  "drop_entry e m =
     (case map_of m (eToken e) of
        Some x \<Rightarrow> if eAddr x = eAddr e then filter (\<lambda>(k, _). k \<noteq> eToken e) m else m
      | None \<Rightarrow> m)"

definition expire_shelf :: "int \<Rightarrow> int \<Rightarrow> 'a shelf \<Rightarrow> 'a shelf" where
  "expire_shelf now ttl sh =
     (let (gone, rest) = queue_expire now ttl (Order sh) in
      \<lparr>Items = fold drop_entry gone (Items sh), Order = rest\<rparr>)"

definition expireLocked :: "int \<Rightarrow> MemStore \<Rightarrow> MemStore" where
  "expireLocked now s =
     s\<lparr>Entries := expire_shelf now (s_TTL s) (Entries s), Reports := expire_shelf now (s_TTL s) (Reports s)\<rparr>"

text \<open>A new entry goes into the map and the queue; \<open>append\<close> writes through the pointer the map holds.\<close>

definition shelf_add :: "nat \<Rightarrow> int \<Rightarrow> string \<Rightarrow> 'a shelf \<Rightarrow> 'a shelf" where
  "shelf_add a now token sh =
     \<lparr>Items = (token, \<lparr>eAddr = a, eFirst = now, eToken = token, eItems = []\<rparr>) # Items sh,
      Order = queue_push \<lparr>eAddr = a, eFirst = now, eToken = token\<rparr> (Order sh)\<rparr>"

definition shelf_append :: "string \<Rightarrow> 'a \<Rightarrow> 'a shelf \<Rightarrow> 'a shelf" where
  "shelf_append token x sh =
     sh\<lparr>Items := map (\<lambda>(k, e). (k, if k = token then e\<lparr>eItems := eItems e @ [x]\<rparr> else e)) (Items sh)\<rparr>"

definition shelf_items :: "string \<Rightarrow> 'a shelf \<Rightarrow> 'a list" where
  "shelf_items token sh = (case map_of (Items sh) token of Some e \<Rightarrow> eItems e | None \<Rightarrow> [])"

definition Record :: "int \<Rightarrow> Observation \<Rightarrow> MemStore \<Rightarrow> MemStore \<times> Observation \<times> store_error option" where
  "Record clock obs0 s0 =
     (let now = (if oAt obs0 = 0 then clock else oAt obs0);
          obs = obs0\<lparr>oAt := now\<rparr>;
          s = expireLocked now s0;
          token = oToken obs in
      if map_of (Items (Entries s)) token = None \<and> int (length (Items (Entries s))) \<ge> MaxTokens s
      then (s, obs\<lparr>oSeen := 1\<rparr>, Some ErrStoreFull)
      else
        let s = (if map_of (Items (Entries s)) token = None
                 then s\<lparr>Entries := shelf_add (NextAddr s) now token (Entries s), NextAddr := NextAddr s + 1\<rparr> else s);
            n = length (shelf_items token (Entries s));
            obs = obs\<lparr>oSeen := n + 1\<rparr> in
        if int n \<ge> MaxPerToken s then (s, obs, None)
        else (s\<lparr>Entries := shelf_append token obs (Entries s)\<rparr>, obs, None))"

definition Lookup :: "int \<Rightarrow> string \<Rightarrow> MemStore \<Rightarrow> MemStore \<times> Observation list" where
  "Lookup clock token s0 = (let s = expireLocked clock s0 in (s, shelf_items token (Entries s)))"

definition RecordReport :: "int \<Rightarrow> ReportRecord \<Rightarrow> MemStore \<Rightarrow> MemStore \<times> store_error option" where
  "RecordReport clock rec0 s0 =
     (let now = (if rrAt rec0 = 0 then clock else rrAt rec0);
          rec = rec0\<lparr>rrAt := now\<rparr>;
          s = expireLocked now s0;
          token = rrToken rec;
          limit = (if token = [] then maxUnattributedReports else MaxPerToken s) in
      if map_of (Items (Reports s)) token = None \<and> int (length (Items (Reports s))) \<ge> MaxTokens s
      then (s, Some ErrStoreFull)
      else
        let s = (if map_of (Items (Reports s)) token = None
                 then s\<lparr>Reports := shelf_add (NextAddr s) now token (Reports s), NextAddr := NextAddr s + 1\<rparr> else s) in
        if int (length (shelf_items token (Reports s))) \<ge> limit then (s, Some ErrStoreFull)
        else (s\<lparr>Reports := shelf_append token rec (Reports s)\<rparr>, None))"

definition LookupReports :: "int \<Rightarrow> string \<Rightarrow> MemStore \<Rightarrow> MemStore \<times> ReportRecord list" where
  "LookupReports clock token s0 = (let s = expireLocked clock s0 in (s, shelf_items token (Reports s)))"

definition Len :: "int \<Rightarrow> MemStore \<Rightarrow> MemStore \<times> nat" where
  "Len clock s0 = (let s = expireLocked clock s0 in (s, length (Items (Entries s))))"

section \<open>The queue\<close>

lemma time_Sub_mono: "t \<le> t' \<Longrightarrow> time_Sub t u \<le> time_Sub t' u"
  and time_Sub_antimono: "u \<le> u' \<Longrightarrow> time_Sub t u' \<le> time_Sub t u"
  by (auto simp: time_Sub_def)

lemma bisect_split:
  assumes "\<And>a b. a \<le> b \<Longrightarrow> b < n \<Longrightarrow> f a \<Longrightarrow> f b" and "i \<le> j" "j \<le> n"
    and "\<And>k. k < i \<Longrightarrow> \<not> f k" and "\<And>k. j \<le> k \<Longrightarrow> k < n \<Longrightarrow> f k"
  shows "bisect f i j \<le> n \<and> (\<forall>k < bisect f i j. \<not> f k) \<and> (\<forall>k. bisect f i j \<le> k \<and> k < n \<longrightarrow> f k)"
  using assms
proof (induction f i j rule: bisect.induct)
  case (1 f i j)
  show ?case
  proof (cases "i < j")
    case False
    then show ?thesis using 1(4-7) by (subst (1 2 3) bisect.simps) auto
  next
    case True
    let ?h = "(i + j) div 2"
    have h: "i \<le> ?h" "?h < j" using True by auto
    show ?thesis
    proof (cases "f ?h")
      case True
      have "bisect f i ?h \<le> n \<and> (\<forall>k < bisect f i ?h. \<not> f k) \<and> (\<forall>k. bisect f i ?h \<le> k \<and> k < n \<longrightarrow> f k)"
        using \<open>i < j\<close> True h 1(3-7) by (intro 1(2)) (auto intro: 1(3) [of ?h])
      then show ?thesis using True \<open>i < j\<close> by (subst (1 2 3) bisect.simps) (simp add: Let_def)
    next
      case False
      have "\<not> f k" if "k < ?h + 1" for k using False 1(3) [of k ?h] h(2) 1(5) that by auto
      then have "bisect f (?h + 1) j \<le> n \<and> (\<forall>k < bisect f (?h + 1) j. \<not> f k) \<and>
          (\<forall>k. bisect f (?h + 1) j \<le> k \<and> k < n \<longrightarrow> f k)"
        using \<open>i < j\<close> False h 1(3-7) by (intro 1(1)) auto
      then show ?thesis using False \<open>i < j\<close> by (subst (1 2 3) bisect.simps) (simp add: Let_def)
    qed
  qed
qed

definition first_sorted :: "expiry list \<Rightarrow> bool" where
  "first_sorted q \<longleftrightarrow> sorted (map eFirst q)"

lemma mset_queue_push [simp]: "mset (queue_push e q) = add_mset e (mset q)"
proof -
  have "mset (take i q @ [e] @ drop i q) = add_mset e (mset q)" for i
    using mset_append [of "take i q" "drop i q"] by simp
  then show ?thesis by (simp add: queue_push_def Let_def)
qed

lemma queue_push_sorted:
  assumes "first_sorted q"
  shows "first_sorted (queue_push e q)"
proof (cases "length q > 0 \<and> eFirst e < eFirst (q ! (length q - 1))")
  case False
  have "eFirst x \<le> eFirst e" if "x \<in> set q" for x
  proof -
    obtain i where i: "i < length q" "x = q ! i" using \<open>x \<in> set q\<close> by (metis in_set_conv_nth)
    have "map eFirst q ! i \<le> map eFirst q ! (length q - 1)"
      using assms i(1) by (intro sorted_nth_mono) (auto simp: first_sorted_def)
    then have "eFirst (q ! i) \<le> eFirst (q ! (length q - 1))" using i(1) by (simp add: nth_map)
    moreover have "0 < length q" using i(1) by linarith
    ultimately show ?thesis using False i(2) by simp
  qed
  then show ?thesis using False assms by (auto simp: queue_push_def first_sorted_def sorted_append)
next
  case True
  let ?f = "\<lambda>i. eFirst (q ! i) > eFirst e"
  define i where "i = sort_Search (length q) ?f"
  have mono: "?f b" if "a \<le> b" "b < length q" "?f a" for a b
    using sorted_nth_mono [of "map eFirst q" a b] assms that by (auto simp: first_sorted_def)
  have sp: "i \<le> length q \<and> (\<forall>k < i. \<not> ?f k) \<and> (\<forall>k. i \<le> k \<and> k < length q \<longrightarrow> ?f k)"
    unfolding i_def sort_Search_def by (rule bisect_split) (use mono in auto)
  have "\<forall>x\<in>set (take i q). eFirst x \<le> eFirst e" using sp by (auto simp: in_set_conv_nth not_less)
  moreover have "eFirst e < eFirst (drop i q ! k)" if "k < length (drop i q)" for k using sp that by simp
  then have "\<forall>x\<in>set (drop i q). eFirst e \<le> eFirst x" by (metis in_set_conv_nth less_imp_le)
  moreover have "sorted (map eFirst (take i q))" "sorted (map eFirst (drop i q))"
    using assms by (simp_all add: first_sorted_def take_map [symmetric] drop_map [symmetric] sorted_wrt_take sorted_wrt_drop)
  moreover have "queue_push e q = take i q @ [e] @ drop i q"
    using True by (simp add: queue_push_def i_def Let_def)
  ultimately show ?thesis by (fastforce simp: first_sorted_def sorted_append)
qed

text \<open>On a sorted queue the scan that stops at the first live entry finds every expired one.\<close>

definition expired :: "int \<Rightarrow> int \<Rightarrow> int \<Rightarrow> bool" where
  "expired now ttl first \<longleftrightarrow> time_Sub now first > ttl"

lemma expired_mono: "now \<le> now' \<Longrightarrow> expired now ttl f \<Longrightarrow> expired now' ttl f"
  using time_Sub_mono [of now now' f] by (simp add: expired_def)

lemma queue_expire_sorted:
  assumes "first_sorted q"
  shows "queue_expire now ttl q =
    (filter (\<lambda>e. expired now ttl (eFirst e)) q, filter (\<lambda>e. \<not> expired now ttl (eFirst e)) q)"
  using assms
proof (induction q)
  case (Cons e q)
  then have s: "first_sorted q" and le: "\<forall>x\<in>set q. eFirst e \<le> eFirst x" by (auto simp: first_sorted_def)
  show ?case
  proof (cases "expired now ttl (eFirst e)")
    case True
    then show ?thesis using Cons.IH [OF s] by (simp add: expired_def)
  next
    case False
    then have "\<not> expired now ttl (eFirst x)" if "x \<in> set q" for x
      using le that time_Sub_antimono [of "eFirst e" "eFirst x" now] by (force simp: expired_def)
    then show ?thesis using False by (simp add: expired_def filter_empty_conv)
  qed
qed simp

section \<open>A shelf refines a map\<close>

text \<open>
  The abstract value of a shelf is a map from tokens to the first-seen time and the items; expiry is a sweep over the
  whole map. The invariant ties the queue to the map: they hold the same entries.
\<close>

type_synonym 'a tokens = "string \<rightharpoonup> int \<times> 'a list"

definition age :: "('a, 'b) memEntry_scheme \<Rightarrow> expiry" where
  "age e = \<lparr>eAddr = eAddr e, eFirst = eFirst e, eToken = eToken e\<rparr>"

lemma age_sel [simp]: "eAddr (age e) = eAddr e" "eFirst (age e) = eFirst e" "eToken (age e) = eToken e"
  by (simp_all add: age_def)

definition shelf_inv :: "'a shelf \<Rightarrow> bool" where
  "shelf_inv sh \<longleftrightarrow>
     distinct (map fst (Items sh)) \<and> (\<forall>(k, e)\<in>set (Items sh). eToken e = k) \<and>
     first_sorted (Order sh) \<and> mset (Order sh) = mset (map (age \<circ> snd) (Items sh))"

definition shelf_abs :: "'a shelf \<Rightarrow> 'a tokens" where
  "shelf_abs sh t = map_option (\<lambda>e. (eFirst e, eItems e)) (map_of (Items sh) t)"

definition sweep :: "int \<Rightarrow> int \<Rightarrow> 'a tokens \<Rightarrow> 'a tokens" where
  "sweep now ttl m t = (case m t of Some (f, xs) \<Rightarrow> if expired now ttl f then None else Some (f, xs) | None \<Rightarrow> None)"

lemma sweep_mono: "now \<le> now' \<Longrightarrow> sweep now' ttl (sweep now ttl m) = sweep now' ttl m"
  using expired_mono by (auto simp: sweep_def fun_eq_iff split: option.splits)

lemma drop_entry_is_filter:
  assumes "distinct (map fst m)" and "\<forall>(k, e)\<in>set m. eToken e = k" and "x \<in> age ` snd ` set m"
  shows "drop_entry x m = filter (\<lambda>(k, _). k \<noteq> eToken x) m"
proof -
  obtain k e where e: "(k, e) \<in> set m" "x = age e" using assms(3) by auto
  then have k: "k = eToken x" using assms(2) by auto
  then have "map_of m (eToken x) = Some e" using assms(1) e(1) by simp
  then show ?thesis using e(2) by (simp add: drop_entry_def)
qed

text \<open>Dropping popped entries one by one filters the map by their tokens.\<close>

lemma fold_drop_entry:
  assumes "distinct (map fst m)" and "\<forall>(k, e)\<in>set m. eToken e = k"
    and "set gone \<subseteq> age ` snd ` set m" and "distinct (map eToken gone)"
  shows "fold drop_entry gone m = filter (\<lambda>(k, _). k \<notin> eToken ` set gone) m"
  using assms
proof (induction gone arbitrary: m)
  case (Cons x gone)
  let ?m = "filter (\<lambda>(k, _). k \<noteq> eToken x) m"
  have x: "drop_entry x m = ?m" using Cons.prems by (intro drop_entry_is_filter) auto
  have "set gone \<subseteq> age ` snd ` set ?m"
  proof
    fix y assume y: "y \<in> set gone"
    then obtain k e where e: "(k, e) \<in> set m" "y = age e" using Cons.prems(3) by auto
    moreover have "k = eToken y" using e Cons.prems(2) by auto
    moreover have "eToken y \<noteq> eToken x" using y Cons.prems(4) by (metis distinct.simps(2) image_eqI list.simps(9) set_map)
    ultimately show "y \<in> age ` snd ` set ?m" by force
  qed
  then have "fold drop_entry gone ?m = filter (\<lambda>(k, _). k \<notin> eToken ` set gone) ?m"
    using Cons.prems by (intro Cons.IH) (auto simp: distinct_map_filter)
  then show ?case by (simp add: x) (rule filter_cong, auto)
qed simp

lemma distinct_map_mset: "distinct (map f xs) \<Longrightarrow> mset ys = mset xs \<Longrightarrow> distinct (map f ys)"
  by (metis mset_eq_imp_distinct_iff mset_map)

lemma shelf_invD:
  assumes "shelf_inv sh"
  shows "set (Order sh) = age ` snd ` set (Items sh)" "distinct (map eToken (Order sh))"
proof -
  have m: "mset (Order sh) = mset (map (age \<circ> snd) (Items sh))" using assms by (simp add: shelf_inv_def)
  then show "set (Order sh) = age ` snd ` set (Items sh)" by (metis image_comp set_map set_mset_mset)
  have "map eToken (map (age \<circ> snd) (Items sh)) = map fst (Items sh)"
    using assms by (auto simp: shelf_inv_def)
  then have "distinct (map eToken (map (age \<circ> snd) (Items sh)))" using assms by (simp only: shelf_inv_def)
  then show "distinct (map eToken (Order sh))" using m by (rule distinct_map_mset)
qed

text \<open>Popping from the queue is the sweep.\<close>

lemma expire_shelf_eq:
  assumes "shelf_inv sh"
  shows "expire_shelf now ttl sh =
    \<lparr>Items = filter (\<lambda>(k, e). \<not> expired now ttl (eFirst e)) (Items sh),
     Order = filter (\<lambda>e. \<not> expired now ttl (eFirst e)) (Order sh)\<rparr>"
proof -
  have inv: "distinct (map fst (Items sh))" "\<forall>(k, e)\<in>set (Items sh). eToken e = k" "first_sorted (Order sh)"
    using assms by (simp_all add: shelf_inv_def)
  note D = shelf_invD [OF assms]
  let ?gone = "filter (\<lambda>e. expired now ttl (eFirst e)) (Order sh)"
  have "fold drop_entry ?gone (Items sh) = filter (\<lambda>(k, _). k \<notin> eToken ` set ?gone) (Items sh)"
    using inv(1,2) D by (intro fold_drop_entry) (auto simp: distinct_map_filter)
  also have "\<dots> = filter (\<lambda>(k, e). \<not> expired now ttl (eFirst e)) (Items sh)"
  proof (rule filter_cong [OF refl], clarify)
    fix k e assume e: "(k, e) \<in> set (Items sh)"
    have x: "x = age e" if x: "x \<in> set (Order sh)" "eToken x = k" for x
    proof -
      obtain k' e' where e': "(k', e') \<in> set (Items sh)" "x = age e'" using x(1) D(1) by auto
      then have "k' = k" using x(2) inv(2) by auto
      then have "e' = e" using e e'(1) inv(1) by (metis map_of_eq_Some_iff option.inject)
      then show ?thesis using e'(2) by simp
    qed
    have e': "age e \<in> set (Order sh)" "eToken (age e) = k" using e D(1) inv(2) by (metis image_eqI snd_conv) (use e inv(2) in auto)
    have "k \<in> eToken ` set ?gone \<longleftrightarrow> expired now ttl (eFirst e)"
    proof
      assume "k \<in> eToken ` set ?gone"
      then obtain y where "y \<in> set (Order sh)" "eToken y = k" "expired now ttl (eFirst y)" by auto
      then show "expired now ttl (eFirst e)" using x [of y] by simp
    next
      assume "expired now ttl (eFirst e)"
      then have "age e \<in> set ?gone" using e'(1) by simp
      then show "k \<in> eToken ` set ?gone" using e'(2) by (metis image_eqI)
    qed
    then show "(k \<notin> eToken ` set ?gone) = (\<not> expired now ttl (eFirst e))" by blast
  qed
  finally show ?thesis by (simp add: expire_shelf_def queue_expire_sorted [OF inv(3)])
qed

lemma map_of_filter_values:
  "distinct (map fst m) \<Longrightarrow>
   map_of (filter (\<lambda>(k, e). P e) m) t = (case map_of m t of Some e \<Rightarrow> if P e then Some e else None | None \<Rightarrow> None)"
  by (induction m) (auto split: option.splits simp: map_of_eq_None_iff image_iff)

lemma expire_shelf_abs: "shelf_inv sh \<Longrightarrow> shelf_abs (expire_shelf now ttl sh) = sweep now ttl (shelf_abs sh)"
  by (auto simp: expire_shelf_eq shelf_abs_def sweep_def fun_eq_iff shelf_inv_def
      map_of_filter_values [where P = "\<lambda>e. \<not> expired now ttl (eFirst e)"] split: option.splits)

lemma expire_shelf_inv: "shelf_inv sh \<Longrightarrow> shelf_inv (expire_shelf now ttl sh)"
proof -
  assume inv: "shelf_inv sh"
  have "mset (filter (\<lambda>e. \<not> expired now ttl (eFirst e)) (Order sh)) =
      filter_mset (\<lambda>e. \<not> expired now ttl (eFirst e)) (mset (map (age \<circ> snd) (Items sh)))"
    using inv by (simp add: shelf_inv_def)
  also have "\<dots> = mset (map (age \<circ> snd) (filter (\<lambda>(k, e). \<not> expired now ttl (eFirst e)) (Items sh)))"
    by (simp only: mset_filter [symmetric] filter_map) (simp add: comp_def case_prod_unfold)
  finally show ?thesis
    using inv by (auto simp: expire_shelf_eq [OF inv] shelf_inv_def distinct_map_filter first_sorted_def sorted_filter)
qed

section \<open>Recording on a shelf\<close>

text \<open>
  The part \<open>Record\<close> and \<open>RecordReport\<close> share, on a swept shelf: refuse a new token when the shelf is full, otherwise make
  room for it and append the item, built from the number of items already there, unless the token is at its limit.
\<close>

definition shelf_put :: "int \<Rightarrow> int \<Rightarrow> nat \<Rightarrow> int \<Rightarrow> string \<Rightarrow> (nat \<Rightarrow> 'a) \<Rightarrow> 'a shelf \<Rightarrow> 'a shelf" where
  "shelf_put maxTokens limit a now t x sh =
     (if map_of (Items sh) t = None \<and> int (length (Items sh)) \<ge> maxTokens then sh
      else
        let sh = (if map_of (Items sh) t = None then shelf_add a now t sh else sh);
            n = length (shelf_items t sh) in
        if int n \<ge> limit then sh else shelf_append t (x n) sh)"

definition tokens_put :: "int \<Rightarrow> int \<Rightarrow> int \<Rightarrow> string \<Rightarrow> (nat \<Rightarrow> 'a) \<Rightarrow> 'a tokens \<Rightarrow> 'a tokens" where
  "tokens_put maxTokens limit now t x m =
     (if m t = None \<and> int (card (dom m)) \<ge> maxTokens then m
      else
        let (f, xs) = (case m t of Some e \<Rightarrow> e | None \<Rightarrow> (now, [])) in
        m(t \<mapsto> (f, if int (length xs) \<ge> limit then xs else xs @ [x (length xs)])))"

lemma shelf_abs_None: "shelf_abs sh t = None \<longleftrightarrow> map_of (Items sh) t = None"
  by (simp add: shelf_abs_def)

lemma shelf_items_abs: "shelf_items t sh = (case shelf_abs sh t of Some (f, xs) \<Rightarrow> xs | None \<Rightarrow> [])"
  by (simp add: shelf_items_def shelf_abs_def split: option.splits)

lemma length_Items: "shelf_inv sh \<Longrightarrow> length (Items sh) = card (dom (shelf_abs sh))"
proof -
  assume "shelf_inv sh"
  then have "length (Items sh) = card (fst ` set (Items sh))"
    by (metis distinct_card length_map set_map shelf_inv_def)
  moreover have "dom (shelf_abs sh) = fst ` set (Items sh)"
    by (auto simp: dom_def shelf_abs_None map_of_eq_None_iff)
  ultimately show ?thesis by simp
qed

lemma shelf_add_abs: "shelf_abs (shelf_add a now t sh) = (shelf_abs sh)(t \<mapsto> (now, []))"
  by (auto simp: shelf_abs_def shelf_add_def fun_eq_iff)

lemma shelf_add_inv: "shelf_inv sh \<Longrightarrow> map_of (Items sh) t = None \<Longrightarrow> shelf_inv (shelf_add a now t sh)"
  by (auto simp: shelf_inv_def shelf_add_def queue_push_sorted map_of_eq_None_iff age_def)

lemma map_of_update_value:
  "map_of (map (\<lambda>(k, e). (k, if k = t then f e else e)) m) u = (if u = t then map_option f (map_of m u) else map_of m u)"
  by (induction m) auto

lemma shelf_append_abs:
  "shelf_abs (shelf_append t x sh) u =
     (if u = t then map_option (\<lambda>(f, xs). (f, xs @ [x])) (shelf_abs sh u) else shelf_abs sh u)"
  by (auto simp: shelf_abs_def shelf_append_def map_of_update_value option.map_comp comp_def)

lemma shelf_append_inv: "shelf_inv sh \<Longrightarrow> shelf_inv (shelf_append t x sh)"
proof -
  assume inv: "shelf_inv sh"
  let ?g = "\<lambda>(k, e). (k, if k = t then e\<lparr>eItems := eItems e @ [x]\<rparr> else e)"
  have "fst (?g p) = fst p" "age (snd (?g p)) = age (snd p)" "eToken (snd (?g p)) = eToken (snd p)" for p
    by (simp_all add: case_prod_unfold age_def)
  then have f: "map fst (map ?g (Items sh)) = map fst (Items sh)"
    "map (age \<circ> snd) (map ?g (Items sh)) = map (age \<circ> snd) (Items sh)"
    by (simp_all add: comp_def case_prod_unfold)
  have "(\<forall>(k, e)\<in>set (map ?g (Items sh)). eToken e = k) \<longleftrightarrow> (\<forall>(k, e)\<in>set (Items sh). eToken e = k)"
    by (auto split: if_splits)
  moreover have "Items (shelf_append t x sh) = map ?g (Items sh)" "Order (shelf_append t x sh) = Order sh"
    by (simp_all add: shelf_append_def)
  ultimately show "shelf_inv (shelf_append t x sh)"
    using inv unfolding shelf_inv_def by (simp only: f) blast
qed

lemma shelf_put_inv: "shelf_inv sh \<Longrightarrow> shelf_inv (shelf_put mt lim a now t x sh)"
  by (simp add: shelf_put_def Let_def shelf_add_inv shelf_append_inv)

lemma shelf_put_abs:
  assumes "shelf_inv sh"
  shows "shelf_abs (shelf_put mt lim a now t x sh) = tokens_put mt lim now t x (shelf_abs sh)"
proof (cases "shelf_abs sh t")
  case None
  then have "map_of (Items sh) t = None" by (simp add: shelf_abs_None)
  then show ?thesis
    using length_Items [OF assms] None
    by (auto simp: shelf_put_def tokens_put_def Let_def shelf_add_abs shelf_append_abs shelf_items_abs fun_eq_iff)
next
  case (Some e)
  then have "map_of (Items sh) t \<noteq> None" by (metis shelf_abs_None option.distinct(1))
  then show ?thesis
    using Some by (cases e) (auto simp: shelf_put_def tokens_put_def Let_def shelf_append_abs shelf_items_abs fun_eq_iff)
qed

section \<open>Bounds\<close>

definition shelf_bounded :: "int \<Rightarrow> (string \<Rightarrow> int) \<Rightarrow> 'a shelf \<Rightarrow> bool" where
  "shelf_bounded mt lim sh \<longleftrightarrow> int (length (Items sh)) \<le> mt \<and> (\<forall>(k, e)\<in>set (Items sh). int (length (eItems e)) \<le> lim k)"

lemma expire_shelf_bounded: "shelf_inv sh \<Longrightarrow> shelf_bounded mt lim sh \<Longrightarrow> shelf_bounded mt lim (expire_shelf now ttl sh)"
  by (auto simp: expire_shelf_eq shelf_bounded_def intro: order_trans [of _ "int (length (Items sh))"])

lemma shelf_append_bounded:
  assumes "shelf_inv sh" "shelf_bounded mt lim sh" "int (length (shelf_items t sh)) < lim t"
  shows "shelf_bounded mt lim (shelf_append t x sh)"
proof -
  have "int (length (eItems e) + 1) \<le> lim k" if "(k, e) \<in> set (Items sh)" "k = t" for k e
  proof -
    have "map_of (Items sh) k = Some e" using assms(1) that(1) by (simp add: shelf_inv_def)
    then show ?thesis using assms(3) that(2) by (simp add: shelf_items_def)
  qed
  then show ?thesis using assms(2) by (auto simp: shelf_bounded_def shelf_append_def)
qed

lemma shelf_put_bounded:
  assumes inv: "shelf_inv sh" and b: "shelf_bounded mt lim sh" and "0 \<le> lim t"
  shows "shelf_bounded mt lim (shelf_put mt (lim t) a now t x sh)"
proof -
  have add: "shelf_bounded mt lim (shelf_add a now t sh)" if "\<not> int (length (Items sh)) \<ge> mt"
    using that b assms(3) by (auto simp: shelf_bounded_def shelf_add_def)
  show ?thesis
    using b add inv by (auto simp: shelf_put_def Let_def shelf_append_bounded shelf_add_inv)
qed

section \<open>The store's operations\<close>

definition report_limit :: "MemStore \<Rightarrow> string \<Rightarrow> int" where
  "report_limit s t = (if t = [] then maxUnattributedReports else MaxPerToken s)"

definition store_inv :: "MemStore \<Rightarrow> bool" where
  "store_inv s \<longleftrightarrow>
     shelf_inv (Entries s) \<and> shelf_inv (Reports s) \<and>
     shelf_bounded (MaxTokens s) (\<lambda>_. MaxPerToken s) (Entries s) \<and>
     shelf_bounded (MaxTokens s) (report_limit s) (Reports s) \<and>
     0 < s_TTL s \<and> 0 < MaxTokens s \<and> 0 < MaxPerToken s"

definition same_limits :: "MemStore \<Rightarrow> MemStore \<Rightarrow> bool" where
  "same_limits s s' \<longleftrightarrow> s_TTL s' = s_TTL s \<and> MaxTokens s' = MaxTokens s \<and> MaxPerToken s' = MaxPerToken s"

lemma NewMemStore_inv: "store_inv (NewMemStore ttl mt mp)"
  by (auto simp: store_inv_def NewMemStore_def shelf_inv_def shelf_bounded_def empty_shelf_def first_sorted_def
      defaultStoreTTL_def defaultMaxTokens_def defaultMaxPerToken_def)

lemma limits_expireLocked [simp]:
  "s_TTL (expireLocked now s) = s_TTL s" "MaxTokens (expireLocked now s) = MaxTokens s"
  "MaxPerToken (expireLocked now s) = MaxPerToken s" "NextAddr (expireLocked now s) = NextAddr s"
  "Entries (expireLocked now s) = expire_shelf now (s_TTL s) (Entries s)"
  "Reports (expireLocked now s) = expire_shelf now (s_TTL s) (Reports s)"
  by (simp_all add: expireLocked_def)

lemma report_limit_expireLocked [simp]: "report_limit (expireLocked now s) = report_limit s"
  by (simp add: report_limit_def fun_eq_iff)

lemma expireLocked_inv: "store_inv s \<Longrightarrow> store_inv (expireLocked now s)"
  by (simp add: store_inv_def expire_shelf_inv expire_shelf_bounded)

definition obs_time :: "int \<Rightarrow> Observation \<Rightarrow> int" where
  "obs_time clock obs = (if oAt obs = 0 then clock else oAt obs)"

definition rec_time :: "int \<Rightarrow> ReportRecord \<Rightarrow> int" where
  "rec_time clock rec = (if rrAt rec = 0 then clock else rrAt rec)"

text \<open>Both recording methods leave the other shelf swept and put the item on their own.\<close>

lemma Record_shelves:
  fixes clock obs s
  defines "now \<equiv> obs_time clock obs"
  shows "Entries (fst (Record clock obs s)) =
      shelf_put (MaxTokens s) (MaxPerToken s) (NextAddr s) now (oToken obs)
        (\<lambda>n. obs\<lparr>oAt := now, oSeen := n + 1\<rparr>) (expire_shelf now (s_TTL s) (Entries s))"
    and "Reports (fst (Record clock obs s)) = expire_shelf now (s_TTL s) (Reports s)"
    and "same_limits s (fst (Record clock obs s))"
  unfolding Record_def now_def obs_time_def [symmetric]
  by (simp_all add: Let_def shelf_put_def same_limits_def)

lemma RecordReport_shelves:
  fixes clock rec s
  defines "now \<equiv> rec_time clock rec"
  shows "Reports (fst (RecordReport clock rec s)) =
      shelf_put (MaxTokens s) (report_limit s (rrToken rec)) (NextAddr s) now (rrToken rec)
        (\<lambda>n. rec\<lparr>rrAt := now\<rparr>) (expire_shelf now (s_TTL s) (Reports s))"
    and "Entries (fst (RecordReport clock rec s)) = expire_shelf now (s_TTL s) (Entries s)"
    and "same_limits s (fst (RecordReport clock rec s))"
  unfolding RecordReport_def now_def rec_time_def [symmetric]
  by (simp_all add: Let_def shelf_put_def same_limits_def report_limit_def)

lemma limits_record [simp]:
  "s_TTL (fst (Record clock obs s)) = s_TTL s" "MaxTokens (fst (Record clock obs s)) = MaxTokens s"
  "MaxPerToken (fst (Record clock obs s)) = MaxPerToken s"
  "s_TTL (fst (RecordReport clock rec s)) = s_TTL s" "MaxTokens (fst (RecordReport clock rec s)) = MaxTokens s"
  "MaxPerToken (fst (RecordReport clock rec s)) = MaxPerToken s"
  using Record_shelves(3) [where clock = clock and obs = obs and s = s]
    RecordReport_shelves(3) [where clock = clock and rec = rec and s = s] by (simp_all add: same_limits_def)

lemma store_inv_shelves:
  assumes "store_inv s" and "same_limits s s'"
    and "shelf_inv (Entries s')" "shelf_inv (Reports s')"
    and "shelf_bounded (MaxTokens s) (\<lambda>_. MaxPerToken s) (Entries s')"
    and "shelf_bounded (MaxTokens s) (report_limit s) (Reports s')"
  shows "store_inv s'"
proof -
  have "report_limit s' = report_limit s" using assms(2) by (simp add: same_limits_def report_limit_def fun_eq_iff)
  then show ?thesis using assms by (simp add: store_inv_def same_limits_def)
qed

lemma report_limit_nonneg: "0 < MaxPerToken s \<Longrightarrow> 0 \<le> report_limit s t"
  by (simp add: report_limit_def maxUnattributedReports_def)

lemma store_invD:
  assumes "store_inv s"
  shows "shelf_inv (expire_shelf now (s_TTL s) (Entries s))" "shelf_inv (expire_shelf now (s_TTL s) (Reports s))"
    "shelf_bounded (MaxTokens s) (\<lambda>_. MaxPerToken s) (expire_shelf now (s_TTL s) (Entries s))"
    "shelf_bounded (MaxTokens s) (report_limit s) (expire_shelf now (s_TTL s) (Reports s))"
    "0 \<le> MaxPerToken s" "0 \<le> report_limit s t"
  using assms by (simp_all add: store_inv_def expire_shelf_inv expire_shelf_bounded report_limit_nonneg)

lemma Record_inv: "store_inv s \<Longrightarrow> store_inv (fst (Record clock obs s))"
proof (rule store_inv_shelves [of s])
  assume s: "store_inv s"
  note D = store_invD [OF s]
  show "shelf_inv (Entries (fst (Record clock obs s)))" unfolding Record_shelves using D(1) by (rule shelf_put_inv)
  show "shelf_bounded (MaxTokens s) (\<lambda>_. MaxPerToken s) (Entries (fst (Record clock obs s)))"
    unfolding Record_shelves using D(1,3,5) by (rule shelf_put_bounded)
qed (simp_all add: Record_shelves store_invD)

lemma RecordReport_inv: "store_inv s \<Longrightarrow> store_inv (fst (RecordReport clock rec s))"
proof (rule store_inv_shelves [of s])
  assume s: "store_inv s"
  note D = store_invD [OF s]
  show "shelf_inv (Reports (fst (RecordReport clock rec s)))" unfolding RecordReport_shelves using D(2) by (rule shelf_put_inv)
  show "shelf_bounded (MaxTokens s) (report_limit s) (Reports (fst (RecordReport clock rec s)))"
    unfolding RecordReport_shelves using D(2,4,6) by (rule shelf_put_bounded)
qed (simp_all add: RecordReport_shelves store_invD)

section \<open>Histories\<close>

text \<open>The methods as transitions; each runs under the mutex, so a history is a sequence of them.\<close>

inductive store_step :: "MemStore \<Rightarrow> MemStore \<Rightarrow> bool" where
  step_record: "store_step s (fst (Record clock obs s))"
| step_lookup: "store_step s (fst (Lookup clock t s))"
| step_record_report: "store_step s (fst (RecordReport clock rec s))"
| step_lookup_reports: "store_step s (fst (LookupReports clock t s))"
| step_len: "store_step s (fst (Len clock s))"

inductive_cases store_stepE: "store_step s s'"

lemma store_step_inv: "store_step s s' \<Longrightarrow> store_inv s \<Longrightarrow> store_inv s' \<and> same_limits s s'"
  by (erule store_stepE)
    (auto simp: Record_inv RecordReport_inv Record_shelves RecordReport_shelves Lookup_def LookupReports_def Len_def Let_def
      expireLocked_inv same_limits_def)

lemma store_history_inv: "store_step\<^sup>*\<^sup>* s s' \<Longrightarrow> store_inv s \<Longrightarrow> store_inv s' \<and> same_limits s s'"
proof (induction rule: rtranclp_induct)
  case (step y z)
  then show ?case using store_step_inv [of y z] by (auto simp: same_limits_def)
qed (simp add: same_limits_def)

section \<open>The contract of a store\<close>

text \<open>
  What the handler and the web tier rely on: recording one token never changes what is read back for another, and an
  accepted observation is the last one read back until its token expires.
\<close>

locale token_store =
  fixes inv :: "'s \<Rightarrow> bool"
    and record_at :: "'a \<Rightarrow> 's \<Rightarrow> 's"
    and read_at :: "int \<Rightarrow> string \<Rightarrow> 's \<Rightarrow> 'b"
    and token_of :: "'a \<Rightarrow> string"
    and time_of :: "'a \<Rightarrow> int"
  assumes record_inv: "inv s \<Longrightarrow> inv (record_at x s)"
    and read_other: "inv s \<Longrightarrow> t \<noteq> token_of x \<Longrightarrow> time_of x \<le> clock \<Longrightarrow> read_at clock t (record_at x s) = read_at clock t s"
begin

lemma records_inv: "inv s \<Longrightarrow> inv (fold record_at xs s)"
  by (induction xs arbitrary: s) (simp_all add: record_inv)

text \<open>Whatever is recorded for other tokens, a token reads the same.\<close>

lemma isolation:
  "inv s \<Longrightarrow> \<forall>x\<in>set xs. token_of x \<noteq> t \<and> time_of x \<le> clock \<Longrightarrow> read_at clock t (fold record_at xs s) = read_at clock t s"
proof (induction xs arbitrary: s)
  case (Cons x xs)
  then show ?case using Cons.IH [of "record_at x s"] read_other [of s t x clock] record_inv [of s x] by auto
qed simp

end

definition obs_abs :: "MemStore \<Rightarrow> Observation tokens" where
  "obs_abs s = shelf_abs (Entries s)"

definition rep_abs :: "MemStore \<Rightarrow> ReportRecord tokens" where
  "rep_abs s = shelf_abs (Reports s)"

definition read_tokens :: "int \<Rightarrow> int \<Rightarrow> string \<Rightarrow> 'a tokens \<Rightarrow> 'a list" where
  "read_tokens clock ttl t m = (case sweep clock ttl m t of Some (f, xs) \<Rightarrow> xs | None \<Rightarrow> [])"

lemma Lookup_abs:
  "store_inv s \<Longrightarrow> snd (Lookup clock t s) = read_tokens clock (s_TTL s) t (obs_abs s)"
  "store_inv s \<Longrightarrow> snd (LookupReports clock t s) = read_tokens clock (s_TTL s) t (rep_abs s)"
  by (simp_all add: Lookup_def LookupReports_def Let_def shelf_items_abs expire_shelf_abs store_inv_def
      obs_abs_def rep_abs_def read_tokens_def)

lemma Record_abs:
  "store_inv s \<Longrightarrow> obs_abs (fst (Record clock obs s)) =
     tokens_put (MaxTokens s) (MaxPerToken s) (obs_time clock obs) (oToken obs)
       (\<lambda>n. obs\<lparr>oAt := obs_time clock obs, oSeen := n + 1\<rparr>) (sweep (obs_time clock obs) (s_TTL s) (obs_abs s))"
  by (simp add: obs_abs_def Record_shelves shelf_put_abs expire_shelf_inv expire_shelf_abs store_inv_def)

lemma RecordReport_abs:
  "store_inv s \<Longrightarrow> rep_abs (fst (RecordReport clock rec s)) =
     tokens_put (MaxTokens s) (report_limit s (rrToken rec)) (rec_time clock rec) (rrToken rec)
       (\<lambda>n. rec\<lparr>rrAt := rec_time clock rec\<rparr>) (sweep (rec_time clock rec) (s_TTL s) (rep_abs s))"
  by (simp add: rep_abs_def RecordReport_shelves shelf_put_abs expire_shelf_inv expire_shelf_abs store_inv_def)

lemma tokens_put_other: "u \<noteq> t \<Longrightarrow> tokens_put mt lim now t x m u = m u"
  by (simp add: tokens_put_def Let_def split: prod.split option.split)

lemma read_tokens_put_other:
  assumes "u \<noteq> t" "now \<le> clock"
  shows "read_tokens clock ttl u (tokens_put mt lim now t x (sweep now ttl m)) = read_tokens clock ttl u m"
proof -
  have "sweep clock ttl (tokens_put mt lim now t x (sweep now ttl m)) u = sweep clock ttl (sweep now ttl m) u"
    using assms(1) by (simp add: sweep_def [of clock] tokens_put_other)
  then show ?thesis using sweep_mono [OF assms(2), of ttl m] by (simp add: read_tokens_def)
qed

lemma Lookup_Record_other:
  "store_inv s \<Longrightarrow> t \<noteq> oToken obs \<Longrightarrow> obs_time c obs \<le> clock \<Longrightarrow>
   snd (Lookup clock t (fst (Record c obs s))) = snd (Lookup clock t s)"
  by (simp add: Lookup_abs Record_inv Record_abs read_tokens_put_other)

lemma LookupReports_RecordReport_other:
  "store_inv s \<Longrightarrow> t \<noteq> rrToken rec \<Longrightarrow> rec_time c rec \<le> clock \<Longrightarrow>
   snd (LookupReports clock t (fst (RecordReport c rec s))) = snd (LookupReports clock t s)"
  by (simp add: Lookup_abs RecordReport_inv RecordReport_abs read_tokens_put_other)

interpretation observations: token_store store_inv "\<lambda>x s. fst (Record (fst x) (snd x) s)"
  "\<lambda>clock t s. snd (Lookup clock t s)" "\<lambda>x. oToken (snd x)" "\<lambda>x. obs_time (fst x) (snd x)"
  by unfold_locales (simp_all add: Record_inv Lookup_Record_other)

interpretation error_reports: token_store store_inv "\<lambda>x s. fst (RecordReport (fst x) (snd x) s)"
  "\<lambda>clock t s. snd (LookupReports clock t s)" "\<lambda>x. rrToken (snd x)" "\<lambda>x. rec_time (fst x) (snd x)"
  by unfold_locales (simp_all add: RecordReport_inv LookupReports_RecordReport_other)

section \<open>Reading back\<close>

lemma read_tokens_put_same:
  assumes "read_tokens clock ttl t m = xs" "xs \<noteq> []" "now \<le> clock" "int (length xs) < lim"
  shows "read_tokens clock ttl t (tokens_put mt lim now t x (sweep now ttl m)) = xs @ [x (length xs)]"
proof -
  obtain f where m: "m t = Some (f, xs)" and live: "\<not> expired clock ttl f"
    using assms(1,2) by (auto simp: read_tokens_def sweep_def split: option.splits if_splits)
  then have "sweep now ttl m t = Some (f, xs)" using expired_mono [OF assms(3), of ttl f] by (auto simp: sweep_def)
  then have "tokens_put mt lim now t x (sweep now ttl m) t = Some (f, xs @ [x (length xs)])"
    using assms(4) by (simp add: tokens_put_def)
  then show ?thesis using live by (simp add: read_tokens_def sweep_def)
qed

lemma read_tokens_put_full:
  assumes "read_tokens now ttl t m = xs" "xs \<noteq> []" "lim \<le> int (length xs)"
  shows "read_tokens now ttl t (tokens_put mt lim now t x (sweep now ttl m)) = xs"
proof -
  obtain f where "m t = Some (f, xs)" and live: "\<not> expired now ttl f"
    using assms(1,2) by (auto simp: read_tokens_def sweep_def split: option.splits if_splits)
  then have "sweep now ttl m t = Some (f, xs)" by (auto simp: sweep_def)
  then have "tokens_put mt lim now t x (sweep now ttl m) t = Some (f, xs)"
    using assms(3) by (simp add: tokens_put_def)
  then show ?thesis using live by (simp add: read_tokens_def sweep_def)
qed

lemma Record_result:
  assumes "store_inv s" "read_tokens (obs_time c obs) (s_TTL s) (oToken obs) (obs_abs s) = xs" "xs \<noteq> []"
  shows "snd (Record c obs s) = (obs\<lparr>oAt := obs_time c obs, oSeen := length xs + 1\<rparr>, None)"
proof -
  let ?sh = "expire_shelf (obs_time c obs) (s_TTL s) (Entries s)"
  have "shelf_items (oToken obs) ?sh = xs"
    using assms(1,2) by (simp add: shelf_items_abs expire_shelf_abs store_inv_def obs_abs_def read_tokens_def)
  moreover from this have "map_of (Items ?sh) (oToken obs) \<noteq> None"
    using assms(3) by (auto simp: shelf_items_def split: option.splits)
  ultimately show ?thesis by (auto simp: Record_def Let_def obs_time_def [symmetric])
qed

lemma Record_seen:
  assumes "store_inv s"
  shows "int (oSeen (fst (snd (Record c obs s)))) \<le> MaxPerToken s + 1"
proof -
  let ?sh = "expire_shelf (obs_time c obs) (s_TTL s) (Entries s)"
  have "int (length (shelf_items (oToken obs) ?sh)) \<le> MaxPerToken s"
    using store_invD(3) [OF assms, of "obs_time c obs"] store_invD(5) [OF assms]
    by (auto simp: shelf_items_def shelf_bounded_def split: option.splits dest!: map_of_SomeD)
  moreover have "0 < MaxPerToken s" using assms by (simp add: store_inv_def)
  ultimately show ?thesis
    by (auto simp: Record_def Let_def obs_time_def [symmetric] shelf_add_def shelf_items_def)
qed

section \<open>Properties\<close>

text \<open>
  C19: the queue is an implementation detail. In every history of a new store the methods act on the map from
  tokens to first-seen times and items exactly as the specification that sweeps the whole map for expired tokens:
  popping from the front of the first-seen queue, the binary-search insertion and the pointer test in the expiry callback
  never keep an expired token or drop a live one.
\<close>

theorem store_refines_timed_map:
  assumes "store_step\<^sup>*\<^sup>* (NewMemStore ttl maxTokens maxPerToken) s"
  shows "obs_abs (fst (Record clock obs s)) =
      tokens_put (MaxTokens s) (MaxPerToken s) (obs_time clock obs) (oToken obs)
        (\<lambda>n. obs\<lparr>oAt := obs_time clock obs, oSeen := n + 1\<rparr>) (sweep (obs_time clock obs) (s_TTL s) (obs_abs s)) \<and>
    rep_abs (fst (RecordReport clock rec s)) =
      tokens_put (MaxTokens s) (report_limit s (rrToken rec)) (rec_time clock rec) (rrToken rec)
        (\<lambda>n. rec\<lparr>rrAt := rec_time clock rec\<rparr>) (sweep (rec_time clock rec) (s_TTL s) (rep_abs s)) \<and>
    snd (Lookup clock t s) = (case sweep clock (s_TTL s) (obs_abs s) t of Some (f, xs) \<Rightarrow> xs | None \<Rightarrow> []) \<and>
    snd (Len clock s) = card (dom (sweep clock (s_TTL s) (obs_abs s)))"
proof -
  have inv: "store_inv s" using store_history_inv [OF assms NewMemStore_inv] by blast
  have "snd (Len clock s) = card (dom (sweep clock (s_TTL s) (obs_abs s)))"
    using inv by (simp add: Len_def Let_def length_Items expire_shelf_inv expire_shelf_abs store_inv_def obs_abs_def)
  then show ?thesis
    using inv by (simp add: Record_abs RecordReport_abs Lookup_abs read_tokens_def)
qed

definition example_obs :: "string \<Rightarrow> int \<Rightarrow> Observation" where
  "example_obs t now = \<lparr>oAt = now, oResolverAddr = Addr4 1, oTLS = None, oResolverPrefix = zero_prefix,
     oECSPrefix = zero_prefix, oToken = t, oQtype = ''A'', oMods = ''none'', oTransport = TransportUDP, oKeyTags = [],
     oSeen = 0, oECSFamily = 0, oUDPSize = 1232, oIPv6 = False, oECSScope = 0, oECS = False, oCookie = False,
     oDELEGAware = False, oEDNS = True, oKnowsZoneKey = False, oZoneVersionAsked = False, oCompactAware = False,
     oCaseRandomized = False, oDO = True\<rparr>"

definition example_store :: MemStore where
  "example_store = fst (Record 0 (example_obs ''a1b2c3d4'' 5) (NewMemStore 100 3 2))"

lemma example_store_reached: "store_step\<^sup>*\<^sup>* (NewMemStore 100 3 2) example_store"
  unfolding example_store_def by (rule r_into_rtranclp) (rule step_record)

theorem store_refines_timed_map_witness:
  "snd (Len 50 example_store) = card (dom (sweep 50 (s_TTL example_store) (obs_abs example_store)))"
  using store_refines_timed_map [OF example_store_reached] by blast

text \<open>
  C20: no history of requests makes the store grow past its ceilings: at most \<open>MaxTokens\<close> tokens and as many
  report keys, at most \<open>MaxPerToken\<close> observations or reports per token and 256 unattributed reports, with the defaults in
  place of limits that are not positive.
\<close>

theorem store_memory_is_bounded:
  assumes "store_step\<^sup>*\<^sup>* (NewMemStore ttl maxTokens maxPerToken) s"
  shows "int (length (Items (Entries s))) \<le> (if maxTokens \<le> 0 then 10000 else maxTokens) \<and>
    int (length (Items (Reports s))) \<le> (if maxTokens \<le> 0 then 10000 else maxTokens) \<and>
    int (length (snd (Lookup clock t s))) \<le> (if maxPerToken \<le> 0 then 64 else maxPerToken) \<and>
    int (length (snd (LookupReports clock t s))) \<le> (if t = [] then 256 else if maxPerToken \<le> 0 then 64 else maxPerToken)"
proof -
  have inv: "store_inv s" and lim: "same_limits (NewMemStore ttl maxTokens maxPerToken) s"
    using store_history_inv [OF assms NewMemStore_inv] by blast+
  have L: "MaxTokens s = (if maxTokens \<le> 0 then 10000 else maxTokens)"
    "MaxPerToken s = (if maxPerToken \<le> 0 then 64 else maxPerToken)"
    using lim by (auto simp: same_limits_def NewMemStore_def defaultMaxTokens_def defaultMaxPerToken_def)
  have items: "int (length (shelf_items t sh)) \<le> lim t"
    if "shelf_bounded mt lim sh" "0 \<le> lim t" for mt lim and sh :: "'x shelf"
    using that by (auto simp: shelf_items_def shelf_bounded_def split: option.splits dest!: map_of_SomeD)
  have "int (length (snd (Lookup clock t s))) \<le> MaxPerToken s"
    using items [OF store_invD(3,5) [OF inv]] by (simp add: Lookup_def Let_def)
  moreover have "int (length (snd (LookupReports clock t s))) \<le> report_limit s t"
    using items [OF store_invD(4,6) [OF inv]] by (simp add: LookupReports_def Let_def)
  moreover have "int (length (Items (Entries s))) \<le> MaxTokens s" "int (length (Items (Reports s))) \<le> MaxTokens s"
    using inv by (simp_all add: store_inv_def shelf_bounded_def)
  ultimately show ?thesis unfolding L report_limit_def maxUnattributedReports_def by blast
qed

theorem store_memory_is_bounded_witness:
  "int (length (Items (Entries example_store))) \<le> 3 \<and> int (length (snd (Lookup 50 ''a1b2c3d4'' example_store))) \<le> 2"
  using store_memory_is_bounded [OF example_store_reached, of 50 "''a1b2c3d4''"] by simp

text \<open>
  sessions do not disturb each other and their own observations are kept in order. For a token that is
  live at the time of reading, an observation recorded below the ceiling is appended, numbered one above the count so far;
  whatever is recorded for other tokens up to that time leaves what the token reads unchanged.
\<close>

lemma recorded_observation_is_read_back:
  assumes "store_step\<^sup>*\<^sup>* (NewMemStore ttl maxTokens maxPerToken) s"
    and "snd (Lookup clock (oToken obs) s) = xs" "xs \<noteq> []" "int (length xs) < MaxPerToken s" "obs_time c obs \<le> clock"
    and "\<forall>x\<in>set others. oToken (snd x) \<noteq> oToken obs \<and> obs_time (fst x) (snd x) \<le> clock"
  shows "snd (Lookup clock (oToken obs)
      (fold (\<lambda>x s. fst (Record (fst x) (snd x) s)) others (fst (Record c obs s)))) =
    xs @ [obs\<lparr>oAt := obs_time c obs, oSeen := length xs + 1\<rparr>]"
proof -
  have inv: "store_inv s" using store_history_inv [OF assms(1) NewMemStore_inv] by blast
  have "snd (Lookup clock (oToken obs) (fst (Record c obs s))) = xs @ [obs\<lparr>oAt := obs_time c obs, oSeen := length xs + 1\<rparr>]"
    using read_tokens_put_same [of clock "s_TTL s" "oToken obs" "obs_abs s" xs "obs_time c obs" "MaxPerToken s"] assms(2-5) inv
    by (simp add: Lookup_abs Record_inv Record_abs)
  then show ?thesis
    using observations.isolation [OF Record_inv [OF inv], of others "oToken obs" clock] assms(6) by simp
qed

lemma recorded_observation_is_read_back_witness:
  "length (snd (Lookup 50 ''a1b2c3d4'' (fold (\<lambda>x s. fst (Record (fst x) (snd x) s)) [(0, example_obs ''beefbeef'' 30)]
      (fst (Record 0 (example_obs ''a1b2c3d4'' 20) example_store))))) = 2"
proof -
  have "length (snd (Lookup 50 ''a1b2c3d4'' example_store)) = 1" by code_simp
  moreover have "MaxPerToken example_store = 2" by code_simp
  moreover have "oToken (example_obs t n) = t" "oAt (example_obs t n) = n" for t n by (simp_all add: example_obs_def)
  ultimately show ?thesis
    using recorded_observation_is_read_back [OF example_store_reached, of 50 "example_obs ''a1b2c3d4'' 20" _ 0
        "[(0, example_obs ''beefbeef'' 30)]"]
    by (cases "snd (Lookup 50 ''a1b2c3d4'' example_store)") (simp_all add: obs_time_def)
qed

text \<open>
  the ordinal a store reports never exceeds \<open>MaxPerToken + 1\<close>, and once a token is at its ceiling every further
  observation gets that same number: the count stops where retention stops, although the comment in \<open>Record\<close> says it
  stays truthful.
\<close>

lemma seen_count_saturates:
  assumes "store_step\<^sup>*\<^sup>* (NewMemStore ttl maxTokens maxPerToken) s"
  shows "int (oSeen (fst (snd (Record c obs s)))) \<le> MaxPerToken s + 1 \<and>
    (int (length (snd (Lookup (obs_time c obs) (oToken obs) s))) = MaxPerToken s \<longrightarrow>
       int (oSeen (fst (snd (Record c obs s)))) = MaxPerToken s + 1 \<and>
       snd (Lookup (obs_time c obs) (oToken obs) (fst (Record c obs s))) = snd (Lookup (obs_time c obs) (oToken obs) s))"
proof -
  have inv: "store_inv s" using store_history_inv [OF assms NewMemStore_inv] by blast
  let ?now = "obs_time c obs" and ?xs = "read_tokens (obs_time c obs) (s_TTL s) (oToken obs) (obs_abs s)"
  have "snd (Record c obs s) = (obs\<lparr>oAt := ?now, oSeen := length ?xs + 1\<rparr>, None) \<and>
      snd (Lookup ?now (oToken obs) (fst (Record c obs s))) = ?xs" if "int (length ?xs) = MaxPerToken s"
  proof -
    have ne: "?xs \<noteq> []" using that inv by (auto simp: store_inv_def)
    show ?thesis
      using Record_result [OF inv refl ne] read_tokens_put_full [OF refl ne] that inv
      by (simp add: Lookup_abs Record_inv Record_abs)
  qed
  then show ?thesis using inv Record_seen [OF inv] by (simp add: Lookup_abs)
qed

lemma seen_count_saturates_witness:
  "oSeen (fst (snd (Record 0 (example_obs ''a1b2c3d4'' 20) example_store))) \<le> 3"
proof -
  have "MaxPerToken example_store = 2" by code_simp
  then show ?thesis using seen_count_saturates [OF example_store_reached, of 0 "example_obs ''a1b2c3d4'' 20"] by simp
qed

end
