(* ===== verification/Probe_Dnssd.thy ===== *)
theory Probe_Dnssd
  imports Probe_Report
begin

text \<open>
  The DNS-SD browse tree below a token (\<open>dnssd.go\<close>): classifying a name, the names of the three levels and the records
  each level answers with.
\<close>

section \<open>Operations\<close>

abbreviation (input) dnssdMetaService :: string where "dnssdMetaService \<equiv> ''_services''"
abbreviation (input) dnssdMetaDNSSD :: string where "dnssdMetaDNSSD \<equiv> ''_dns-sd''"
abbreviation (input) dnssdMetaUDP :: string where "dnssdMetaUDP \<equiv> ''_udp''"
abbreviation (input) dnssdServiceType :: string where "dnssdServiceType \<equiv> ''_probe''"
abbreviation (input) dnssdProto :: string where "dnssdProto \<equiv> ''_tcp''"
abbreviation (input) dnssdInstance :: string where "dnssdInstance \<equiv> ''probe''"
abbreviation (input) dnssdPort :: u16 where "dnssdPort \<equiv> 443"

datatype dnssdKind = dnssdNone | dnssdBrowse | dnssdEnumerate | dnssdInstanceName

definition dnssd_equalFoldASCII :: "string \<Rightarrow> string \<Rightarrow> bool" where
  "dnssd_equalFoldASCII a b =
     (if length a \<noteq> length b then False
      else list_all (\<lambda>i. lower_char (a ! i) = lower_char (b ! i)) [0..<length a])"

fun labelsEqualFold :: "string \<Rightarrow> string list \<Rightarrow> bool" where
  "labelsEqualFold name [] = (name = [])"
| "labelsEqualFold name (want # labels) =
     (case index_byte name (CHR ''.'') of
        Some j \<Rightarrow> dnssd_equalFoldASCII (take j name) want \<and> labelsEqualFold (drop (Suc j) name) labels
      | None \<Rightarrow> if labels = [] then dnssd_equalFoldASCII name want \<and> labelsEqualFold [] labels else False)"

definition parseDNSSD :: "string \<Rightarrow> dnssdKind \<times> string" where
  "parseDNSSD sub0 =
     (let sub = trim_suffix sub0 ''.'' in
      case last_index_byte sub (CHR ''.'') of
        None \<Rightarrow> (dnssdNone, [])
      | Some i \<Rightarrow>
          (case parseToken (drop (Suc i) sub) of
             None \<Rightarrow> (dnssdNone, [])
           | Some token \<Rightarrow>
               let prefix = take i sub in
               if labelsEqualFold prefix [dnssdMetaService, dnssdMetaDNSSD, dnssdMetaUDP] then (dnssdBrowse, token)
               else if labelsEqualFold prefix [dnssdInstance, dnssdServiceType, dnssdProto] then (dnssdInstanceName, token)
               else if labelsEqualFold prefix [dnssdServiceType, dnssdProto] then (dnssdEnumerate, token)
               else (dnssdNone, [])))"

definition dnssdNames :: "string \<Rightarrow> string \<Rightarrow> string \<times> string \<times> string" where
  "dnssdNames zone token =
     (let base = token @ ''.'' @ zone;
          browse = dnssdMetaService @ ''.'' @ dnssdMetaDNSSD @ ''.'' @ dnssdMetaUDP @ ''.'' @ base;
          enumerate' = dnssdServiceType @ ''.'' @ dnssdProto @ ''.'' @ base;
          instance' = dnssdInstance @ ''.'' @ enumerate' in
      (browse, enumerate', instance'))"

definition synthesizeDNSSD ::
  "string \<Rightarrow> string \<Rightarrow> u32 \<Rightarrow> dnssdKind \<Rightarrow> string \<Rightarrow> u16 \<Rightarrow> rr list \<times> rr list" where
  "synthesizeDNSSD zone nsName ttl kind token qtype =
     (let (browse, enumerate', instance') = dnssdNames zone token;
          hdr = (\<lambda>name rrtype rd. \<lparr>Name = name, Rrtype = rrtype, Class = ClassINET, Ttl = ttl, Rdlength = 0, Rdata = rd\<rparr>);
          srv = hdr instance' TypeSRV (SRV_rr 0 0 dnssdPort nsName);
          txt = hdr instance' TypeTXT (TXT_rr [''txtvers=1'', ''token='' @ token]) in
      case kind of
        dnssdNone \<Rightarrow> ([], [])
      | dnssdBrowse \<Rightarrow>
          if qtype \<noteq> TypePTR \<and> qtype \<noteq> TypeANY then ([], [])
          else ([hdr browse TypePTR (PTR_rr enumerate')], [])
      | dnssdEnumerate \<Rightarrow>
          if qtype \<noteq> TypePTR \<and> qtype \<noteq> TypeANY then ([], [])
          else ([hdr enumerate' TypePTR (PTR_rr instance')], [srv, txt])
      | dnssdInstanceName \<Rightarrow>
          if qtype = TypeSRV then ([srv], [])
          else if qtype = TypeTXT then ([txt], [])
          else if qtype = TypeANY then ([srv, txt], [])
          else ([], []))"

section \<open>Matching\<close>

lemma dnssd_equalFoldASCII_iff: "dnssd_equalFoldASCII a b \<longleftrightarrow> lower_ascii a = lower_ascii b"
  by (simp add: dnssd_equalFoldASCII_def flip: fold_eq_nth)

lemma lower_dot [simp]: "lower_char (CHR ''.'') = CHR ''.''"
  by (simp add: lower_char_def is_upper_def)

lemma lower_dotless: "CHR ''.'' \<notin> set s \<Longrightarrow> lower_ascii s \<noteq> a @ CHR ''.'' # b"
  by (metis dot_in_lower in_set_conv_decomp)

lemma labelsEqualFold_dot:
  "CHR ''.'' \<notin> set a \<Longrightarrow>
     labelsEqualFold (a @ CHR ''.'' # s) (want # labels) \<longleftrightarrow> lower_ascii a = lower_ascii want \<and> labelsEqualFold s labels"
  by (simp add: index_byte_append_sep dnssd_equalFoldASCII_iff)

lemma labelsEqualFold_dotless:
  "CHR ''.'' \<notin> set a \<Longrightarrow> labelsEqualFold a (want # labels) \<longleftrightarrow> labels = [] \<and> lower_ascii a = lower_ascii want"
  by (auto simp: index_byte_None [THEN iffD2] dnssd_equalFoldASCII_iff)

text \<open>
  \<open>labelsEqualFold\<close> accepts the joined labels up to case, and the same with one dot after them: the loop ends after the
  last label without asking whether a separator was consumed.
\<close>

lemma labelsEqualFold_iff:
  assumes "labels \<noteq> []" and "list_all (\<lambda>l. CHR ''.'' \<notin> set l \<and> lower_ascii l = l) labels"
  shows "labelsEqualFold name labels \<longleftrightarrow> lower_ascii name \<in> {join_on (CHR ''.'') labels, join_on (CHR ''.'') labels @ ''.''}"
  using assms
proof (induction labels arbitrary: name rule: list_nonempty_induct)
  case (single l)
  show ?case
  proof (cases "CHR ''.'' \<in> set name")
    case True
    then obtain a s where s: "name = a @ CHR ''.'' # s" "CHR ''.'' \<notin> set a" by (meson split_list_first)
    then have "lower_ascii name = lower_ascii a @ CHR ''.'' # lower_ascii s" by simp
    moreover have "lower_ascii name \<noteq> l" using single True dot_in_lower by auto
    ultimately show ?thesis
      using s single sep_eq_iff [of "CHR ''.''" "lower_ascii a" l "lower_ascii s" "[]"]
      by (auto simp del: labelsEqualFold.simps simp: labelsEqualFold_dot) auto
  next
    case False
    then show ?thesis using lower_dotless [of name l "[]"] single by (auto simp del: labelsEqualFold.simps simp: labelsEqualFold_dotless)
  qed
next
  case (cons l labels)
  then have j: "join_on (CHR ''.'') (l # labels) = l @ CHR ''.'' # join_on (CHR ''.'') labels" by (cases labels) auto
  show ?case
  proof (cases "CHR ''.'' \<in> set name")
    case True
    then obtain a s where s: "name = a @ CHR ''.'' # s" "CHR ''.'' \<notin> set a" by (meson split_list_first)
    then have "lower_ascii name = lower_ascii a @ CHR ''.'' # lower_ascii s" by simp
    then show ?thesis
      using s cons j sep_eq_iff [of "CHR ''.''" "lower_ascii a" l "lower_ascii s"]
      by (auto simp del: labelsEqualFold.simps simp: labelsEqualFold_dot)
  next
    case False
    then have "lower_ascii name \<notin> {join_on (CHR ''.'') (l # labels), join_on (CHR ''.'') (l # labels) @ ''.''}"
      using lower_dotless [OF False] unfolding j by auto
    then show ?thesis
      using False cons by (auto simp del: labelsEqualFold.simps simp: labelsEqualFold_dotless)
  qed
qed

text \<open>The fixed labels of a level.\<close>

fun level_labels :: "dnssdKind \<Rightarrow> string list" where
  "level_labels dnssdNone = []"
| "level_labels dnssdBrowse = [dnssdMetaService, dnssdMetaDNSSD, dnssdMetaUDP]"
| "level_labels dnssdEnumerate = [dnssdServiceType, dnssdProto]"
| "level_labels dnssdInstanceName = [dnssdInstance, dnssdServiceType, dnssdProto]"

lemma level_labels_plain: "list_all (\<lambda>l. label_ok l \<and> lower_ascii l = l) (level_labels k)"
  by (cases k) (simp_all add: label_ok_def lower_ascii_def lower_char_def is_upper_def)

lemma level_labels_iff:
  assumes "k \<noteq> dnssdNone"
  shows "labelsEqualFold name (level_labels k) \<longleftrightarrow>
    lower_ascii name \<in> {join_on (CHR ''.'') (level_labels k), join_on (CHR ''.'') (level_labels k) @ ''.''}"
proof (rule labelsEqualFold_iff)
  show "level_labels k \<noteq> []" using assms by (cases k) auto
  show "list_all (\<lambda>l. CHR ''.'' \<notin> set l \<and> lower_ascii l = l) (level_labels k)"
    using level_labels_plain [of k] by (auto simp: list_all_iff label_ok_def)
qed

lemma level_labels_distinct:
  assumes "labelsEqualFold name (level_labels k)" "labelsEqualFold name (level_labels k')" "k \<noteq> dnssdNone" "k' \<noteq> dnssdNone"
  shows "k = k'"
  using assms(1,2) unfolding level_labels_iff [OF assms(3)] level_labels_iff [OF assms(4)]
  by (cases k; cases k') auto

lemma parseDNSSD_iff:
  assumes "k \<noteq> dnssdNone"
  shows "parseDNSSD sub = (k, token) \<longleftrightarrow> token_ok token \<and>
    (\<exists>stray. lower_ascii (trim_suffix sub ''.'') =
       join_on (CHR ''.'') (level_labels k) @ (if stray then ''.'' else []) @ ''.'' @ token)"
proof (cases "CHR ''.'' \<in> set (trim_suffix sub ''.'')")
  case False
  then have "\<nexists>stray. lower_ascii (trim_suffix sub ''.'') =
       join_on (CHR ''.'') (level_labels k) @ (if stray then ''.'' else []) @ ''.'' @ token"
    using lower_dotless [OF False] by (auto split: if_splits)
  moreover have "parseDNSSD sub = (dnssdNone, [])" using False by (simp add: parseDNSSD_def last_index_byte_None [THEN iffD2])
  ultimately show ?thesis using assms by auto
next
  case True
  then obtain p t where st: "trim_suffix sub ''.'' = p @ CHR ''.'' # t" "CHR ''.'' \<notin> set t"
    by (metis split_list_last)
  have P: "parseDNSSD sub = (k, token) \<longleftrightarrow>
      token_ok token \<and> lower_ascii t = token \<and> labelsEqualFold p (level_labels k)"
    using assms st level_labels_distinct [of p k dnssdBrowse] level_labels_distinct [of p k dnssdInstanceName]
    by (cases k) (auto simp: parseDNSSD_def last_index_byte_append_sep parseToken_eq simp del: labelsEqualFold.simps)
  let ?J = "join_on (CHR ''.'') (level_labels k)"
  have D: "lower_ascii (trim_suffix sub ''.'') = ?J @ d @ ''.'' @ token \<longleftrightarrow> lower_ascii t = token \<and> lower_ascii p = ?J @ d"
    if "token_ok token" for d
    using sep_eq_iff_right [of "CHR ''.''" "lower_ascii t" token "lower_ascii p" "?J @ d"] token_no_dot [OF that] st(2)
    unfolding st(1) by auto
  show ?thesis
  proof (cases "token_ok token")
    case True
    then show ?thesis
      using D [of "''.''"] D [of "[]"] unfolding P level_labels_iff [OF assms] ex_bool_eq by auto
  qed (simp add: P)
qed

section \<open>The walk\<close>

text \<open>The name of a level, as the answers give it.\<close>

fun level_name :: "string \<Rightarrow> string \<Rightarrow> dnssdKind \<Rightarrow> string" where
  "level_name zone token dnssdNone = token @ ''.'' @ zone"
| "level_name zone token dnssdBrowse = fst (dnssdNames zone token)"
| "level_name zone token dnssdEnumerate = fst (snd (dnssdNames zone token))"
| "level_name zone token dnssdInstanceName = snd (snd (dnssdNames zone token))"

lemma level_name_eq:
  "level_name zone token k = dotted (level_labels k @ [token]) @ zone"
  by (cases k) (simp_all add: dnssdNames_def Let_def)

text \<open>What \<open>ServeDNS\<close> cuts off the name: the zone, and the dot before it.\<close>

lemma level_name_sub:
  "trim_suffix (trim_suffix (level_name zone token k) zone) ''.'' = join_on (CHR ''.'') (level_labels k @ [token])"
  unfolding level_name_eq by (simp only: trim_suffix_append) (rule trim_dotted, simp)

lemma parseDNSSD_level:
  assumes "token_ok token" and "k \<noteq> dnssdNone"
  shows "parseDNSSD (join_on (CHR ''.'') (level_labels k @ [token])) = (k, token)"
proof -
  have ne: "level_labels k \<noteq> []" using assms(2) by (cases k) auto
  have "\<not> (last token = CHR ''.'')" using token_no_dot [OF assms(1)] token_nonempty [OF assms(1)] last_in_set by metis
  then have t: "trim_suffix (join_on (CHR ''.'') (level_labels k @ [token])) ''.'' = join_on (CHR ''.'') (level_labels k @ [token])"
    using token_nonempty [OF assms(1)] by (simp add: trim_suffix_dot join_snoc [OF ne])
  have "lower_ascii (join_on (CHR ''.'') (level_labels k @ [token])) = join_on (CHR ''.'') (level_labels k) @ ''.'' @ token"
    using level_labels_plain [of k] token_lower [OF assms(1)]
    by (simp add: lower_join join_snoc [OF ne] list_all_iff map_idI)
  then show ?thesis
    using assms(1) unfolding parseDNSSD_iff [OF assms(2)] t by (intro conjI exI [of _ False]) simp_all
qed

section \<open>The three grammars of the zone\<close>

lemma query_text_not_level:
  assumes "token_ok (Token q)" and "set ns \<subseteq> set modifierOrder" and "k \<noteq> dnssdNone"
  shows "query_text q ns stray \<noteq> join_on (CHR ''.'') (level_labels k) @ CHR ''.'' # rest"
proof (cases ns)
  case Nil
  obtain c cs where "Token q = c # cs" "lower_hex c" using assms(1) by (cases "Token q") (auto simp: token_ok_def minTokenLen_def)
  then show ?thesis using Nil assms(3)
    by (cases k; cases stray) (auto simp: query_text_def lower_hex_def less_eq_char_def)
next
  case (Cons n ms)
  then have n: "n \<in> set modifierOrder" using assms(2) by simp
  define l where "l = hd (level_labels k)"
  obtain r where r: "join_on (CHR ''.'') (level_labels k) @ CHR ''.'' # rest = l @ CHR ''.'' # r" "CHR ''.'' \<notin> set l"
    using assms(3) by (cases k) (auto simp: l_def)
  have "CHR ''_'' # n \<noteq> l" using n assms(3) by (cases k) (auto simp: l_def modifierOrder_def)
  moreover have "CHR ''.'' \<notin> set (CHR ''_'' # n)" using order_names(1) [OF n] by simp
  ultimately show ?thesis
    using r sep_eq_iff [of "CHR ''.''" "CHR ''_'' # n" l] Cons unfolding query_text_def by (simp del: set_simps)
qed

text \<open>No name below the zone belongs to two of the grammars \<open>ServeDNS\<close> tries in turn.\<close>

lemma dnssd_not_query:
  assumes "fst (parseDNSSD sub) \<noteq> dnssdNone"
  shows "ParseQuery sub = None" and "\<nexists>tags. ParseKeyTagQuery sub = Inr tags"
proof -
  obtain k tok where k: "parseDNSSD sub = (k, tok)" "k \<noteq> dnssdNone" using assms by (cases "parseDNSSD sub") auto
  then obtain d where t: "lower_ascii (trim_suffix sub ''.'') = join_on (CHR ''.'') (level_labels k) @ d @ ''.'' @ tok"
    and d: "d = [] \<or> d = ''.''"
    using parseDNSSD_iff [of k sub tok] by (auto split: if_splits)
  show "ParseQuery sub = None"
  proof (rule ccontr)
    assume "ParseQuery sub \<noteq> None"
    then obtain q ns stray where q: "token_ok (Token q)" "set ns \<subseteq> set modifierOrder"
      "lower_ascii (trim_suffix sub ''.'') = query_text q ns stray"
      unfolding not_None_eq ParseQuery_iff by (auto simp: names_denote_def Query_Validate_None)
    show False
      using query_text_not_level [OF q(1,2) k(2), of stray tok] query_text_not_level [OF q(1,2) k(2), of stray "''.'' @ tok"]
        q(3) t d by auto
  qed
  have "CHR ''.'' \<in> set (lower_ascii (trim_suffix sub ''.''))" unfolding t by simp
  then have "CHR ''.'' \<in> set sub" by (auto simp: trim_suffix_dot split: if_splits dest: in_set_butlastD)
  then have "CHR ''.'' \<in> set (lower_ascii sub)" by simp
  then show "\<nexists>tags. ParseKeyTagQuery sub = Inr tags"
    unfolding ParseKeyTagQuery_iff using dot_in_tags by (auto simp del: dot_in_lower)
qed

text \<open>A single label that starts like a key tag query, well-formed or not, is no probe query.\<close>

lemma ta_label_not_query:
  assumes nd: "CHR ''.'' \<notin> set sub" and pre: "has_prefix (lower_ascii sub) keyTagPrefix"
  shows "ParseQuery sub = None"
proof (rule ccontr)
  have t: "trim_suffix sub ''.'' = sub" using last_in_set [of sub] nd by (metis trim_suffix_dot)
  assume "ParseQuery sub \<noteq> None"
  then obtain q where "ParseQuery sub = Some q" by blast
  then have "list_all lower_hex (lower_ascii sub)"
    using ParseQuery_dotless [of sub q] nd by (simp add: t Query_Validate_None token_ok_def)
  moreover have "CHR ''_'' \<in> set (lower_ascii sub)"
    using pre by (cases "lower_ascii sub") (auto simp: has_prefix_def keyTagPrefix_def)
  ultimately show False by (auto simp: list_all_iff lower_hex_def less_eq_char_def)
qed

lemma keytags_not_query:
  assumes "ParseKeyTagQuery sub \<noteq> Inl ErrNotKeyTagQuery"
  shows "ParseQuery sub = None"
  using assms ta_label_not_query [of sub] by (auto simp: ParseKeyTagQuery_def toLowerASCII_eq split: if_splits)

lemma ParseQuery_nonempty: "ParseQuery sub = Some q \<Longrightarrow> sub \<noteq> []"
  by (auto simp: ParseQuery_def trim_suffix_dot)

text \<open>A probe query reaches the last of the parsers \<open>ServeDNS\<close> tries.\<close>

lemma query_reaches_parser:
  assumes "ParseQuery sub = Some q"
  shows "fst (parseDNSSD sub) = dnssdNone" "ParseKeyTagQuery sub = Inl ErrNotKeyTagQuery" "sub \<noteq> []"
  using assms dnssd_not_query(1) [of sub] keytags_not_query [of sub] ParseQuery_nonempty [of sub q] by force+

section \<open>Properties\<close>

text \<open>
  the browse tree can be walked. For every token, the meta-query's answer names the service type; that
  name, with the zone cut off, is classified as the next level of the same token, whose answer names the instance and
  carries its SRV and TXT; the instance name is classified as the last level, which answers SRV and TXT with exactly those
  records; and no name of the tree is a probe query or a key tag query.
\<close>

lemma dnssd_walk_reaches_the_instance:
  assumes "token_ok token"
  shows "let sub = (\<lambda>n. trim_suffix (trim_suffix n zone) ''.'');
             b = fst (dnssdNames zone token); e = fst (snd (dnssdNames zone token)); i = snd (snd (dnssdNames zone token));
             ask = synthesizeDNSSD zone ns ttl in
    parseDNSSD (sub b) = (dnssdBrowse, token) \<and> parseDNSSD (sub e) = (dnssdEnumerate, token) \<and>
    parseDNSSD (sub i) = (dnssdInstanceName, token) \<and>
    (\<exists>p1 p2 srv txt. ask dnssdBrowse token TypePTR = ([p1], []) \<and> Name p1 = b \<and> Rdata p1 = PTR_rr e \<and>
       ask dnssdEnumerate token TypePTR = ([p2], [srv, txt]) \<and> Name p2 = e \<and> Rdata p2 = PTR_rr i \<and>
       ask dnssdInstanceName token TypeSRV = ([srv], []) \<and> Name srv = i \<and> Rdata srv = SRV_rr 0 0 443 ns \<and>
       ask dnssdInstanceName token TypeTXT = ([txt], []) \<and> Name txt = i) \<and>
    (\<forall>n\<in>{b, e, i}. ParseQuery (sub n) = None \<and> (\<nexists>tags. ParseKeyTagQuery (sub n) = Inr tags))"
proof -
  have lvl: "parseDNSSD (trim_suffix (trim_suffix (level_name zone token k) zone) ''.'') = (k, token)" if "k \<noteq> dnssdNone" for k
    unfolding level_name_sub using assms that by (rule parseDNSSD_level)
  have other: "ParseQuery (trim_suffix (trim_suffix (level_name zone token k) zone) ''.'') = None \<and>
      (\<nexists>tags. ParseKeyTagQuery (trim_suffix (trim_suffix (level_name zone token k) zone) ''.'') = Inr tags)"
    if "k \<noteq> dnssdNone" for k
    using dnssd_not_query [of "trim_suffix (trim_suffix (level_name zone token k) zone) ''.''"] lvl [OF that] that by auto
  show ?thesis
    using lvl [of dnssdBrowse] lvl [of dnssdEnumerate] lvl [of dnssdInstanceName]
      other [of dnssdBrowse] other [of dnssdEnumerate] other [of dnssdInstanceName]
    by (simp add: Let_def synthesizeDNSSD_def case_prod_beta)
qed

lemma dnssd_walk_reaches_the_instance_witness:
  "parseDNSSD (trim_suffix (trim_suffix (fst (snd (dnssdNames ''check.example.'' ''deadbeef''))) ''check.example.'') ''.'') =
     (dnssdEnumerate, ''deadbeef'')"
proof -
  have "token_ok ''deadbeef''" by code_simp
  from dnssd_walk_reaches_the_instance [OF this, of "''check.example.''"] show ?thesis by (simp add: Let_def)
qed

end
