(* ===== verification/Probe_Edns.thy ===== *)
theory Probe_Edns
  imports Probe_Report
begin

text \<open>
  Two EDNS options of a \<open>probe\<close> answer: the Extended DNS Error that names a deliberate fault (\<open>ede.go\<close>) and the
  zone version (\<open>zoneversion.go\<close>).
\<close>

section \<open>Extended DNS Errors\<close>

definition edeText :: string where "edeText = ''deliberate: dns measurement zone''"

definition ede :: "u16 \<Rightarrow> edns0" where
  "ede code = EDNS0_EDE code edeText"

abbreviation (input) EDEOther :: u16 where "EDEOther \<equiv> 0"
abbreviation (input) EDEDNSBogus :: u16 where "EDEDNSBogus \<equiv> 6"
abbreviation (input) EDESignatureExpired :: u16 where "EDESignatureExpired \<equiv> 7"
abbreviation (input) EDESignatureNotYetValid :: u16 where "EDESignatureNotYetValid \<equiv> 8"
abbreviation (input) EDERRSIGsMissing :: u16 where "EDERRSIGsMissing \<equiv> 10"

definition edeFor :: "Modifier \<Rightarrow> edns0 option" where
  "edeFor mods =
     (if Has mods ModExpiredSig then Some (ede EDESignatureExpired)
      else if Has mods ModFutureSig then Some (ede EDESignatureNotYetValid)
      else if Has mods ModUnsigned then Some (ede EDERRSIGsMissing)
      else if Has mods ModBadSig then Some (ede EDEDNSBogus)
      else if Has mods ModServfail then Some (ede EDEOther)
      else None)"

definition is_ede :: "edns0 \<Rightarrow> bool" where
  "is_ede e = (case e of EDNS0_EDE _ _ \<Rightarrow> True | _ \<Rightarrow> False)"

definition attachEDE :: "edns0 option \<Rightarrow> msg \<Rightarrow> msg" where
  "attachEDE e m =
     (case e of
        None \<Rightarrow> m
      | Some e' \<Rightarrow>
          (case Opt m of
             None \<Rightarrow> m
           | Some o' \<Rightarrow> if list_ex is_ede (Options o') then m else append_option e' o' m))"

section \<open>Zone version\<close>

definition zoneVersionTypeSOASerial :: byte where "zoneVersionTypeSOASerial = 0"

definition is_zoneversion :: "edns0 \<Rightarrow> bool" where
  "is_zoneversion e = (case e of EDNS0_ZONEVERSION _ \<Rightarrow> True | _ \<Rightarrow> False)"

definition requestsZoneVersion :: "msg \<Rightarrow> bool" where
  "requestsZoneVersion m =
     (case Opt m of None \<Rightarrow> False | Some o' \<Rightarrow> list_ex is_zoneversion (Options o'))"

definition buildZoneVersion :: "probe_dns \<Rightarrow> string \<Rightarrow> u32 \<Rightarrow> edns_zoneversion option" where
  "buildZoneVersion lib zone serial =
     (let z = pCanonicalName lib zone in
      if z = [] \<or> z = ''.'' then None
      else
        let labels = pCountLabel lib z in
        if labels = 0 \<or> labels > 255 then None
        else Some \<lparr>LabelCount = of_nat labels, ZVType = zoneVersionTypeSOASerial, Version = putBE32 serial\<rparr>)"

definition parseZoneVersionSerial :: "edns_zoneversion option \<Rightarrow> u32 option" where
  "parseZoneVersionSerial o' =
     (case o' of
        None \<Rightarrow> None
      | Some v \<Rightarrow>
          if ZVType v \<noteq> zoneVersionTypeSOASerial \<or> length (Version v) \<noteq> 4 then None
          else Some (getBE32 (Version v)))"

section \<open>Lemmas\<close>

lemma edeFor_is_ede: "edeFor mods = Some e \<Longrightarrow> is_ede e"
  by (auto simp: edeFor_def ede_def is_ede_def split: if_splits)

lemma append_option_sel [simp]:
  "Rcode (append_option e o' m) = Rcode m" "Answer (append_option e o' m) = Answer m" "Ns (append_option e o' m) = Ns m"
  "Truncated (append_option e o' m) = Truncated m" "Authoritative (append_option e o' m) = Authoritative m"
  "Extra (append_option e o' m) = Extra m" "Question (append_option e o' m) = Question m"
  "Opt (append_option e o' m) = Some (o'\<lparr>Options := Options o' @ [e]\<rparr>)"
  by (simp_all add: append_option_def)

text \<open>Whether or not the option is attached, the sections and codes of the message stay.\<close>

definition same_answer :: "msg \<Rightarrow> msg \<Rightarrow> bool" where
  "same_answer m m' \<longleftrightarrow> (\<exists>o'. m' = m\<lparr>Opt := o'\<rparr>) \<and> (Opt m' = None \<longleftrightarrow> Opt m = None)"

lemma same_answer_refl [simp]: "same_answer m m"
  by (auto simp: same_answer_def intro: exI [of _ "Opt m"])

lemma same_answer_trans: "same_answer a b \<Longrightarrow> same_answer b c \<Longrightarrow> same_answer a c"
  by (auto simp: same_answer_def)

lemma same_answerD:
  assumes "same_answer m m'"
  shows "Rcode m' = Rcode m" "Answer m' = Answer m" "Ns m' = Ns m" "Truncated m' = Truncated m"
    "Authoritative m' = Authoritative m" "Extra m' = Extra m" "Question m' = Question m" "Id m' = Id m"
  using assms by (auto simp: same_answer_def)

lemma same_answer_append: "Opt m = Some o' \<Longrightarrow> same_answer m (append_option e o' m)"
  by (auto simp: same_answer_def append_option_def)

lemma same_answer_EDE: "same_answer m (attachEDE e m)"
  by (auto simp: attachEDE_def same_answer_append split: option.split)

lemma same_answer_channel: "same_answer m (attachReportChannel lib d m)"
  by (auto simp: attachReportChannel_def same_answer_append split: option.split)

text \<open>A version that was built is read back, for every zone but the root.\<close>

lemma zone_version_round_trip:
  assumes "buildZoneVersion lib zone serial = Some v"
  shows "parseZoneVersionSerial (Some v) = Some serial \<and> unat (LabelCount v) = pCountLabel lib (pCanonicalName lib zone)"
  using assms
  by (auto simp: buildZoneVersion_def parseZoneVersionSerial_def Let_def unat_of_nat split: if_splits)

end
