(* ===== verification/Probe_Metrics.thy ===== *)
theory Probe_Metrics
  imports Probe_Observe
begin

text \<open>
  The aggregate counters of the \<open>probe\<close> plugin (\<open>metrics.go\<close>). A counter is the vector it belongs to and its label
  values, which is what \<open>WithLabelValues\<close> returns a child for; the two caches of resolved children are arrays of optional
  counters. The transport is one of the five the plugin assigns, so the index of an unknown one does not arise.
\<close>

section \<open>Labels\<close>

fun Transport_text :: "Transport \<Rightarrow> string" where
  "Transport_text TransportUDP = ''udp''"
| "Transport_text TransportTCP = ''tcp''"
| "Transport_text TransportTLS = ''tls''"
| "Transport_text TransportQUIC = ''quic''"
| "Transport_text TransportHTTP = ''https''"

definition boolStr :: "bool \<Rightarrow> string" where
  "boolStr v = (if v then ''1'' else ''0'')"

abbreviation (input) labelYes :: string where "labelYes \<equiv> ''yes''"
abbreviation (input) labelUnknown :: string where "labelUnknown \<equiv> ''unknown''"
abbreviation (input) labelInet :: string where "labelInet \<equiv> ''inet''"
abbreviation (input) labelInet6 :: string where "labelInet6 \<equiv> ''inet6''"
abbreviation (input) labelOther :: string where "labelOther \<equiv> ''other''"

definition delegLabel :: "Observation \<Rightarrow> string" where
  "delegLabel obs = (if \<not> oEDNS obs then labelUnknown else if oDELEGAware obs then ''aware'' else ''unaware'')"

definition ecsLabel :: "Observation \<Rightarrow> string" where
  "ecsLabel obs = (if \<not> oECS obs then ''silent'' else if oECSScope obs = 0 then ''declined'' else ''disclosed'')"

definition familyLabel :: "Observation \<Rightarrow> string" where
  "familyLabel obs = (if oIPv6 obs then labelInet6 else labelInet)"

abbreviation (input) ianaAFIPv6 :: u16 where "ianaAFIPv6 \<equiv> 2"

definition ecsFamilyLabel :: "u16 \<Rightarrow> string" where
  "ecsFamilyLabel family = (if family = 1 then labelInet else if family = ianaAFIPv6 then labelInet6 else labelOther)"

section \<open>Counters and their caches\<close>

datatype metric_vec =
  probeObservations | probeEncrypted | probeKeyTagQueries | probeKeyTagKnowledge | probeReports | probeReportsRejected

type_synonym counter = "metric_vec \<times> string list"

text \<open>What a request does to the metrics: increments, and samples of the prefix-length histogram.\<close>

datatype metric_event = Inc counter | ECSPrefixBits string nat

record counter_cache =
  observationCounters :: "counter option list"
  cleartextCounters :: "counter option list"

abbreviation (input) transportKinds :: nat where "transportKinds \<equiv> 5"
abbreviation (input) familyKinds :: nat where "familyKinds \<equiv> 2"
abbreviation (input) flagKinds :: nat where "flagKinds \<equiv> 2"
abbreviation (input) delegKinds :: nat where "delegKinds \<equiv> 3"
abbreviation (input) ecsKinds :: nat where "ecsKinds \<equiv> 3"

definition observationKinds :: nat where
  "observationKinds = transportKinds * familyKinds * flagKinds * flagKinds * delegKinds * ecsKinds * flagKinds"

definition empty_cache :: counter_cache where
  "empty_cache = \<lparr>observationCounters = replicate observationKinds None, cleartextCounters = replicate transportKinds None\<rparr>"

fun transportIndex :: "Transport \<Rightarrow> nat" where
  "transportIndex TransportUDP = 0"
| "transportIndex TransportTCP = 1"
| "transportIndex TransportTLS = 2"
| "transportIndex TransportQUIC = 3"
| "transportIndex TransportHTTP = 4"

definition flagIndex :: "bool \<Rightarrow> nat" where
  "flagIndex v = (if v then 1 else 0)"

definition delegIndex :: "Observation \<Rightarrow> nat" where
  "delegIndex obs = (if \<not> oEDNS obs then 0 else if oDELEGAware obs then 1 else 2)"

definition ecsIndex :: "Observation \<Rightarrow> nat" where
  "ecsIndex obs = (if \<not> oECS obs then 0 else if oECSScope obs = 0 then 1 else 2)"

text \<open>The child a counter's labels resolve to, and the slot it is cached in.\<close>

definition observation_labels :: "Observation \<Rightarrow> counter" where
  "observation_labels obs =
     (probeObservations,
      [Transport_text (oTransport obs), familyLabel obs, boolStr (oDO obs), boolStr (oCompactAware obs),
       delegLabel obs, ecsLabel obs, boolStr (oZoneVersionAsked obs)])"

definition observation_index :: "Observation \<Rightarrow> nat" where
  "observation_index obs =
     (let idx = transportIndex (oTransport obs);
          idx = idx * familyKinds + flagIndex (oIPv6 obs);
          idx = idx * flagKinds + flagIndex (oDO obs);
          idx = idx * flagKinds + flagIndex (oCompactAware obs);
          idx = idx * delegKinds + delegIndex obs;
          idx = idx * ecsKinds + ecsIndex obs;
          idx = idx * flagKinds + flagIndex (oZoneVersionAsked obs) in idx)"

definition cachedCounter :: "counter option list \<Rightarrow> nat \<Rightarrow> counter \<Rightarrow> counter option list \<times> counter" where
  "cachedCounter slots i lookup =
     (case slots ! i of Some c \<Rightarrow> (slots, c) | None \<Rightarrow> (slots[i := Some lookup], lookup))"

definition observationCounter :: "Observation \<Rightarrow> counter_cache \<Rightarrow> counter_cache \<times> counter" where
  "observationCounter obs cc =
     (let (slots, c) = cachedCounter (observationCounters cc) (observation_index obs) (observation_labels obs) in
      (cc\<lparr>observationCounters := slots\<rparr>, c))"

definition encrypted_labels :: "Observation \<Rightarrow> counter" where
  "encrypted_labels obs =
     (let (version, group, resumed) =
            (case oTLS obs of None \<Rightarrow> ([], [], [])
             | Some i \<Rightarrow> (TVersion i, TNamedGroup i, boolStr (TDidResume i))) in
      (probeEncrypted, [Transport_text (oTransport obs), boolStr (Encrypted obs), version, group, resumed]))"

definition encryptedCounter :: "Observation \<Rightarrow> counter_cache \<Rightarrow> counter_cache \<times> counter" where
  "encryptedCounter obs cc =
     (if oTLS obs \<noteq> None then (cc, encrypted_labels obs)
      else
        let (slots, c) = cachedCounter (cleartextCounters cc) (transportIndex (oTransport obs)) (encrypted_labels obs) in
        (cc\<lparr>cleartextCounters := slots\<rparr>, c))"

definition recordMetrics :: "Observation \<Rightarrow> counter_cache \<Rightarrow> counter_cache \<times> metric_event list" where
  "recordMetrics obs cc0 =
     (let (cc1, c1) = observationCounter obs cc0;
          bits = (if oECS obs \<and> oECSScope obs > 0 then [ECSPrefixBits (ecsFamilyLabel (oECSFamily obs)) (unat (oECSScope obs))]
                  else []);
          (cc2, c2) = encryptedCounter obs cc1;
          tags = (if oKeyTags obs \<noteq> []
                  then [Inc (probeKeyTagKnowledge, [''edns'', if oKnowsZoneKey obs then labelYes else ''no''])] else []) in
      (cc2, [Inc c1] @ bits @ [Inc c2] @ tags))"

section \<open>The caches\<close>

lemma index_bounds:
  "transportIndex t < transportKinds" "flagIndex v < flagKinds" "delegIndex obs < delegKinds" "ecsIndex obs < ecsKinds"
  by (cases t) (simp_all add: flagIndex_def delegIndex_def ecsIndex_def)

lemma mixed_radix_bound: "a < m \<Longrightarrow> b < n \<Longrightarrow> a * n + b < m * (n :: nat)"
proof -
  assume "a < m" "b < n"
  then have "a * n + b < Suc a * n" by simp
  also have "\<dots> \<le> m * n" using \<open>a < m\<close> by (intro mult_right_mono) auto
  finally show ?thesis .
qed

lemma mixed_radix_inj: "b < n \<Longrightarrow> b' < (n :: nat) \<Longrightarrow> a * n + b = a' * n + b' \<longleftrightarrow> a = a' \<and> b = b'"
proof
  assume b: "b < n" "b' < n" and e: "a * n + b = a' * n + b'"
  have "(a * n + b) div n = a" "(a' * n + b') div n = a'" using b by simp_all
  then have "a = a'" using e by simp
  then show "a = a' \<and> b = b'" using e by simp
qed simp

lemma observation_index_bound: "observation_index obs < observationKinds"
  unfolding observation_index_def observationKinds_def Let_def
  by (intro mixed_radix_bound index_bounds)

text \<open>The index determines the labels: no two series share a slot.\<close>

lemma transportIndex_inj: "transportIndex t = transportIndex t' \<longleftrightarrow> t = t'"
  by (cases t; cases t') simp_all

lemma index_labels:
  "flagIndex v = flagIndex v' \<longleftrightarrow> v = v'"
  "oIPv6 o1 = oIPv6 o2 \<Longrightarrow> familyLabel o1 = familyLabel o2"
  "delegIndex o1 = delegIndex o2 \<Longrightarrow> delegLabel o1 = delegLabel o2"
  "ecsIndex o1 = ecsIndex o2 \<Longrightarrow> ecsLabel o1 = ecsLabel o2"
  by (simp_all add: flagIndex_def delegIndex_def ecsIndex_def familyLabel_def delegLabel_def ecsLabel_def split: if_splits)

lemma observation_index_labels:
  assumes "observation_index o1 = observation_index o2"
  shows "observation_labels o1 = observation_labels o2"
proof -
  have "(((((transportIndex (oTransport o1) = transportIndex (oTransport o2) \<and> flagIndex (oIPv6 o1) = flagIndex (oIPv6 o2)) \<and>
    flagIndex (oDO o1) = flagIndex (oDO o2)) \<and> flagIndex (oCompactAware o1) = flagIndex (oCompactAware o2)) \<and>
    delegIndex o1 = delegIndex o2) \<and> ecsIndex o1 = ecsIndex o2) \<and>
    flagIndex (oZoneVersionAsked o1) = flagIndex (oZoneVersionAsked o2)"
    using assms unfolding observation_index_def Let_def
    by (simp only: mixed_radix_inj [OF index_bounds(2) index_bounds(2)] mixed_radix_inj [OF index_bounds(3) index_bounds(3)]
        mixed_radix_inj [OF index_bounds(4) index_bounds(4)])
  then have e: "oTransport o1 = oTransport o2" "oIPv6 o1 = oIPv6 o2" "oDO o1 = oDO o2"
    "oCompactAware o1 = oCompactAware o2" "oZoneVersionAsked o1 = oZoneVersionAsked o2"
    "delegIndex o1 = delegIndex o2" "ecsIndex o1 = ecsIndex o2"
    by (simp_all only: index_labels(1) transportIndex_inj)
  show ?thesis
    unfolding observation_labels_def e index_labels(2) [OF e(2)] index_labels(3) [OF e(6)] index_labels(4) [OF e(7)] ..
qed

definition cache_ok :: "counter_cache \<Rightarrow> bool" where
  "cache_ok cc \<longleftrightarrow>
     length (observationCounters cc) = observationKinds \<and> length (cleartextCounters cc) = transportKinds \<and>
     (\<forall>obs c. observationCounters cc ! observation_index obs = Some c \<longrightarrow> c = observation_labels obs) \<and>
     (\<forall>obs c. oTLS obs = None \<and> cleartextCounters cc ! transportIndex (oTransport obs) = Some c \<longrightarrow> c = encrypted_labels obs)"

lemma cache_okD:
  "cache_ok cc \<Longrightarrow> observationCounters cc ! observation_index obs = Some c \<Longrightarrow> c = observation_labels obs"
  "cache_ok cc \<Longrightarrow> oTLS obs = None \<Longrightarrow> cleartextCounters cc ! transportIndex (oTransport obs) = Some c \<Longrightarrow> c = encrypted_labels obs"
  "cache_ok cc \<Longrightarrow> length (observationCounters cc) = observationKinds"
  "cache_ok cc \<Longrightarrow> length (cleartextCounters cc) = transportKinds"
  unfolding cache_ok_def by blast+

lemma cache_ok_empty: "cache_ok empty_cache"
  using observation_index_bound index_bounds(1) by (simp add: cache_ok_def empty_cache_def)

lemma observationCounter_exact:
  assumes "cache_ok cc"
  shows "snd (observationCounter obs cc) = observation_labels obs" and "cache_ok (fst (observationCounter obs cc))"
proof -
  let ?i = "observation_index obs"
  have "observationCounters cc ! ?i \<in> {None, Some (observation_labels obs)}"
    by (cases "observationCounters cc ! ?i") (auto dest: cache_okD(1) [OF assms])
  moreover have "cache_ok (cc\<lparr>observationCounters := (observationCounters cc)[?i := Some (observation_labels obs)]\<rparr>)"
    unfolding cache_ok_def
  proof (intro conjI allI impI)
    fix o' c assume "observationCounters (cc\<lparr>observationCounters := (observationCounters cc)[?i := Some (observation_labels obs)]\<rparr>) !
        observation_index o' = Some c"
    then show "c = observation_labels o'"
      using cache_okD(1,3) [OF assms] observation_index_bound [of obs] observation_index_labels [of obs o']
      by (cases "observation_index o' = ?i") auto
  qed (use cache_okD [OF assms] in auto)
  ultimately show "snd (observationCounter obs cc) = observation_labels obs" "cache_ok (fst (observationCounter obs cc))"
    using assms by (auto simp: observationCounter_def cachedCounter_def)
qed

lemma cleartext_labels:
  "oTLS o1 = None \<Longrightarrow> oTLS o2 = None \<Longrightarrow> transportIndex (oTransport o1) = transportIndex (oTransport o2) \<Longrightarrow>
     encrypted_labels o1 = encrypted_labels o2"
  by (simp add: encrypted_labels_def transportIndex_inj Encrypted_def)

lemma encryptedCounter_exact:
  assumes "cache_ok cc"
  shows "snd (encryptedCounter obs cc) = encrypted_labels obs" and "cache_ok (fst (encryptedCounter obs cc))"
proof -
  let ?i = "transportIndex (oTransport obs)"
  have "cleartextCounters cc ! ?i \<in> {None, Some (encrypted_labels obs)}" if "oTLS obs = None"
    using that by (cases "cleartextCounters cc ! ?i") (auto dest: cache_okD(2) [OF assms])
  moreover have "cache_ok (cc\<lparr>cleartextCounters := (cleartextCounters cc)[?i := Some (encrypted_labels obs)]\<rparr>)"
    if "oTLS obs = None"
    unfolding cache_ok_def
  proof (intro conjI allI impI)
    fix o' :: Observation and c assume "oTLS o' = None \<and> cleartextCounters (cc\<lparr>cleartextCounters := (cleartextCounters cc)[?i := Some (encrypted_labels obs)]\<rparr>) !
        transportIndex (oTransport o') = Some c"
    then show "c = encrypted_labels o'"
      using cache_okD(2,4) [OF assms] index_bounds(1) [of "oTransport obs"] cleartext_labels [OF that, of o']
      by (cases "transportIndex (oTransport o') = ?i") auto
  qed (use cache_okD [OF assms] in auto)
  ultimately show "snd (encryptedCounter obs cc) = encrypted_labels obs" "cache_ok (fst (encryptedCounter obs cc))"
    using assms by (auto simp: encryptedCounter_def cachedCounter_def)
qed

text \<open>What an observation increments when every child is looked up by its labels.\<close>

definition direct_metrics :: "Observation \<Rightarrow> metric_event list" where
  "direct_metrics obs =
     [Inc (observation_labels obs)] @
     (if ecsLabel obs = ''disclosed'' then [ECSPrefixBits (ecsFamilyLabel (oECSFamily obs)) (unat (oECSScope obs))] else []) @
     [Inc (encrypted_labels obs)] @
     (if oKeyTags obs \<noteq> [] then [Inc (probeKeyTagKnowledge, [''edns'', if oKnowsZoneKey obs then ''yes'' else ''no''])] else [])"

lemma recordMetrics_direct:
  assumes "cache_ok cc"
  shows "cache_ok (fst (recordMetrics obs cc))" and "snd (recordMetrics obs cc) = direct_metrics obs"
proof -
  have "oECS obs \<and> oECSScope obs > 0 \<longleftrightarrow> ecsLabel obs = ''disclosed''"
    by (simp add: ecsLabel_def word_neq_0_conv)
  then show "cache_ok (fst (recordMetrics obs cc))" "snd (recordMetrics obs cc) = direct_metrics obs"
    using observationCounter_exact [OF assms, of obs]
      encryptedCounter_exact [of "fst (observationCounter obs cc)" obs]
    by (simp_all add: recordMetrics_def direct_metrics_def case_prod_beta Let_def)
qed

text \<open>
  C39: the counter caches are invisible. After any sequence of observations, starting from empty caches, an
  observation increments exactly the series its labels name: the observation series, the encryption series and, when
  trust-anchor tags were sent, the knowledge series; and it samples the prefix length exactly for a disclosed subnet.
\<close>

theorem counter_caches_are_invisible:
  "snd (recordMetrics obs (fold (\<lambda>x cc. fst (recordMetrics x cc)) history empty_cache)) = direct_metrics obs"
proof -
  have "cache_ok (fold (\<lambda>x cc. fst (recordMetrics x cc)) history cc)" if "cache_ok cc" for cc
    using that by (induction history arbitrary: cc) (simp_all add: recordMetrics_direct)
  then show ?thesis using recordMetrics_direct(2) cache_ok_empty by blast
qed

end
