(* ===== verification/Probe_Summary.thy ===== *)
theory Probe_Summary
  imports Probe_Metrics
begin

text \<open>
  The in-band readout of an observation: \<open>Observation.Summary\<close> (\<open>observe.go\<close>) and what becomes of it in a TXT
  record, \<open>pad\<close> and \<open>chunk\<close> (\<open>probe.go\<close>). The text forms of addresses and prefixes are those of \<open>net/netip\<close>.
\<close>

section \<open>Addresses and prefixes as text\<close>

text \<open>\<open>AppendTo\<close> of an address: dotted quads, and RFC 5952 with the first longest run of zero groups contracted.\<close>

fun hex_text :: "nat \<Rightarrow> string" where
  "hex_text n = (if n < 16 then [hex_digit n] else hex_text (n div 16) @ [hex_digit (n mod 16)])"

declare hex_text.simps [simp del]

definition quad_text :: "32 word \<Rightarrow> string" where
  "quad_text w = join_on (CHR ''.'') (map (\<lambda>b. itoa (unat b)) (be_bytes 4 w))"

definition v6_groups :: "128 word \<Rightarrow> nat list" where
  "v6_groups w = map (\<lambda>i. unat (drop_bit (16 * (7 - i)) w) mod 65536) [0..<8]"

definition zero_run :: "nat list \<Rightarrow> nat \<times> nat" where
  "zero_run gs =
     fold (\<lambda>i (s, e). let j = i + length (takeWhile (\<lambda>g. g = 0) (drop i gs)); l = j - i in
             if l \<ge> 2 \<and> l > e - s then (i, j) else (s, e)) [0..<8] (255, 255)"

definition groups_text :: "nat list \<Rightarrow> string" where
  "groups_text gs = join_on (CHR '':'') (map hex_text gs)"

definition v6_text :: "128 word \<Rightarrow> string" where
  "v6_text w =
     (let gs = v6_groups w; (s, e) = zero_run gs in
      if s = 255 then groups_text gs else groups_text (take s gs) @ ''::'' @ groups_text (drop e gs))"

definition zone_text :: "string \<Rightarrow> string" where
  "zone_text z = (if z = [] then [] else ''%'' @ z)"

fun addr_text :: "addr \<Rightarrow> string" where
  "addr_text AddrZero = []"
| "addr_text (Addr4 w) = quad_text w"
| "addr_text (Addr6 w z) =
     (if Is4In6 (Addr6 w z) then ''::ffff:'' @ quad_text (ucast w) @ zone_text z else v6_text w @ zone_text z)"

definition prefix_text :: "prefix \<Rightarrow> string" where
  "prefix_text p =
     (if p = zero_prefix then []
      else if \<not> prefix_valid p then ''invalid Prefix''
      else addr_text (PAddr p) @ ''/'' @ itoa (nat (Bits p)))"

section \<open>The readout\<close>

definition appendFlag :: "string \<Rightarrow> bool \<Rightarrow> string \<Rightarrow> string" where
  "appendFlag key v b = b @ key @ boolStr v"

definition appendTLSSummary :: "TLSInfo option \<Rightarrow> string \<Rightarrow> string" where
  "appendTLSSummary tls b =
     (case tls of
        None \<Rightarrow> b
      | Some i \<Rightarrow>
          let b = b @ '' tls='' @ filter (\<lambda>c. c \<noteq> CHR '' '') (TVersion i);
              b = (if TNamedGroup i \<noteq> [] then b @ '' group='' @ TNamedGroup i else b) in
          appendFlag '' resumed='' (TDidResume i) b)"

definition Summary :: "Observation \<Rightarrow> string" where
  "Summary obs =
     (let b = ''resolver='' @ addr_text (oResolverAddr obs);
          b = b @ '' prefix='' @ prefix_text (oResolverPrefix obs);
          b = b @ '' proto='' @ Transport_text (oTransport obs);
          b = appendFlag '' ipv6='' (oIPv6 obs) b;
          b = appendFlag '' edns='' (oEDNS obs) b;
          b = appendFlag '' do='' (oDO obs) b;
          b = b @ '' bufsize='' @ itoa (unat (oUDPSize obs));
          b = appendFlag '' cookie='' (oCookie obs) b;
          b = appendFlag '' ecs='' (oECS obs) b;
          b = b @ '' ecs_src='' @ itoa (unat (oECSScope obs));
          b = (if prefix_valid (oECSPrefix obs) then b @ '' ecs_prefix='' @ prefix_text (oECSPrefix obs) else b);
          b = appendFlag '' co='' (oCompactAware obs) b;
          b = appendFlag '' deleg='' (oDELEGAware obs) b;
          b = appendFlag '' zoneversion='' (oZoneVersionAsked obs) b;
          b = appendFlag '' encrypted='' (Encrypted obs) b;
          b = appendTLSSummary (oTLS obs) b;
          b = appendFlag '' case0x20='' (oCaseRandomized obs) b in
      b @ '' seen='' @ itoa (oSeen obs))"

function chunk_loop :: "string \<Rightarrow> string list" where
  "chunk_loop s = (if length s > 255 then take 255 s # chunk_loop (drop 255 s) else if s \<noteq> [] then [s] else [])"
  by pat_completeness auto

termination chunk_loop
  by (relation "measure length") auto

declare chunk_loop.simps [simp del]

definition chunk :: "string \<Rightarrow> string list" where
  "chunk s = (if length s \<le> 255 then [s] else chunk_loop s)"

definition pad :: "string \<Rightarrow> int \<Rightarrow> string" where
  "pad s sz =
     (if sz \<le> int (length s) then s
      else let b = s @ '' pad='' in b @ replicate (nat (sz - int (length b))) (CHR ''x''))"

section \<open>Strings of a TXT record\<close>

lemma chunk_loop_spec: "concat (chunk_loop s) = s \<and> (\<forall>c\<in>set (chunk_loop s). c \<noteq> [] \<and> length c \<le> 255)"
proof (induction s rule: chunk_loop.induct)
  case (1 s)
  show ?case
  proof (cases "length s > 255")
    case True
    then have "concat (chunk_loop (drop 255 s)) = drop 255 s" "\<forall>c\<in>set (chunk_loop (drop 255 s)). c \<noteq> [] \<and> length c \<le> 255"
      using 1 by blast+
    moreover have "take 255 s \<noteq> []" using True by auto
    ultimately show ?thesis using True by (subst (1 2) chunk_loop.simps) simp
  next
    case False
    then show ?thesis by (subst (1 2) chunk_loop.simps) simp
  qed
qed

lemma chunk_spec: "concat (chunk s) = s" "c \<in> set (chunk s) \<Longrightarrow> length c \<le> 255" "chunk s \<noteq> []"
proof -
  show "concat (chunk s) = s" "c \<in> set (chunk s) \<Longrightarrow> length c \<le> 255"
    using chunk_loop_spec [of s] by (auto simp: chunk_def split: if_splits)
  show "chunk s \<noteq> []" using chunk_loop_spec [of s] by (cases "chunk_loop s") (auto simp: chunk_def)
qed

section \<open>The readout as fields\<close>

text \<open>The fields of a readout, in order; a reader gets them by splitting at spaces.\<close>

definition flag_field :: "string \<Rightarrow> bool \<Rightarrow> string" where
  "flag_field key v = key @ ''='' @ boolStr v"

definition tls_fields :: "TLSInfo option \<Rightarrow> string list" where
  "tls_fields tls =
     (case tls of None \<Rightarrow> []
      | Some i \<Rightarrow> [''tls='' @ filter (\<lambda>c. c \<noteq> CHR '' '') (TVersion i)] @
          (if TNamedGroup i \<noteq> [] then [''group='' @ TNamedGroup i] else []) @ [flag_field ''resumed'' (TDidResume i)])"

definition summary_fields :: "Observation \<Rightarrow> string list" where
  "summary_fields obs =
     [''resolver='' @ addr_text (oResolverAddr obs), ''prefix='' @ prefix_text (oResolverPrefix obs),
      ''proto='' @ Transport_text (oTransport obs), flag_field ''ipv6'' (oIPv6 obs), flag_field ''edns'' (oEDNS obs),
      flag_field ''do'' (oDO obs), ''bufsize='' @ itoa (unat (oUDPSize obs)), flag_field ''cookie'' (oCookie obs),
      flag_field ''ecs'' (oECS obs), ''ecs_src='' @ itoa (unat (oECSScope obs))] @
     (if prefix_valid (oECSPrefix obs) then [''ecs_prefix='' @ prefix_text (oECSPrefix obs)] else []) @
     [flag_field ''co'' (oCompactAware obs), flag_field ''deleg'' (oDELEGAware obs),
      flag_field ''zoneversion'' (oZoneVersionAsked obs), flag_field ''encrypted'' (Encrypted obs)] @
     tls_fields (oTLS obs) @ [flag_field ''case0x20'' (oCaseRandomized obs), ''seen='' @ itoa (oSeen obs)]"

definition no_space :: "string \<Rightarrow> bool" where
  "no_space s \<longleftrightarrow> CHR '' '' \<notin> set s"

lemma no_space_simps [simp]:
  "no_space []" "no_space (c # s) \<longleftrightarrow> c \<noteq> CHR '' '' \<and> no_space s" "no_space (s @ t) \<longleftrightarrow> no_space s \<and> no_space t"
  by (auto simp: no_space_def)

lemma no_space_join: "no_space (join_on c ls) \<longleftrightarrow> list_all no_space ls \<and> (1 < length ls \<longrightarrow> c \<noteq> CHR '' '')"
  by (induction c ls rule: join_on.induct) auto

lemma no_space_itoa [simp]: "no_space (itoa n)"
  using itoa_digits [of "CHR '' ''" n] by (auto simp: no_space_def less_eq_char_def)

lemma no_space_hex_text [simp]: "no_space (hex_text n)"
proof (induction n rule: hex_text.induct)
  case (1 n)
  have "hex_digit d \<noteq> CHR '' ''" if "d < 16" for d using of_char_hex_digit [OF that] by (auto split: if_splits)
  then show ?case using 1 by (subst hex_text.simps) simp
qed

lemma no_space_addr: "no_space (Zone a) \<Longrightarrow> no_space (addr_text a)"
  by (cases a)
    (simp_all add: quad_text_def v6_text_def groups_text_def zone_text_def no_space_join list_all_iff case_prod_beta Let_def)

definition obs_plain :: "Observation \<Rightarrow> bool" where
  "obs_plain obs \<longleftrightarrow> no_space (Zone (oResolverAddr obs)) \<and> prefix_valid (oResolverPrefix obs) \<and>
     no_space (Zone (PAddr (oResolverPrefix obs))) \<and> no_space (Zone (PAddr (oECSPrefix obs))) \<and>
     (case oTLS obs of None \<Rightarrow> True | Some i \<Rightarrow> no_space (TNamedGroup i))"

lemma no_space_prefix: "prefix_valid p \<Longrightarrow> no_space (Zone (PAddr p)) \<Longrightarrow> no_space (prefix_text p)"
  by (simp add: prefix_text_def no_space_addr)

lemma no_space_text [simp]: "no_space (boolStr v)" "no_space (Transport_text t)" "no_space (filter (\<lambda>c. c \<noteq> CHR '' '') s)"
proof -
  show "no_space (Transport_text t)" by (cases t) simp_all
qed (auto simp: boolStr_def no_space_def)

lemma summary_fields_plain: "obs_plain obs \<Longrightarrow> list_all no_space (summary_fields obs)"
  by (auto simp: obs_plain_def summary_fields_def flag_field_def tls_fields_def no_space_addr no_space_prefix split: option.splits)

lemma Summary_join: "Summary obs = join_on (CHR '' '') (summary_fields obs)"
  by (cases "oTLS obs")
    (simp_all add: Summary_def summary_fields_def appendFlag_def appendTLSSummary_def tls_fields_def flag_field_def Let_def)

lemma pad_fields:
  assumes "int (length s) < sz"
  shows "\<exists>k. pad s sz = s @ '' pad='' @ replicate k (CHR ''x'')"
  using assms by (auto simp: pad_def Let_def)

lemma length_pad: "int (length s) + 5 \<le> sz \<Longrightarrow> int (length (pad s sz)) = sz"
  by (simp add: pad_def)

text \<open>
  the TXT answer can be read back. Whatever the padding, no string of the record is longer than an octet can
  count; joined, they are a list of space-separated fields, which are the fields of the observation in their order,
  followed by at most one field of padding. In particular a TLS version, which the standard library names with a space,
  does not break a field in two.
\<close>

lemma readout_is_recoverable:
  assumes "obs_plain obs"
  shows "let txt = chunk (pad (Summary obs) n) in
    txt \<noteq> [] \<and> (\<forall>c\<in>set txt. length c \<le> 255) \<and>
    (\<exists>k. split_on (CHR '' '') (concat txt) =
       summary_fields obs @ (if n \<le> int (length (Summary obs)) then [] else [''pad='' @ replicate k (CHR ''x'')]))"
proof -
  have ne: "summary_fields obs \<noteq> []" by (simp add: summary_fields_def)
  have sp: "split_on (CHR '' '') (join_on (CHR '' '') ls) = ls" if "ls \<noteq> []" "list_all no_space ls" for ls
    using that split_join [of ls "CHR '' ''"] by (auto simp: list_all_iff no_space_def)
  have fields: "split_on (CHR '' '') (pad (Summary obs) n) =
      summary_fields obs @ (if n \<le> int (length (Summary obs)) then [] else [''pad='' @ replicate k (CHR ''x'')])"
    if "n \<le> int (length (Summary obs)) \<or> pad (Summary obs) n = Summary obs @ '' pad='' @ replicate k (CHR ''x'')" for k
  proof (cases "n \<le> int (length (Summary obs))")
    case True
    then show ?thesis using sp [OF ne summary_fields_plain [OF assms]] by (simp add: pad_def Summary_join)
  next
    case False
    let ?f = "''pad='' @ replicate k (CHR ''x'')"
    have "pad (Summary obs) n = join_on (CHR '' '') (summary_fields obs @ [?f])"
      using that False join_snoc [OF ne] by (simp add: Summary_join)
    moreover have "list_all no_space (summary_fields obs @ [?f])"
      using summary_fields_plain [OF assms] by (simp add: no_space_def)
    ultimately show ?thesis using False sp [of "summary_fields obs @ [?f]"] by simp
  qed
  obtain k where "n \<le> int (length (Summary obs)) \<or> pad (Summary obs) n = Summary obs @ '' pad='' @ replicate k (CHR ''x'')"
    using pad_fields [of "Summary obs" n] by (cases "n \<le> int (length (Summary obs))") (auto simp: not_le)
  note this [THEN fields]
  then show ?thesis
    unfolding Let_def chunk_spec(1) using chunk_spec(2,3) by blast
qed

text \<open>A readout over TLS 1.3, padded.\<close>

definition example_tls_obs :: Observation where
  "example_tls_obs =
     \<lparr>oAt = 0, oResolverAddr = Addr6 (push_bit 96 0x20010db8) [],
      oTLS = Some \<lparr>TVersion = ''TLS 1.3'', TCipherSuite = [], TNamedGroup = ''X25519'', TServerName = [], TDidResume = False\<rparr>,
      oResolverPrefix = \<lparr>PAddr = Addr6 (push_bit 96 0x20010db8) [], Bits = 56\<rparr>, oECSPrefix = zero_prefix,
      oToken = ''deadbeef'', oQtype = ''TXT'', oMods = [], oTransport = TransportTLS, oKeyTags = [], oSeen = 2, oECSFamily = 0,
      oUDPSize = 1232, oIPv6 = True, oECSScope = 0, oECS = False, oCookie = False, oDELEGAware = False, oEDNS = True,
      oKnowsZoneKey = False, oZoneVersionAsked = False, oCompactAware = False, oCaseRandomized = False, oDO = True\<rparr>"

lemma example_addr_text: "addr_text (Addr6 (push_bit 96 0x20010db8) []) = ''2001:db8::''"
proof -
  have g: "v6_groups (push_bit 96 0x20010db8) = [0x2001, 0xdb8, 0, 0, 0, 0, 0, 0]" by (simp add: v6_groups_def upt_rec)
  have z: "zero_run [0x2001, 0xdb8, 0, 0, 0, 0, 0, 0] = (2, 8)" by code_simp
  have "map hex_digit [0, 1, 2, 8, 11, 13] = ''0128bd''" by code_simp
  then have h: "hex_text 0x2001 = ''2001''" "hex_text 0xdb8 = ''db8''" by (simp_all add: hex_text.simps)
  have n: "\<not> Is4In6 (Addr6 (push_bit 96 0x20010db8) [])" by simp
  show ?thesis
    unfolding addr_text.simps v6_text_def g Let_def z using n h by (simp add: groups_text_def zone_text_def del: Is4In6.simps)
qed

lemma example_tls_text:
  "Summary example_tls_obs =
     ''resolver=2001:db8:: prefix=2001:db8::/56 proto=tls ipv6=1 edns=1 do=1 bufsize=1232 cookie=0 ecs=0 ecs_src=0'' @
     '' co=0 deleg=0 zoneversion=0 encrypted=1 tls=TLS1.3 group=X25519 resumed=0 case0x20=0 seen=2''"
proof -
  have "itoa 1232 = ''1232''" "itoa 56 = ''56''" "itoa 0 = ''0''" "itoa 2 = ''2''" by code_simp+
  then show ?thesis
    using example_addr_text
    by (simp add: Summary_def example_tls_obs_def prefix_text_def prefix_valid_def zero_prefix_def appendFlag_def
        appendTLSSummary_def boolStr_def Encrypted_def Let_def del: addr_text.simps)
qed

lemma readout_is_recoverable_witness:
  "let txt = chunk (pad (Summary example_tls_obs) 1400) in
   txt \<noteq> [] \<and> (\<exists>k. split_on (CHR '' '') (concat txt) = summary_fields example_tls_obs @ [''pad='' @ replicate k (CHR ''x'')])"
proof -
  have "obs_plain example_tls_obs" by (simp add: obs_plain_def example_tls_obs_def prefix_valid_def zero_prefix_def)
  moreover have "\<not> 1400 \<le> int (length (Summary example_tls_obs))" by (simp add: example_tls_text)
  ultimately show ?thesis using readout_is_recoverable [of example_tls_obs 1400] by (simp add: Let_def)
qed

end
