(* ===== verification/Probe_Serve.thy ===== *)
theory Probe_Serve
  imports Probe_Sign Probe_Store Probe_Dnssd Probe_Edns Probe_Summary
begin

text \<open>
  The request handler of the \<open>probe\<close> plugin: \<open>probe.go\<close>, the RFC 9567 agent zone (\<open>agent.go\<close>) and the metadata
  provider (\<open>metadata.go\<close>). One call maps the plugin's state and the request to the new state, the metric events and what
  is written. Code outside the repository is the parameter \<open>probe_env\<close>: the DNS library, the key's \<open>Sign\<close>, CoreDNS's
  \<open>SizeAndDo\<close>, \<open>Scrub\<close> and \<open>Name.Matches\<close>, and the store behind the \<open>Store\<close> interface, whose two writing
  methods act on a state of their own. Log lines are left out. The handler reads the clock several times; \<open>clock\<close> holds
  the readings of one request.
\<close>

unbundle bit_operations_syntax

section \<open>State and environment\<close>

datatype remote_addr = UDPAddr bytes | TCPAddr bytes | OtherAddr

text \<open>
  \<open>request.Request\<close>, with what its methods return: the normalised name, the type and class of the question, the DO bit,
  the transport and the textual address of the client; and whether the response writer accepts the reply.
\<close>

record request =
  rqMsg :: msg
  rqName :: string
  rqQType :: u16
  rqQClass :: u16
  rqDo :: bool
  rqProto :: string
  rqIP :: string
  rqRemote :: remote_addr
  rqWriter :: "writer option"
  rqWriteOk :: bool

record clock =
  tObserve :: int
  tStore :: int
  tSign :: int
  tCache :: int
  tCacheSign :: int

record cachedSig =
  made :: int
  sig :: "rr option"

record 's probe_env =
  env_dns :: probe_dns
  env_tls :: tls_names
  env_sign :: "rrsig_data \<Rightarrow> rr list \<Rightarrow> string option"
  env_parseAddr :: "string \<Rightarrow> addr option"
  env_matches :: "string \<Rightarrow> string \<Rightarrow> bool"
  env_setRcode :: "msg \<Rightarrow> int \<Rightarrow> msg"
  env_sizeAndDo :: "request \<Rightarrow> msg \<Rightarrow> msg"
  env_scrub :: "request \<Rightarrow> msg \<Rightarrow> msg"
  env_record :: "int \<Rightarrow> Observation \<Rightarrow> 's \<Rightarrow> 's \<times> Observation"
  env_recordReport :: "int \<Rightarrow> ReportRecord \<Rightarrow> 's \<Rightarrow> 's"

text \<open>The plugin, with the package's counter caches.\<close>

record 's Probe =
  pStore :: 's
  pSigner :: "Signer option"
  pSoaSigs :: "cachedSig option list"
  pZone :: string
  pNSName :: string
  pMbox :: string
  pAgentDomain :: string
  pECHConfigList :: bytes
  pBigSize :: int
  pTTL :: u32
  pAgentTTL :: u32
  pCounters :: counter_cache

text \<open>The reply that was written, with the code and the error flag \<open>ServeDNS\<close> returns; or the next plugin's turn.\<close>

datatype outcome = Reply msg int bool | CallNextPlugin

type_synonym 's served = "'s Probe \<times> metric_event list \<times> outcome"

definition write_reply :: "request \<Rightarrow> msg \<Rightarrow> outcome" where
  "write_reply rq m = (if rqWriteOk rq then Reply m RcodeSuccess False else Reply m RcodeServerFailure True)"

definition mk_rr :: "string \<Rightarrow> u16 \<Rightarrow> u32 \<Rightarrow> rdata \<Rightarrow> rr" where
  "mk_rr name rrtype ttl rd = \<lparr>Name = name, Rrtype = rrtype, Class = ClassINET, Ttl = ttl, Rdlength = 0, Rdata = rd\<rparr>"

section \<open>Names and addresses\<close>

definition zoneMatches :: "'s probe_env \<Rightarrow> string \<Rightarrow> string \<Rightarrow> bool" where
  "zoneMatches env zone qname =
     (if zone = ''.'' \<or> qname = zone then True
      else if CHR 0x5C \<in> set qname then env_matches env zone qname
      else
        let n = int (length qname) - int (length zone) in
        n > 0 \<and> qname ! nat (n - 1) = CHR ''.'' \<and> drop (nat n) qname = zone)"

definition addrOf :: "'s probe_env \<Rightarrow> request \<Rightarrow> addr" where
  "addrOf env rq =
     (let ip = (case rqRemote rq of UDPAddr b \<Rightarrow> b | TCPAddr b \<Rightarrow> b | OtherAddr \<Rightarrow> []) in
      case AddrFromSlice ip of
        Some a \<Rightarrow> Unmap a
      | None \<Rightarrow> (case env_parseAddr env (rqIP rq) of Some a \<Rightarrow> Unmap a | None \<Rightarrow> AddrZero))"

definition type_text :: "'s probe_env \<Rightarrow> u16 \<Rightarrow> string" where
  "type_text env t = (case pTypeToString (env_dns env) t of None \<Rightarrow> [] | Some s \<Rightarrow> s)"

section \<open>Signing and denial\<close>

abbreviation (input) soaRefreshSeconds :: u32 where "soaRefreshSeconds \<equiv> 3600"
abbreviation (input) soaRetrySeconds :: u32 where "soaRetrySeconds \<equiv> 900"
abbreviation (input) soaExpireSeconds :: u32 where "soaExpireSeconds \<equiv> 604800"

definition soa :: "'s Probe \<Rightarrow> rr" where
  "soa p =
     mk_rr (pZone p) TypeSOA (pTTL p)
       (SOA \<lparr>Ns_name = pNSName p, Mbox = pMbox p, Serial = 1, Refresh = soaRefreshSeconds, Retry = soaRetrySeconds,
             Expire = soaExpireSeconds, Minttl = pTTL p\<rparr>)"

definition signatureMods :: Modifier where
  "signatureMods = ModUnsigned OR ModBadSig OR ModExpiredSig OR ModFutureSig"

definition soaSigMaxAge :: int where "soaSigMaxAge = 30 * 1000000000"

definition probe_sign :: "'s probe_env \<Rightarrow> 's Probe \<Rightarrow> int \<Rightarrow> rr list \<Rightarrow> Modifier \<Rightarrow> rr option" where
  "probe_sign env p now rrs mods =
     (case pSigner p of
        None \<Rightarrow> None
      | Some s \<Rightarrow>
          (case signRRset (env_dns env) (env_sign env) s now rrs mods of Inl _ \<Rightarrow> None | Inr x \<Rightarrow> x))"

definition signSOA :: "'s probe_env \<Rightarrow> clock \<Rightarrow> 's Probe \<Rightarrow> rr \<Rightarrow> Modifier \<Rightarrow> 's Probe \<times> rr option" where
  "signSOA env clk p rec mods =
     (if pSigner p = None then (p, None)
      else
        let slot = unat (mods AND signatureMods);
            now = tCache clk;
            fresh = (let s = probe_sign env p (tCacheSign clk) [rec] mods in
                     (p\<lparr>pSoaSigs := (pSoaSigs p)[slot := Some \<lparr>made = now, sig = s\<rparr>]\<rparr>, s)) in
        case pSoaSigs p ! slot of
          Some c \<Rightarrow> if time_Sub now (made c) < soaSigMaxAge then (p, sig c) else fresh
        | None \<Rightarrow> fresh)"

definition denial :: "'s probe_env \<Rightarrow> clock \<Rightarrow> 's Probe \<Rightarrow> string \<Rightarrow> Modifier \<Rightarrow> bool \<Rightarrow> u16 list \<Rightarrow> 's Probe \<times> rr list" where
  "denial env clk p name mods dnssec bitmap =
     (let rec = soa p; auth = [rec] in
      if \<not> dnssec then (p, auth)
      else
        let nsec = mk_rr name TypeNSEC (pTTL p) (NSEC_rr (CHR 0x5C # ''000.'' @ name) bitmap);
            auth = auth @ [nsec];
            auth = (case probe_sign env p (tSign clk) [nsec] mods of Some s \<Rightarrow> auth @ [s] | None \<Rightarrow> auth);
            (p, ss) = signSOA env clk p rec mods in
        (p, case ss of Some s \<Rightarrow> auth @ [s] | None \<Rightarrow> auth))"

definition nodataDenial :: "'s probe_env \<Rightarrow> clock \<Rightarrow> 's Probe \<Rightarrow> string \<Rightarrow> Modifier \<Rightarrow> bool \<Rightarrow> 's Probe \<times> rr list" where
  "nodataDenial env clk p name mods dnssec = denial env clk p name mods dnssec [TypeRRSIG, TypeNSEC]"

definition compactDenial :: "'s probe_env \<Rightarrow> clock \<Rightarrow> 's Probe \<Rightarrow> string \<Rightarrow> Modifier \<Rightarrow> bool \<Rightarrow> 's Probe \<times> rr list" where
  "compactDenial env clk p name mods dnssec = denial env clk p name mods dnssec [TypeRRSIG, TypeNSEC, TypeNXNAME]"

section \<open>Replies\<close>

definition attach_zoneversion :: "'s probe_env \<Rightarrow> 's Probe \<Rightarrow> msg \<Rightarrow> msg" where
  "attach_zoneversion env p m =
     (case buildZoneVersion (env_dns env) (pZone p) 1 of
        None \<Rightarrow> m
      | Some zv \<Rightarrow> (case Opt m of None \<Rightarrow> m | Some o' \<Rightarrow> append_option (EDNS0_ZONEVERSION zv) o' m))"

definition respond ::
  "'s probe_env \<Rightarrow> 's Probe \<Rightarrow> request \<Rightarrow> int \<Rightarrow> rr list \<Rightarrow> rr list \<Rightarrow> bool \<Rightarrow> edns0 option list \<Rightarrow> outcome" where
  "respond env p rq rcode answer auth trunc extErr =
     (let wantZoneVersion = requestsZoneVersion (rqMsg rq);
          m = (env_setRcode env (rqMsg rq) rcode)\<lparr>Authoritative := True, Answer := answer, Ns := auth, Truncated := trunc\<rparr>;
          m = env_sizeAndDo env rq m;
          m = (if wantZoneVersion then attach_zoneversion env p m else m);
          m = fold attachEDE extErr m;
          m = attachReportChannel (env_dns env) (pAgentDomain p) m;
          m = (if \<not> trunc then env_scrub env rq m else m) in
      write_reply rq m)"

definition respondDNSSD :: "'s probe_env \<Rightarrow> 's Probe \<Rightarrow> request \<Rightarrow> rr list \<Rightarrow> rr list \<Rightarrow> outcome" where
  "respondDNSSD env p rq answer extra =
     (let m = (env_setRcode env (rqMsg rq) RcodeSuccess)\<lparr>Authoritative := True, Answer := answer, Extra := extra\<rparr>;
          m = env_sizeAndDo env rq m;
          m = attachReportChannel (env_dns env) (pAgentDomain p) m;
          m = env_scrub env rq m in
      write_reply rq m)"

section \<open>Probe names\<close>

text \<open>The observation, annotated with the connection's TLS details and with whether the zone's key was signalled.\<close>

definition annotated :: "'s probe_env \<Rightarrow> clock \<Rightarrow> 's Probe \<Rightarrow> request \<Rightarrow> Query \<Rightarrow> string \<Rightarrow> Observation" where
  "annotated env clk p rq q raw =
     (let (transport, tlsInfo) = transportFrom (env_tls env) (rqWriter rq) (rqProto rq);
          obs = Observe (type_text env) (tObserve clk) q raw (addrOf env rq) transport (rqQType rq) (rqMsg rq);
          obs = obs\<lparr>oTLS := tlsInfo\<rparr> in
      case pSigner p of
        Some s \<Rightarrow> if oKeyTags obs \<noteq> [] then obs\<lparr>oKnowsZoneKey := hasKeyTag (oKeyTags obs) (sKeyTag s)\<rparr> else obs
      | None \<Rightarrow> obs)"

definition observeAndRecord ::
  "'s probe_env \<Rightarrow> clock \<Rightarrow> 's Probe \<Rightarrow> request \<Rightarrow> Query \<Rightarrow> string \<Rightarrow> 's Probe \<times> metric_event list \<times> Observation" where
  "observeAndRecord env clk p rq q raw =
     (let obs = annotated env clk p rq q raw;
          (cc, evs) = recordMetrics obs (pCounters p);
          (st, stored) = env_record env (tStore clk) obs (pStore p) in
      (p\<lparr>pCounters := cc, pStore := st\<rparr>, evs, stored))"

definition synthesize :: "'s Probe \<Rightarrow> string \<Rightarrow> u16 \<Rightarrow> Observation \<Rightarrow> Modifier \<Rightarrow> rr list" where
  "synthesize p qname qtype obs mods =
     (if qtype = TypeA then
        (if \<not> Is4 (oResolverAddr obs) then []
         else [mk_rr qname TypeA (pTTL p) (A_rr (AsSlice (oResolverAddr obs)))])
      else if qtype = TypeAAAA then
        (if \<not> Is6 (oResolverAddr obs) then []
         else [mk_rr qname TypeAAAA (pTTL p) (AAAA_rr (AsSlice (oResolverAddr obs)))])
      else if qtype = TypeHTTPS \<or> qtype = TypeSVCB then
        (if pECHConfigList p = [] then []
         else [mk_rr qname qtype (pTTL p)
                 (SVCB_rr \<lparr>SvcPriority = 1, SvcTarget = ''.'', SvcAlpn = [''h2''], SvcECH = pECHConfigList p\<rparr>)])
      else if qtype = TypeTXT then
        let payload = Summary obs;
            payload = (if Has mods ModBig then pad payload (pBigSize p) else payload) in
        [mk_rr qname TypeTXT (pTTL p) (TXT_rr (chunk payload))]
      else [])"

definition respondForQuery ::
  "'s probe_env \<Rightarrow> clock \<Rightarrow> 's Probe \<Rightarrow> request \<Rightarrow> string \<Rightarrow> Query \<Rightarrow> Observation \<Rightarrow> 's Probe \<times> outcome" where
  "respondForQuery env clk p rq qname q obs =
     (if Has (Mods q) ModServfail then (p, respond env p rq RcodeServerFailure [] [] False [edeFor (Mods q)])
      else if Has (Mods q) ModNXDOMAIN then
        let (p, auth) = nodataDenial env clk p qname (Mods q) (rqDo rq) in (p, respond env p rq RcodeNameError [] auth False [])
      else if Has (Mods q) ModNXNAME then
        let (p, auth) = compactDenial env clk p qname (Mods q) (rqDo rq) in (p, respond env p rq RcodeSuccess [] auth False [])
      else if Has (Mods q) ModTruncate then (p, respond env p rq RcodeSuccess [] [] True [])
      else
        let answer = synthesize p qname (rqQType rq) obs (Mods q) in
        if answer = [] then
          let (p, auth) = nodataDenial env clk p qname (Mods q) (rqDo rq) in
          (p, respond env p rq RcodeSuccess [] auth False [edeFor (Mods q)])
        else
          let answer = (if rqDo rq
                        then (case probe_sign env p (tSign clk) answer (Mods q) of Some s \<Rightarrow> answer @ [s] | None \<Rightarrow> answer)
                        else answer) in
          (p, respond env p rq RcodeSuccess answer [] False [edeFor (Mods q)]))"

section \<open>The apex, DNS-SD and key tags\<close>

definition zoneKeyLabel :: "'s Probe \<Rightarrow> u16 list \<Rightarrow> string" where
  "zoneKeyLabel p tags =
     (case pSigner p of
        None \<Rightarrow> labelUnknown
      | Some s \<Rightarrow> if hasKeyTag tags (sKeyTag s) then labelYes else ''no'')"

definition countDNSKEYKeyTags :: "'s Probe \<Rightarrow> msg \<Rightarrow> metric_event list" where
  "countDNSKEYKeyTags p r =
     (case Opt r of
        None \<Rightarrow> []
      | Some o' \<Rightarrow>
          let tags = ednsKeyTags o' in
          if tags \<noteq> [] then [Inc (probeKeyTagKnowledge, [''dnskey'', zoneKeyLabel p tags])] else [])"

definition serveApex :: "'s probe_env \<Rightarrow> clock \<Rightarrow> 's Probe \<Rightarrow> request \<Rightarrow> 's served" where
  "serveApex env clk p rq =
     (let evs = (if rqQType rq = TypeDNSKEY then countDNSKEYKeyTags p (rqMsg rq) else []);
          answer = (if rqQType rq = TypeSOA then [soa p]
                    else if rqQType rq = TypeNS then [mk_rr (pZone p) TypeNS (pTTL p) (NS_rr (pNSName p))]
                    else if rqQType rq = TypeDNSKEY then (case pSigner p of None \<Rightarrow> [] | Some s \<Rightarrow> [sKey s])
                    else []) in
      if answer = [] then
        let (p, auth) = nodataDenial env clk p (pZone p) 0 (rqDo rq) in
        (p, evs, respond env p rq RcodeSuccess [] auth False [])
      else if rqDo rq then
        let (p, s) = (case Rdata (answer ! 0) of
                        SOA _ \<Rightarrow> signSOA env clk p (answer ! 0) 0
                      | _ \<Rightarrow> (p, probe_sign env p (tSign clk) answer 0)) in
        (p, evs, respond env p rq RcodeSuccess (case s of Some s \<Rightarrow> answer @ [s] | None \<Rightarrow> answer) [] False [])
      else (p, evs, respond env p rq RcodeSuccess answer [] False []))"

definition serveDNSSD :: "'s probe_env \<Rightarrow> clock \<Rightarrow> 's Probe \<Rightarrow> request \<Rightarrow> dnssdKind \<Rightarrow> string \<Rightarrow> 's served" where
  "serveDNSSD env clk p rq kind token =
     (let (transport, tlsInfo) = transportFrom (env_tls env) (rqWriter rq) (rqProto rq);
          obs = Observe (type_text env) (tObserve clk) \<lparr>Token = token, Mods = 0\<rparr> (rqName rq) (addrOf env rq) transport
                  (rqQType rq) (rqMsg rq);
          obs = obs\<lparr>oTLS := tlsInfo\<rparr>;
          (cc, evs) = recordMetrics obs (pCounters p);
          (st, _) = env_record env (tStore clk) obs (pStore p);
          p = p\<lparr>pCounters := cc, pStore := st\<rparr>;
          (answer, extra) = synthesizeDNSSD (pZone p) (pNSName p) (pTTL p) kind token (rqQType rq) in
      if answer = [] then
        let (p, auth) = nodataDenial env clk p (rqName rq) 0 (rqDo rq) in
        (p, evs, respond env p rq RcodeSuccess [] auth False [])
      else
        let answer = (if rqDo rq
                      then (case probe_sign env p (tSign clk) answer 0 of Some s \<Rightarrow> answer @ [s] | None \<Rightarrow> answer)
                      else answer) in
        (p, evs, respondDNSSD env p rq answer extra))"

definition isKeyTagQueryType :: "request \<Rightarrow> bool" where
  "isKeyTagQueryType rq = (rqQType rq = TypeNULL \<and> rqQClass rq = ClassINET)"

definition serveKeyTagQuery :: "'s probe_env \<Rightarrow> clock \<Rightarrow> 's Probe \<Rightarrow> request \<Rightarrow> u16 list \<Rightarrow> 's served" where
  "serveKeyTagQuery env clk p rq tags =
     (let evs = (if isKeyTagQueryType rq
                 then [Inc (probeKeyTagQueries, [if KeyTagsSorted tags then ''sorted'' else ''unsorted'']),
                       Inc (probeKeyTagKnowledge, [''query'', zoneKeyLabel p tags])]
                 else []);
          (p, auth) = nodataDenial env clk p (rqName rq) 0 (rqDo rq) in
      (p, evs, respond env p rq RcodeSuccess [] auth False []))"

section \<open>The agent zone\<close>

definition agentTXT :: string where "agentTXT = ''report received''"

definition agentSOA :: "'s Probe \<Rightarrow> rr" where
  "agentSOA p =
     mk_rr (pAgentDomain p) TypeSOA (pAgentTTL p)
       (SOA \<lparr>Ns_name = pNSName p, Mbox = pMbox p, Serial = 1, Refresh = soaRefreshSeconds, Retry = soaRetrySeconds,
             Expire = soaExpireSeconds, Minttl = pAgentTTL p\<rparr>)"

definition respondAgent :: "'s probe_env \<Rightarrow> 's Probe \<Rightarrow> request \<Rightarrow> rr list \<Rightarrow> outcome" where
  "respondAgent env p rq answer =
     (let m = (env_setRcode env (rqMsg rq) RcodeSuccess)\<lparr>Authoritative := True, Answer := answer\<rparr>;
          m = (if answer = [] then m\<lparr>Ns := [agentSOA p]\<rparr> else m);
          m = env_sizeAndDo env rq m;
          m = env_scrub env rq m in
      write_reply rq m)"

definition serveAgentApex :: "'s probe_env \<Rightarrow> 's Probe \<Rightarrow> request \<Rightarrow> outcome" where
  "serveAgentApex env p rq =
     (let answer = (if rqQType rq = TypeSOA then [agentSOA p]
                    else if rqQType rq = TypeNS then [mk_rr (pAgentDomain p) TypeNS (pAgentTTL p) (NS_rr (pNSName p))]
                    else []) in
      respondAgent env p rq answer)"

definition serveReport :: "'s probe_env \<Rightarrow> clock \<Rightarrow> 's Probe \<Rightarrow> request \<Rightarrow> 's served" where
  "serveReport env clk p rq =
     (let qname = rqName rq in
      if qname = pAgentDomain p then (p, [], serveAgentApex env p rq)
      else
        case ParseReport (env_dns env) qname (pAgentDomain p) (pZone p) of
          Inl err \<Rightarrow>
            (p, [Inc (probeReportsRejected, [if err = ErrBadReport then ''malformed'' else ''not-a-report''])],
             respondAgent env p rq [])
        | Inr rep \<Rightarrow>
            if rqQType rq \<noteq> TypeTXT then (p, [Inc (probeReportsRejected, [''wrong-qtype''])], respondAgent env p rq [])
            else
              let correlated = (if rToken rep \<noteq> [] then labelYes else ''no'');
                  (transport, _) = transportFrom (env_tls env) (rqWriter rq) (rqProto rq);
                  rec = NewReportRecord (tObserve clk) rep (addrOf env rq) transport;
                  st = env_recordReport env (tStore clk) rec (pStore p) in
              (p\<lparr>pStore := st\<rparr>, [Inc (probeReports, [edeLabel (env_dns env) (rEDE rep), correlated])],
               respondAgent env p rq [mk_rr qname TypeTXT (pAgentTTL p) (TXT_rr [agentTXT])]))"

section \<open>The handler\<close>

definition probe_ServeDNS :: "'s probe_env \<Rightarrow> clock \<Rightarrow> 's Probe \<Rightarrow> request \<Rightarrow> 's served" where
  "probe_ServeDNS env clk p rq =
     (let qname = rqName rq in
      if pAgentDomain p \<noteq> [] \<and> zoneMatches env (pAgentDomain p) qname then serveReport env clk p rq
      else if \<not> zoneMatches env (pZone p) qname then (p, [], CallNextPlugin)
      else
        let raw = (case Question (rqMsg rq) of [] \<Rightarrow> qname | x # _ \<Rightarrow> QName x) in
        if rqQType rq = TypeNXNAME then (p, [], respond env p rq RcodeFormatError [] [] False [])
        else
          let sub = trim_suffix (trim_suffix qname (pZone p)) ''.'' in
          if sub = [] then serveApex env clk p rq
          else
            let (kind, token) = parseDNSSD sub in
            if kind \<noteq> dnssdNone then serveDNSSD env clk p rq kind token
            else
              case ParseKeyTagQuery sub of
                Inr tags \<Rightarrow> serveKeyTagQuery env clk p rq tags
              | Inl ErrBadKeyTagQuery \<Rightarrow>
                  (p, if isKeyTagQueryType rq then [Inc (probeKeyTagQueries, [''malformed''])] else [],
                   respond env p rq RcodeRefused [] [] False [])
              | Inl ErrNotKeyTagQuery \<Rightarrow>
                  (case ParseQuery sub of
                     None \<Rightarrow> (p, [], respond env p rq RcodeRefused [] [] False [])
                   | Some q \<Rightarrow>
                       let (p, evs, obs) = observeAndRecord env clk p rq q raw;
                           (p, out) = respondForQuery env clk p rq qname q obs in
                       (p, evs, out)))"

text \<open>The value \<open>Metadata\<close> publishes under \<open>zone/wildcard\<close>, if any.\<close>

definition Metadata :: "'s probe_env \<Rightarrow> 's Probe \<Rightarrow> request \<Rightarrow> string option" where
  "Metadata env p rq =
     (let qname = rqName rq in
      if pAgentDomain p \<noteq> [] \<and> env_matches env (pAgentDomain p) qname then Some (''*.'' @ pAgentDomain p)
      else if env_matches env (pZone p) qname then Some (''*.'' @ pZone p)
      else None)"

end
