(* ===== verification/Probe_Answers.thy ===== *)
theory Probe_Answers
  imports Probe_Serve
begin

text \<open>
  What the \<open>probe\<close> handler answers: the response code of every name, the effect of the modifiers, the options a reply
  carries, the agent zone, and that an answer does not depend on the store. \<open>env_ok\<close> states what CoreDNS and the DNS
  library document of the functions the handler calls.
\<close>

unbundle bit_operations_syntax

section \<open>Documented behaviour of the environment\<close>

text \<open>The options CoreDNS copies from a request's OPT record.\<close>

definition echoed_option :: "edns0 \<Rightarrow> bool" where
  "echoed_option e \<longleftrightarrow> \<not> is_ede e \<and> \<not> is_reporting e \<and> \<not> is_zoneversion e"

text \<open>
  \<open>SetRcode\<close> makes an empty reply with the code and the first question; \<open>SizeAndDo\<close>, on a message that has no OPT record
  yet, changes nothing but that record, which is then present exactly if the request has one; \<open>Scrub\<close> cuts the sections to an
  initial part and keeps the code and the OPT record.
\<close>

definition env_ok :: "'s probe_env \<Rightarrow> bool" where
  "env_ok env \<longleftrightarrow>
     (\<forall>r rc. let m = env_setRcode env r rc in Rcode m = rc \<and> Answer m = [] \<and> Ns m = [] \<and> Extra m = [] \<and>
        Question m = take 1 (Question r) \<and> Opt m = None) \<and>
     (\<forall>rq m. Opt m = None \<longrightarrow> (\<exists>o'. env_sizeAndDo env rq m = m\<lparr>Opt := o'\<rparr> \<and> (o' = None \<longleftrightarrow> Opt (rqMsg rq) = None) \<and>
        (\<forall>x. o' = Some x \<longrightarrow> list_all echoed_option (Options x)))) \<and>
     (\<forall>rq m. let m' = env_scrub env rq m in
        Rcode m' = Rcode m \<and> Authoritative m' = Authoritative m \<and> Opt m' = Opt m \<and> Question m' = Question m \<and>
        (\<exists>k. Answer m' = take k (Answer m)) \<and> (\<exists>k. Ns m' = take k (Ns m)) \<and> (\<exists>k. Extra m' = take k (Extra m)))"

lemma env_setRcode_ok:
  "env_ok env \<Longrightarrow> Rcode (env_setRcode env r rc) = rc"
  "env_ok env \<Longrightarrow> Answer (env_setRcode env r rc) = []" "env_ok env \<Longrightarrow> Ns (env_setRcode env r rc) = []"
  "env_ok env \<Longrightarrow> Extra (env_setRcode env r rc) = []" "env_ok env \<Longrightarrow> Opt (env_setRcode env r rc) = None"
  unfolding env_ok_def Let_def by blast+

lemma env_sizeAndDo_ok:
  assumes "env_ok env" and "Opt m = None"
  obtains o' where "env_sizeAndDo env rq m = m\<lparr>Opt := o'\<rparr>" "o' = None \<longleftrightarrow> Opt (rqMsg rq) = None"
    "\<And>x. o' = Some x \<Longrightarrow> list_all echoed_option (Options x)"
  using assms unfolding env_ok_def by blast

definition scrubbed :: "msg \<Rightarrow> msg \<Rightarrow> bool" where
  "scrubbed m m' \<longleftrightarrow> Rcode m' = Rcode m \<and> Authoritative m' = Authoritative m \<and> Opt m' = Opt m \<and>
     (\<exists>k. Answer m' = take k (Answer m)) \<and> (\<exists>k. Ns m' = take k (Ns m)) \<and> (\<exists>k. Extra m' = take k (Extra m))"

lemma scrubbed_refl: "scrubbed m m"
  unfolding scrubbed_def by (metis order_refl take_all)

lemma env_scrub_ok: "env_ok env \<Longrightarrow> scrubbed m (env_scrub env rq m)"
  unfolding env_ok_def scrubbed_def Let_def by blast

text \<open>
  \<open>Scrub\<close> marks what it cuts: a message it does not mark as truncated has its answer and authority sections whole. This is
  the documented meaning of the TC bit \<open>dns.Msg.Truncate\<close> sets, and a hypothesis of its own where completeness is claimed.
\<close>

definition scrub_ok :: "'s probe_env \<Rightarrow> bool" where
  "scrub_ok env \<longleftrightarrow>
     (\<forall>rq m. let m' = env_scrub env rq m in \<not> Truncated m' \<longrightarrow> Answer m' = Answer m \<and> Ns m' = Ns m)"

lemma env_scrub_whole:
  "scrub_ok env \<Longrightarrow> \<not> Truncated (env_scrub env rq m) \<Longrightarrow> Answer (env_scrub env rq m) = Answer m \<and> Ns (env_scrub env rq m) = Ns m"
  unfolding scrub_ok_def Let_def by blast

text \<open>The sections a reply was built from: whole, unless the reply says that it is truncated.\<close>

definition holds_sections :: "msg \<Rightarrow> rr list \<Rightarrow> rr list \<Rightarrow> bool" where
  "holds_sections m answer auth \<longleftrightarrow>
     (if Truncated m then (\<exists>k. Answer m = take k answer) \<and> (\<exists>k. Ns m = take k auth) else Answer m = answer \<and> Ns m = auth)"

section \<open>Replies\<close>

text \<open>
  A reply as a client sees it: its code, sections that are initial parts of the given ones (whole ones when it is marked
  truncated), and an OPT record exactly if the request had one, with exactly the given Extended DNS Error, the
  Report-Channel option of the configured agent, and a zone version exactly if one was asked for.
\<close>

definition option_list :: "'a option \<Rightarrow> 'a list" where
  "option_list x = (case x of None \<Rightarrow> [] | Some e \<Rightarrow> [e])"

lemma option_list_simps [simp]: "option_list None = []" "option_list (Some e) = [e]"
  by (simp_all add: option_list_def)

definition zv_option :: "'s probe_env \<Rightarrow> 's Probe \<Rightarrow> request \<Rightarrow> edns0 option" where
  "zv_option env p rq =
     (if requestsZoneVersion (rqMsg rq) then map_option EDNS0_ZONEVERSION (buildZoneVersion (env_dns env) (pZone p) 1) else None)"

definition good_reply ::
  "'s probe_env \<Rightarrow> 's Probe \<Rightarrow> request \<Rightarrow> int \<Rightarrow> rr list \<Rightarrow> rr list \<Rightarrow> bool \<Rightarrow> edns0 option \<Rightarrow> outcome \<Rightarrow> bool" where
  "good_reply env p rq rcode answer auth tc e out \<longleftrightarrow>
     (\<exists>m c err. out = Reply m c err \<and> Rcode m = rcode \<and> Authoritative m \<and>
        (\<exists>k. Answer m = take k answer) \<and> (\<exists>k. Ns m = take k auth) \<and> (tc \<longrightarrow> Truncated m \<and> Answer m = answer \<and> Ns m = auth) \<and>
        (scrub_ok env \<longrightarrow> holds_sections m answer auth) \<and>
        (Opt m = None \<longleftrightarrow> Opt (rqMsg rq) = None) \<and>
        (\<forall>o'. Opt m = Some o' \<longrightarrow>
           filter is_ede (Options o') = option_list e \<and>
           filter is_reporting (Options o') = option_list (ReportChannelOption (env_dns env) (pAgentDomain p)) \<and>
           filter is_zoneversion (Options o') = option_list (zv_option env p rq)))"

text \<open>One step of the pipeline: an option is appended, if there is one and an OPT record to hold it.\<close>

definition add_opt :: "edns0 option \<Rightarrow> msg \<Rightarrow> msg" where
  "add_opt e m = (case e of None \<Rightarrow> m | Some e' \<Rightarrow> (case Opt m of None \<Rightarrow> m | Some o' \<Rightarrow> append_option e' o' m))"

lemma add_opt_sel [simp]:
  "Rcode (add_opt e m) = Rcode m" "Answer (add_opt e m) = Answer m" "Ns (add_opt e m) = Ns m" "Extra (add_opt e m) = Extra m"
  "Truncated (add_opt e m) = Truncated m" "Authoritative (add_opt e m) = Authoritative m"
  "Opt (add_opt e m) = map_option (\<lambda>o'. o'\<lparr>Options := Options o' @ option_list e\<rparr>) (Opt m)"
  by (cases e; cases "Opt m"; simp add: add_opt_def)+

lemma add_opt_None [simp]: "add_opt None m = m"
  by (simp add: add_opt_def)

lemma attachEDE_add: "(\<And>o'. Opt m = Some o' \<Longrightarrow> filter is_ede (Options o') = []) \<Longrightarrow> attachEDE e m = add_opt e m"
  by (auto simp: attachEDE_def add_opt_def list_ex_filter_iff split: option.split)

lemma attachReportChannel_add:
  "(\<And>o'. Opt m = Some o' \<Longrightarrow> filter is_reporting (Options o') = []) \<Longrightarrow>
     attachReportChannel lib d m = add_opt (ReportChannelOption lib d) m"
  by (auto simp: attachReportChannel_def add_opt_def list_ex_filter_iff split: option.split)

lemma echoed_filters:
  assumes "list_all echoed_option os"
  shows "filter is_ede os = []" "filter is_reporting os = []" "filter is_zoneversion os = []"
  using assms by (auto simp: list_all_iff echoed_option_def)

lemma option_kinds [simp]:
  "\<not> is_reporting (EDNS0_ZONEVERSION v)" "\<not> is_ede (EDNS0_ZONEVERSION v)" "is_zoneversion (EDNS0_ZONEVERSION v)"
  "\<not> is_ede (EDNS0_REPORTING d)" "\<not> is_zoneversion (EDNS0_REPORTING d)" "is_reporting (EDNS0_REPORTING d)"
  "is_ede (ede c)" "\<not> is_reporting (ede c)" "\<not> is_zoneversion (ede c)"
  by (simp_all add: is_reporting_def is_ede_def is_zoneversion_def ede_def)

lemma channel_kind:
  "filter is_reporting (option_list (ReportChannelOption lib d)) = option_list (ReportChannelOption lib d)"
  "filter is_ede (option_list (ReportChannelOption lib d)) = []"
  "filter is_zoneversion (option_list (ReportChannelOption lib d)) = []"
  by (simp_all add: ReportChannelOption_def Let_def)

lemma ede_kind:
  "filter is_ede (option_list (edeFor mods)) = option_list (edeFor mods)"
  "filter is_reporting (option_list (edeFor mods)) = []" "filter is_zoneversion (option_list (edeFor mods)) = []"
  by (simp_all add: edeFor_def)

lemma zv_kind:
  "filter is_ede (option_list (zv_option env p rq)) = []" "filter is_reporting (option_list (zv_option env p rq)) = []"
  "filter is_zoneversion (option_list (zv_option env p rq)) = option_list (zv_option env p rq)"
  by (auto simp: zv_option_def option_list_def split: option.splits)

lemma attach_zoneversion_add:
  "(if requestsZoneVersion (rqMsg rq) then attach_zoneversion env p m else m) = add_opt (zv_option env p rq) m"
  by (auto simp: attach_zoneversion_def add_opt_def zv_option_def split: option.split)

lemma write_reply_cases: "\<exists>c e. write_reply rq m = Reply m c e"
  by (cases "rqWriteOk rq") (simp_all only: write_reply_def if_True if_False, blast+)

text \<open>The whole pipeline of \<open>respond\<close>, for no error option or the one of a modifier set.\<close>

lemma respond_good:
  assumes ok: "env_ok env" and ext: "ext = [] \<and> e = None \<or> (\<exists>mods. ext = [edeFor mods] \<and> e = edeFor mods)"
  shows "good_reply env p rq rcode answer auth tc e (respond env p rq rcode answer auth tc ext)"
proof -
  let ?m = "(env_setRcode env (rqMsg rq) rcode)\<lparr>Authoritative := True, Answer := answer, Ns := auth, Truncated := tc\<rparr>"
  obtain o1 where o1: "env_sizeAndDo env rq ?m = ?m\<lparr>Opt := o1\<rparr>" "o1 = None \<longleftrightarrow> Opt (rqMsg rq) = None"
    "\<And>x. o1 = Some x \<Longrightarrow> list_all echoed_option (Options x)"
    using env_sizeAndDo_ok [OF ok, of ?m rq] env_setRcode_ok(5) [OF ok] by auto
  note f1 = echoed_filters [OF o1(3)]
  let ?m2 = "add_opt (zv_option env p rq) (?m\<lparr>Opt := o1\<rparr>)"
  have m3: "fold attachEDE ext ?m2 = add_opt e ?m2"
    proof -
    have "filter is_ede (Options o') = []" if "Opt ?m2 = Some o'" for o' using that f1 zv_kind [of env p rq] by auto
    then show ?thesis using ext attachEDE_add [of ?m2 e] by auto
  qed
  let ?m4 = "add_opt (ReportChannelOption (env_dns env) (pAgentDomain p)) (add_opt e ?m2)"
  have m4: "attachReportChannel (env_dns env) (pAgentDomain p) (add_opt e ?m2) = ?m4"
    using ext f1 ede_kind zv_kind [of env p rq] by (intro attachReportChannel_add) auto
  define m5 where "m5 = (if \<not> tc then env_scrub env rq ?m4 else ?m4)"
  have out: "respond env p rq rcode answer auth tc ext = write_reply rq m5"
    unfolding respond_def Let_def attach_zoneversion_add o1(1) m3 m4 m5_def ..
  have sc: "scrubbed ?m4 m5" "tc \<longrightarrow> m5 = ?m4" using env_scrub_ok [OF ok] scrubbed_refl by (auto simp: m5_def)
  have whole: "holds_sections m5 answer auth" if "scrub_ok env"
    using sc env_scrub_whole [OF that, of rq ?m4] by (cases tc) (auto simp: holds_sections_def scrubbed_def m5_def)
  have "filter is_ede (option_list e) = option_list e" "filter is_reporting (option_list e) = []"
    "filter is_zoneversion (option_list e) = []" using ext ede_kind by auto
  moreover have "Rcode ?m4 = rcode" using env_setRcode_ok(1) [OF ok] by simp
  ultimately show ?thesis
    using sc whole write_reply_cases [of rq m5] o1(2) f1 unfolding out good_reply_def scrubbed_def
    by (fastforce simp: channel_kind zv_kind)
qed

lemma respondDNSSD_code:
  assumes "env_ok env"
  shows "\<exists>m c e. respondDNSSD env p rq answer extra = Reply m c e \<and> Rcode m = RcodeSuccess \<and> Authoritative m"
proof -
  let ?m = "(env_setRcode env (rqMsg rq) RcodeSuccess)\<lparr>Authoritative := True, Answer := answer, Extra := extra\<rparr>"
  obtain o' where o': "env_sizeAndDo env rq ?m = ?m\<lparr>Opt := o'\<rparr>" 
    by (rule env_sizeAndDo_ok [OF assms, of ?m rq]) (simp add: env_setRcode_ok(5) [OF assms])
  let ?c = "attachReportChannel (env_dns env) (pAgentDomain p) (?m\<lparr>Opt := o'\<rparr>)"
  have "Rcode ?c = RcodeSuccess \<and> Authoritative ?c"
    using same_answerD(1,5) [OF same_answer_channel [of "?m\<lparr>Opt := o'\<rparr>" "env_dns env" "pAgentDomain p"]]
      env_setRcode_ok(1) [OF assms] by simp
  then show ?thesis
    using env_scrub_ok [OF assms, of ?c rq] write_reply_cases [of rq "env_scrub env rq ?c"]
    unfolding respondDNSSD_def Let_def o' scrubbed_def by auto
qed

lemma good_reply_code: "good_reply env p rq rcode answer auth tc e out \<Longrightarrow> \<exists>m c err. out = Reply m c err \<and> Rcode m = rcode \<and> Authoritative m"
  by (auto simp: good_reply_def)

text \<open>The configuration never changes; only the signature cache does while an answer is built.\<close>

definition same_config :: "'s Probe \<Rightarrow> 's Probe \<Rightarrow> bool" where
  "same_config p p' \<longleftrightarrow> (\<exists>st sigs cc. p' = p\<lparr>pStore := st, pSoaSigs := sigs, pCounters := cc\<rparr>)"

lemma same_config_refl [simp]: "same_config p p"
  unfolding same_config_def by (rule exI [of _ "pStore p"], rule exI [of _ "pSoaSigs p"], rule exI [of _ "pCounters p"]) simp

lemma same_configD:
  "same_config p p' \<Longrightarrow> pZone p' = pZone p \<and> pAgentDomain p' = pAgentDomain p \<and> pSigner p' = pSigner p \<and> pTTL p' = pTTL p \<and>
     pNSName p' = pNSName p \<and> pMbox p' = pMbox p \<and> pECHConfigList p' = pECHConfigList p \<and> pBigSize p' = pBigSize p"
  by (auto simp: same_config_def)

lemma good_reply_config: "same_config p p' \<Longrightarrow> good_reply env p' rq = good_reply env p rq"
  by (intro ext) (auto simp: good_reply_def zv_option_def dest!: same_configD)

definition sigs_only :: "'s Probe \<Rightarrow> 's Probe \<Rightarrow> bool" where
  "sigs_only p p' \<longleftrightarrow> (\<exists>sigs. p' = p\<lparr>pSoaSigs := sigs\<rparr>)"

lemma sigs_only_refl [simp]: "sigs_only p p"
  unfolding sigs_only_def by (rule exI [of _ "pSoaSigs p"]) simp

lemma sigs_only_config:
  assumes "sigs_only p p'"
  shows "same_config p p'"
proof -
  obtain sigs where "p' = p\<lparr>pSoaSigs := sigs\<rparr>" using assms by (auto simp: sigs_only_def)
  then have "p' = p\<lparr>pStore := pStore p, pSoaSigs := sigs, pCounters := pCounters p\<rparr>" by simp
  then show ?thesis unfolding same_config_def by blast
qed

lemma signSOA_sigs: "sigs_only p (fst (signSOA env clk p rec mods))"
  by (auto simp: signSOA_def sigs_only_def Let_def intro: exI [of _ "pSoaSigs p"] split: option.splits)

lemma denial_sigs: "sigs_only p (fst (denial env clk p name mods d bitmap))"
  by (simp add: denial_def Let_def case_prod_beta signSOA_sigs)

lemmas denials = nodataDenial_def compactDenial_def

section \<open>The code of every reply\<close>

text \<open>The code a name of the zone is answered with.\<close>

definition query_code :: "Modifier \<Rightarrow> int" where
  "query_code mods = (if Has mods ModServfail then RcodeServerFailure else if Has mods ModNXDOMAIN then RcodeNameError else RcodeSuccess)"

definition name_code :: "u16 \<Rightarrow> string \<Rightarrow> int" where
  "name_code qtype sub =
     (if qtype = TypeNXNAME then RcodeFormatError
      else if sub = [] \<or> fst (parseDNSSD sub) \<noteq> dnssdNone \<or> \<not> isl (ParseKeyTagQuery sub) then RcodeSuccess
      else case ParseQuery sub of None \<Rightarrow> RcodeRefused | Some q \<Rightarrow> query_code (Mods q))"

text \<open>Replies that carry a given code and leave the store alone.\<close>

definition coded :: "outcome \<Rightarrow> int \<Rightarrow> bool" where
  "coded out rc \<longleftrightarrow> (\<exists>m c err. out = Reply m c err \<and> Rcode m = rc \<and> Authoritative m)"

lemma respond_coded [intro]: "env_ok env \<Longrightarrow> coded (respond env p rq rcode answer auth tc []) rcode"
  unfolding coded_def using respond_good [of env "[]" None] by (blast dest: good_reply_code)

lemma respond_ede_coded [intro]: "env_ok env \<Longrightarrow> coded (respond env p rq rcode answer auth tc [edeFor mods]) rcode"
  unfolding coded_def using respond_good [of env "[edeFor mods]" "edeFor mods"] by (blast dest: good_reply_code)

lemma respondDNSSD_coded [intro]: "env_ok env \<Longrightarrow> coded (respondDNSSD env p rq answer extra) RcodeSuccess"
  unfolding coded_def using respondDNSSD_code by blast

lemma serveApex_coded: "env_ok env \<Longrightarrow> coded (snd (snd (serveApex env clk p rq))) RcodeSuccess"
  unfolding serveApex_def Let_def by (auto simp: case_prod_beta)

lemma serveKeyTagQuery_coded: "env_ok env \<Longrightarrow> coded (snd (snd (serveKeyTagQuery env clk p rq tags))) RcodeSuccess"
  unfolding serveKeyTagQuery_def Let_def by (auto simp: case_prod_beta)

lemma serveDNSSD_coded: "env_ok env \<Longrightarrow> coded (snd (snd (serveDNSSD env clk p rq kind token))) RcodeSuccess"
  unfolding serveDNSSD_def Let_def by (auto simp: case_prod_beta)

lemma respondForQuery_coded: "env_ok env \<Longrightarrow> coded (snd (respondForQuery env clk p rq qname q obs)) (query_code (Mods q))"
  unfolding respondForQuery_def Let_def query_code_def by (auto simp: case_prod_beta)

text \<open>
  C21: every name of the probe zone is answered with authority, and its code is decided by the name and the type alone:
  FORMERR for the meta-type NXNAME, NOERROR for the apex, the browse tree and key tag queries, REFUSED exactly for the names
  no grammar of the zone accepts, and for a probe query SERVFAIL or NXDOMAIN exactly if its modifiers ask for it. NXDOMAIN
  and SERVFAIL are therefore never a by-product of a signing error or a full store.
\<close>

theorem reply_code_of_every_name:
  assumes "env_ok env" and "zoneMatches env (pZone p) (rqName rq)"
    and "pAgentDomain p = [] \<or> \<not> zoneMatches env (pAgentDomain p) (rqName rq)"
  shows "\<exists>m c err. snd (snd (probe_ServeDNS env clk p rq)) = Reply m c err \<and> Authoritative m \<and>
    Rcode m = name_code (rqQType rq) (trim_suffix (trim_suffix (rqName rq) (pZone p)) ''.'')"
proof -
  let ?sub = "trim_suffix (trim_suffix (rqName rq) (pZone p)) ''.''"
  have agent: "\<not> (pAgentDomain p \<noteq> [] \<and> zoneMatches env (pAgentDomain p) (rqName rq))" using assms(3) by auto
  have "coded (snd (snd (probe_ServeDNS env clk p rq))) (name_code (rqQType rq) ?sub)"
  proof (cases "rqQType rq = TypeNXNAME \<or> ?sub = [] \<or> fst (parseDNSSD ?sub) \<noteq> dnssdNone")
    case True
    then show ?thesis
      using agent assms(1,2) serveApex_coded serveDNSSD_coded
      by (auto simp: probe_ServeDNS_def name_code_def Let_def case_prod_beta)
  next
    case False
    then have n: "rqQType rq \<noteq> TypeNXNAME" "?sub \<noteq> []" "fst (parseDNSSD ?sub) = dnssdNone" by auto
    show ?thesis
    proof (cases "ParseKeyTagQuery ?sub")
      case (Inr tags)
      then show ?thesis using agent assms(1,2) n serveKeyTagQuery_coded
        by (auto simp: probe_ServeDNS_def name_code_def Let_def case_prod_beta)
    next
      case (Inl err)
      then show ?thesis
        using agent assms(1,2) n respondForQuery_coded keytags_not_query [of ?sub]
        by (cases err; cases "ParseQuery ?sub") (auto simp: probe_ServeDNS_def name_code_def Let_def case_prod_beta)
    qed
  qed
  then show ?thesis by (auto simp: coded_def)
qed

section \<open>Probe queries\<close>

definition raw_name :: "request \<Rightarrow> string" where
  "raw_name rq = (case Question (rqMsg rq) of [] \<Rightarrow> rqName rq | x # _ \<Rightarrow> QName x)"

text \<open>A request for a probe query: its name is in the zone, outside the agent's, and parses to the query.\<close>

definition asks :: "'s probe_env \<Rightarrow> 's Probe \<Rightarrow> request \<Rightarrow> Query \<Rightarrow> bool" where
  "asks env p rq q \<longleftrightarrow>
     zoneMatches env (pZone p) (rqName rq) \<and> (pAgentDomain p = [] \<or> \<not> zoneMatches env (pAgentDomain p) (rqName rq)) \<and>
     rqQType rq \<noteq> TypeNXNAME \<and> ParseQuery (trim_suffix (trim_suffix (rqName rq) (pZone p)) ''.'') = Some q"

lemma probe_ServeDNS_query:
  assumes "asks env p rq q"
  shows "probe_ServeDNS env clk p rq =
    (let (p1, evs, obs) = observeAndRecord env clk p rq q (raw_name rq);
         (p2, out) = respondForQuery env clk p1 rq (rqName rq) q obs in (p2, evs, out))"
  using assms query_reaches_parser [of "trim_suffix (trim_suffix (rqName rq) (pZone p)) ''.''" q]
  by (auto simp: asks_def probe_ServeDNS_def raw_name_def Let_def case_prod_beta)

lemma asks_valid: "asks env p rq q \<Longrightarrow> Modifier_Validate (Mods q) = None"
  by (auto simp: asks_def ParseQuery_iff Query_Validate_None)

lemma observeAndRecord_fst: "\<exists>cc st. fst (observeAndRecord env clk p rq q raw) = p\<lparr>pCounters := cc, pStore := st\<rparr>"
  unfolding observeAndRecord_def Let_def case_prod_beta fst_conv by blast

lemma observeAndRecord_config: "same_config p (fst (observeAndRecord env clk p rq q raw))"
proof -
  obtain cc st where "fst (observeAndRecord env clk p rq q raw) = p\<lparr>pCounters := cc, pStore := st\<rparr>"
    using observeAndRecord_fst [of env clk p rq q raw] by blast
  then have "fst (observeAndRecord env clk p rq q raw) = p\<lparr>pStore := st, pSoaSigs := pSoaSigs p, pCounters := cc\<rparr>" by simp
  then show ?thesis unfolding same_config_def by blast
qed

text \<open>The records a positive answer is built from, the signature included.\<close>

definition full_answer :: "'s probe_env \<Rightarrow> clock \<Rightarrow> 's Probe \<Rightarrow> request \<Rightarrow> Query \<Rightarrow> Observation \<Rightarrow> rr list" where
  "full_answer env clk p rq q obs =
     (let answer = synthesize p (rqName rq) (rqQType rq) obs (Mods q) in
      if answer = [] then []
      else answer @ (if rqDo rq then option_list (probe_sign env p (tSign clk) answer (Mods q)) else []))"

lemma respondForQuery_good:
  assumes ok: "env_ok env" and v: "Modifier_Validate (Mods q) = None"
  defines "m \<equiv> Mods q"
  shows "\<exists>auth. good_reply env p rq (query_code m)
      (if Has m ModServfail \<or> Has m ModNXDOMAIN \<or> Has m ModNXNAME \<or> Has m ModTruncate then []
       else full_answer env clk p rq q obs)
      auth
      (Has m ModTruncate \<and> \<not> Has m ModServfail \<and> \<not> Has m ModNXDOMAIN \<and> \<not> Has m ModNXNAME)
      (if Has m ModNXDOMAIN \<or> Has m ModNXNAME \<or> (Has m ModTruncate \<and> \<not> Has m ModServfail) then None else edeFor m)
      (snd (respondForQuery env clk p rq (rqName rq) q obs)) \<and>
    (Has m ModServfail \<or> (Has m ModTruncate \<and> \<not> Has m ModNXDOMAIN \<and> \<not> Has m ModNXNAME) \<longrightarrow> auth = []) \<and>
    (Has m ModNXDOMAIN \<longrightarrow> auth = snd (nodataDenial env clk p (rqName rq) m (rqDo rq))) \<and>
    (Has m ModNXNAME \<longrightarrow> auth = snd (compactDenial env clk p (rqName rq) m (rqDo rq))) \<and>
    (\<not> Has m ModServfail \<and> \<not> Has m ModNXDOMAIN \<and> \<not> Has m ModNXNAME \<and> \<not> Has m ModTruncate \<longrightarrow>
       auth = (if full_answer env clk p rq q obs = [] then snd (nodataDenial env clk p (rqName rq) m (rqDo rq)) else []))"
proof -
  note ex = outcomes_exclusive [OF v, folded m_def]
  have plain: "good_reply env p' rq rc a b tc None (respond env p' rq rc a b tc [])" for p' rc a b tc
    using respond_good [OF ok, of "[]" None] by simp
  have withE: "good_reply env p' rq rc a b tc (edeFor m) (respond env p' rq rc a b tc [edeFor m])" for p' rc a b tc
    using respond_good [OF ok, of "[edeFor m]" "edeFor m"] by blast
  let ?nd = "nodataDenial env clk p (rqName rq) m (rqDo rq)" and ?cd = "compactDenial env clk p (rqName rq) m (rqDo rq)"
  have same: "good_reply env (fst ?nd) rq = good_reply env p rq" "good_reply env (fst ?cd) rq = good_reply env p rq"
    using good_reply_config [OF sigs_only_config [OF denial_sigs]] by (simp_all add: denials)
  consider "Has m ModServfail" | "Has m ModNXDOMAIN" | "Has m ModNXNAME"
    | "\<not> Has m ModServfail" "\<not> Has m ModNXDOMAIN" "\<not> Has m ModNXNAME" "Has m ModTruncate"
    | "\<not> Has m ModServfail" "\<not> Has m ModNXDOMAIN" "\<not> Has m ModNXNAME" "\<not> Has m ModTruncate" by blast
  then show ?thesis
  proof cases
    case 1
    then show ?thesis using withE [of p] ex by (auto simp: respondForQuery_def m_def [symmetric] query_code_def)
  next
    case 2
    then show ?thesis using plain [of "fst ?nd" _ _ "snd ?nd"] ex unfolding same
      by (auto simp: respondForQuery_def m_def [symmetric] query_code_def Let_def case_prod_beta)
  next
    case 3
    then show ?thesis using plain [of "fst ?cd" _ _ "snd ?cd"] ex unfolding same
      by (auto simp: respondForQuery_def m_def [symmetric] query_code_def Let_def case_prod_beta)
  next
    case 4
    then show ?thesis using plain [of p] by (auto simp: respondForQuery_def m_def [symmetric] query_code_def)
  next
    case 5
    show ?thesis
    proof (cases "synthesize p (rqName rq) (rqQType rq) obs m = []")
      case True
      have "snd (respondForQuery env clk p rq (rqName rq) q obs) =
          respond env (fst ?nd) rq RcodeSuccess [] (snd ?nd) False [edeFor m]"
        using 5 True by (simp add: respondForQuery_def m_def [symmetric] Let_def case_prod_beta)
      then show ?thesis
        using withE [of "fst ?nd" RcodeSuccess "[]" "snd ?nd" False] 5 True unfolding same
        by (intro exI [of _ "snd ?nd"]) (simp add: query_code_def full_answer_def m_def [symmetric])
    next
      case False
      have "snd (respondForQuery env clk p rq (rqName rq) q obs) =
          respond env p rq RcodeSuccess (full_answer env clk p rq q obs) [] False [edeFor m]"
        using 5 False by (simp add: respondForQuery_def full_answer_def m_def [symmetric] Let_def option_list_def split: option.split)
      then show ?thesis using withE [of p] 5 False
        by (intro exI [of _ "[]"]) (simp add: query_code_def full_answer_def m_def [symmetric] Let_def)
    qed
  qed
qed

text \<open>The records of a denial, and the signatures that follow them.\<close>

definition denial_records :: "'s Probe \<Rightarrow> string \<Rightarrow> bool \<Rightarrow> u16 list \<Rightarrow> rr list" where
  "denial_records p name dnssec bitmap =
     soa p # (if dnssec then [mk_rr name TypeNSEC (pTTL p) (NSEC_rr (CHR 0x5C # ''000.'' @ name) bitmap)] else [])"

definition denial_signatures :: "'s probe_env \<Rightarrow> clock \<Rightarrow> 's Probe \<Rightarrow> string \<Rightarrow> Modifier \<Rightarrow> bool \<Rightarrow> u16 list \<Rightarrow> rr list" where
  "denial_signatures env clk p name mods dnssec bitmap =
     (if dnssec
      then option_list (probe_sign env p (tSign clk) (tl (denial_records p name dnssec bitmap)) mods) @
           option_list (snd (signSOA env clk p (soa p) mods))
      else [])"

lemma denial_shape:
  "snd (denial env clk p name mods d bitmap) = denial_records p name d bitmap @ denial_signatures env clk p name mods d bitmap"
  by (simp add: denial_def denial_records_def denial_signatures_def Let_def case_prod_beta split: option.split)

lemma denial_signatures_store:
  "denial_signatures env clk (p\<lparr>pCounters := cc, pStore := st\<rparr>) name mods d bitmap = denial_signatures env clk p name mods d bitmap"
  by (simp add: denial_signatures_def denial_records_def signSOA_def probe_sign_def soa_def Let_def split: option.split)

lemma denial_records_config: "same_config p p' \<Longrightarrow> denial_records p' = denial_records p"
  by (intro ext) (auto simp: denial_records_def soa_def dest!: same_configD)


section \<open>The store and the answer\<close>

text \<open>
  The contract of the \<open>Store\<close> interface the answer relies on: what \<open>Record\<close> returns is the observation with its ordinal,
  whether or not it could be kept.
\<close>

locale observation_sink =
  fixes rec :: "int \<Rightarrow> Observation \<Rightarrow> 's \<Rightarrow> 's \<times> Observation"
  assumes seen_only: "oAt obs \<noteq> 0 \<Longrightarrow> \<exists>n. snd (rec now obs s) = obs\<lparr>oSeen := n\<rparr>"
begin

lemma resolver_kept: "oAt obs \<noteq> 0 \<Longrightarrow> oResolverAddr (snd (rec now obs s)) = oResolverAddr obs"
  using seen_only [of obs now s] by auto

end

definition mem_record :: "int \<Rightarrow> Observation \<Rightarrow> MemStore \<Rightarrow> MemStore \<times> Observation" where
  "mem_record now obs s = (let (s', obs', _) = Record now obs s in (s', obs'))"

interpretation mem_sink: observation_sink mem_record
  by unfold_locales (auto simp: mem_record_def Record_def Let_def)

lemma oAt_apply: "oAt (applyECSObservation v obs) = oAt obs" "oAt (fold apply_option os obs) = oAt obs"
proof -
  show e: "oAt (applyECSObservation v obs) = oAt obs" for v obs
    by (auto simp: applyECSObservation_def Let_def split: option.splits)
  have "oAt (apply_option o' obs) = oAt obs" for o' obs by (cases o') (simp_all add: e)
  then show "oAt (fold apply_option os obs) = oAt obs" by (induction os arbitrary: obs) simp_all
qed

lemma oAt_annotated: "oAt (annotated env clk p rq q raw) = tObserve clk"
  by (auto simp: annotated_def Observe_def applyEDNSObservation_def oAt_apply Let_def case_prod_beta split: option.split)

text \<open>Replacing the store and its methods changes nothing else.\<close>

abbreviation (input) other_store :: "'s probe_env \<Rightarrow> (int \<Rightarrow> Observation \<Rightarrow> 's \<Rightarrow> 's \<times> Observation) \<Rightarrow> (int \<Rightarrow> ReportRecord \<Rightarrow> 's \<Rightarrow> 's) \<Rightarrow> 's probe_env"
  where "other_store env r rr \<equiv> env\<lparr>env_record := r, env_recordReport := rr\<rparr>"

named_theorems store_free

lemma store_sels [store_free]:
  "env_dns (other_store env r rr) = env_dns env" "env_tls (other_store env r rr) = env_tls env"
  "env_sign (other_store env r rr) = env_sign env" "env_parseAddr (other_store env r rr) = env_parseAddr env"
  "env_matches (other_store env r rr) = env_matches env" "env_setRcode (other_store env r rr) = env_setRcode env"
  "env_sizeAndDo (other_store env r rr) = env_sizeAndDo env" "env_scrub (other_store env r rr) = env_scrub env"
  "pSigner (p\<lparr>pStore := st\<rparr>) = pSigner p" "pSoaSigs (p\<lparr>pStore := st\<rparr>) = pSoaSigs p" "pZone (p\<lparr>pStore := st\<rparr>) = pZone p"
  "pNSName (p\<lparr>pStore := st\<rparr>) = pNSName p" "pMbox (p\<lparr>pStore := st\<rparr>) = pMbox p"
  "pAgentDomain (p\<lparr>pStore := st\<rparr>) = pAgentDomain p" "pECHConfigList (p\<lparr>pStore := st\<rparr>) = pECHConfigList p"
  "pBigSize (p\<lparr>pStore := st\<rparr>) = pBigSize p" "pTTL (p\<lparr>pStore := st\<rparr>) = pTTL p" "pAgentTTL (p\<lparr>pStore := st\<rparr>) = pAgentTTL p"
  "pCounters (p\<lparr>pStore := st\<rparr>) = pCounters p"
  by simp_all

lemma parts_store [store_free]:
  "zoneMatches (other_store env r rr) = zoneMatches env"
  "probe_sign (other_store env r rr) (p\<lparr>pStore := st\<rparr>) = probe_sign env p"
  "respond (other_store env r rr) (p\<lparr>pStore := st\<rparr>) = respond env p"
  "respondDNSSD (other_store env r rr) (p\<lparr>pStore := st\<rparr>) = respondDNSSD env p"
  "respondAgent (other_store env r rr) (p\<lparr>pStore := st\<rparr>) = respondAgent env p"
  "serveAgentApex (other_store env r rr) (p\<lparr>pStore := st\<rparr>) = serveAgentApex env p"
  "soa (p\<lparr>pStore := st\<rparr>) = soa p" "synthesize (p\<lparr>pStore := st\<rparr>) = synthesize p"
  "addrOf (other_store env r rr) = addrOf env" "type_text (other_store env r rr) = type_text env"
  "annotated (other_store env r rr) clk (p\<lparr>pStore := st\<rparr>) = annotated env clk p"
  "zoneKeyLabel (p\<lparr>pStore := st\<rparr>) = zoneKeyLabel p"
  unfolding fun_eq_iff zoneMatches_def probe_sign_def respond_def attach_zoneversion_def respondDNSSD_def respondAgent_def
    agentSOA_def soa_def synthesize_def addrOf_def type_text_def annotated_def zoneKeyLabel_def serveAgentApex_def store_free
  by simp_all

lemma signSOA_store [store_free]:
  "signSOA (other_store env r rr) clk (p\<lparr>pStore := st\<rparr>) rec mods =
     (let (p', s) = signSOA env clk p rec mods in (p'\<lparr>pStore := st\<rparr>, s))"
  unfolding signSOA_def store_free by (simp add: Let_def split: option.split)

lemma denial_store [store_free]:
  "denial (other_store env r rr) clk (p\<lparr>pStore := st\<rparr>) name mods d bm =
     (let (p', s) = denial env clk p name mods d bm in (p'\<lparr>pStore := st\<rparr>, s))"
proof (cases "signSOA env clk p (soa p) mods")
  case (Pair p' s)
  show ?thesis unfolding denial_def store_free Pair Let_def case_prod_conv by (cases d) simp_all
qed

lemma respondForQuery_store [store_free]:
  "respondForQuery (other_store env r rr) clk (p\<lparr>pStore := st\<rparr>) rq name q obs =
     (let (p', out) = respondForQuery env clk p rq name q obs in (p'\<lparr>pStore := st\<rparr>, out))"
proof -
  obtain p1 a1 where d1: "denial env clk p name (Mods q) (rqDo rq) [TypeRRSIG, TypeNSEC] = (p1, a1)" by force
  obtain p2 a2 where d2: "denial env clk p name (Mods q) (rqDo rq) [TypeRRSIG, TypeNSEC, TypeNXNAME] = (p2, a2)" by force
  note rules = respondForQuery_def denials store_free d1 d2 Let_def case_prod_conv if_True if_False simp_thms
  show ?thesis
    by (cases "Has (Mods q) ModServfail"; cases "Has (Mods q) ModNXDOMAIN"; cases "Has (Mods q) ModNXNAME";
        cases "Has (Mods q) ModTruncate"; cases "synthesize p name (rqQType rq) obs (Mods q) = []"; simp only: rules)
qed

lemma serveApex_store [store_free]:
  "snd (serveApex (other_store env r rr) clk (p\<lparr>pStore := st\<rparr>) rq) = snd (serveApex env clk p rq)"
proof -
  obtain p1 a1 where d: "denial env clk p (pZone p) 0 (rqDo rq) [TypeRRSIG, TypeNSEC] = (p1, a1)" by force
  define ans where "ans = (if rqQType rq = TypeSOA then [soa p]
                    else if rqQType rq = TypeNS then [mk_rr (pZone p) TypeNS (pTTL p) (NS_rr (pNSName p))]
                    else if rqQType rq = TypeDNSKEY then (case pSigner p of None \<Rightarrow> [] | Some s \<Rightarrow> [sKey s]) else [])"
  obtain p2 s2 where s2: "signSOA env clk p (ans ! 0) 0 = (p2, s2)" by force
  show ?thesis
    unfolding serveApex_def denials countDNSKEYKeyTags_def store_free ans_def [symmetric] d Let_def case_prod_conv s2
    by (cases "ans = []"; cases "rqDo rq"; cases "Rdata (ans ! 0)") (simp_all add: store_free)
qed

lemma serveKeyTagQuery_store [store_free]:
  "snd (serveKeyTagQuery (other_store env r rr) clk (p\<lparr>pStore := st\<rparr>) rq tags) = snd (serveKeyTagQuery env clk p rq tags)"
  unfolding serveKeyTagQuery_def denials store_free by (simp add: Let_def case_prod_beta store_free)

text \<open>The same for a change of the store alone.\<close>

lemma respondAgent_here: "respondAgent env (p\<lparr>pStore := st\<rparr>) = respondAgent env p"
  using parts_store(5) [where env = env and r = "env_record env" and rr = "env_recordReport env" and p = p and st = st] by simp

lemma respondForQuery_here: "snd (respondForQuery env clk (p\<lparr>pStore := st\<rparr>) rq name q obs) = snd (respondForQuery env clk p rq name q obs)"
  using respondForQuery_store [where env = env and r = "env_record env" and rr = "env_recordReport env" and p = p and st = st]
  by (simp add: Let_def case_prod_beta)

lemma respondForQuery_seen:
  "rqQType rq \<noteq> TypeTXT \<Longrightarrow>
     respondForQuery env clk p rq name q (obs\<lparr>oSeen := n\<rparr>) = respondForQuery env clk p rq name q obs"
  unfolding respondForQuery_def by (simp add: synthesize_def)

text \<open>The observation of a DNS-SD query and the reply to it, without the store.\<close>

lemma serveDNSSD_out:
  "snd (serveDNSSD (other_store env r rr) clk (p\<lparr>pStore := st\<rparr>) rq kind token) = snd (serveDNSSD env clk p rq kind token)"
proof -
  obtain tr ti where t: "transportFrom (env_tls env) (rqWriter rq) (rqProto rq) = (tr, ti)" by force
  define obs where "obs = (Observe (type_text env) (tObserve clk) \<lparr>Token = token, Mods = 0\<rparr> (rqName rq) (addrOf env rq) tr
    (rqQType rq) (rqMsg rq))\<lparr>oTLS := ti\<rparr>"
  obtain cc evs where m: "recordMetrics obs (pCounters p) = (cc, evs)" by force
  obtain a x where ax: "synthesizeDNSSD (pZone p) (pNSName p) (pTTL p) kind token (rqQType rq) = (a, x)" by force
  let ?P = "p\<lparr>pCounters := cc\<rparr>"
  obtain p1 a1 where d: "denial env clk ?P (rqName rq) 0 (rqDo rq) [TypeRRSIG, TypeNSEC] = (p1, a1)" by force
  have "snd (serveDNSSD (other_store env r' rr') clk (p\<lparr>pStore := st'\<rparr>) rq kind token) =
      (evs, if a = [] then respond env p1 rq RcodeSuccess [] a1 False []
            else respondDNSSD env ?P rq (if rqDo rq then (case probe_sign env ?P (tSign clk) a 0 of Some s \<Rightarrow> a @ [s] | None \<Rightarrow> a) else a) x)"
    for r' rr' st'
  proof -
    obtain st2 o2 where r2: "r' (tStore clk) obs st' = (st2, o2)" by force
    have P: "p\<lparr>pStore := st', pCounters := cc, pStore := st2\<rparr> = ?P\<lparr>pStore := st2\<rparr>" by simp
    have e: "env_record (other_store env r' rr') = r'" "pStore (p\<lparr>pStore := st'\<rparr>) = st'" by simp_all
    have c: "pZone (p\<lparr>pStore := st', pCounters := cc\<rparr>) = pZone p" "pNSName (p\<lparr>pStore := st', pCounters := cc\<rparr>) = pNSName p"
      "pTTL (p\<lparr>pStore := st', pCounters := cc\<rparr>) = pTTL p" by simp_all
    note rules = store_free c ax d Let_def case_prod_conv if_True if_False snd_conv simp_thms
    show ?thesis
      unfolding serveDNSSD_def denials Let_def e store_sels parts_store(9,10) t case_prod_conv obs_def [symmetric] m r2 P
      by (cases "a = []") (simp_all only: rules)
  qed
  from this [where r' = r and rr' = rr and st' = st]
    this [where r' = "env_record env" and rr' = "env_recordReport env" and st' = "pStore p"] show ?thesis by simp
qed

lemma serveReport_out:
  "snd (serveReport (other_store env r rr) clk (p\<lparr>pStore := st\<rparr>) rq) = snd (serveReport env clk p rq)"
  unfolding serveReport_def store_free Let_def
  by (simp add: case_prod_beta store_free respondAgent_here split: sum.split)

lemma answer_ignores_store:
  assumes "observation_sink (env_record env)" and "observation_sink r" and "tObserve clk \<noteq> 0" and "rqQType rq \<noteq> TypeTXT"
  shows "snd (probe_ServeDNS (env\<lparr>env_record := r, env_recordReport := rr\<rparr>) clk (p\<lparr>pStore := st\<rparr>) rq) =
    snd (probe_ServeDNS env clk p rq)"
proof -
  have q: "snd (let (p1, evs, obs) = observeAndRecord (other_store env r' rr') clk (p\<lparr>pStore := st'\<rparr>) rq q raw;
                    (p2, out) = respondForQuery (other_store env r' rr') clk p1 rq name q obs in (p2, evs, out)) =
      (snd (recordMetrics (annotated env clk p rq q raw) (pCounters p)),
       snd (respondForQuery env clk (p\<lparr>pCounters := fst (recordMetrics (annotated env clk p rq q raw) (pCounters p))\<rparr>) rq name q
         (annotated env clk p rq q raw)))"
    if sink: "observation_sink r'" for r' rr' st' q raw name
  proof -
    let ?obs = "annotated env clk p rq q raw"
    obtain cc evs where m: "recordMetrics ?obs (pCounters p) = (cc, evs)" by force
    obtain st2 o2 where r2: "r' (tStore clk) ?obs st' = (st2, o2)" by force
    then obtain n where n: "o2 = ?obs\<lparr>oSeen := n\<rparr>"
      using observation_sink.seen_only [OF sink, of ?obs "tStore clk" st'] assms(3) by (auto simp: oAt_annotated)
    have P: "p\<lparr>pStore := st', pCounters := cc, pStore := st2\<rparr> = p\<lparr>pCounters := cc\<rparr>\<lparr>pStore := st2\<rparr>" by simp
    have e: "env_record (other_store env r' rr') = r'" "pStore (p\<lparr>pStore := st'\<rparr>) = st'" by simp_all
    obtain p3 out where o3: "respondForQuery env clk (p\<lparr>pCounters := cc\<rparr>) rq name q ?obs = (p3, out)" by force
    have "observeAndRecord (other_store env r' rr') clk (p\<lparr>pStore := st'\<rparr>) rq q raw = (p\<lparr>pCounters := cc\<rparr>\<lparr>pStore := st2\<rparr>, evs, o2)"
      unfolding observeAndRecord_def Let_def parts_store(11) e store_sels m r2 case_prod_conv P ..
    then show ?thesis
      by (simp only: Let_def case_prod_conv respondForQuery_store n respondForQuery_seen [OF assms(4)] o3 m fst_conv snd_conv)
  qed
  from q [OF assms(2), where rr' = rr and st' = st]
    q [OF assms(1), where rr' = "env_recordReport env" and st' = "pStore p"]
  have both: "snd (let (p1, evs, obs) = observeAndRecord (other_store env r rr) clk (p\<lparr>pStore := st\<rparr>) rq q raw;
                    (p2, out) = respondForQuery (other_store env r rr) clk p1 rq name q obs in (p2, evs, out)) =
      snd (let (p1, evs, obs) = observeAndRecord env clk p rq q raw;
               (p2, out) = respondForQuery env clk p1 rq name q obs in (p2, evs, out))" for q raw name by simp
  let ?sub = "trim_suffix (trim_suffix (rqName rq) (pZone p)) ''.''"
  note rules = probe_ServeDNS_def store_sels parts_store Let_def if_True if_False serveReport_out serveApex_store serveDNSSD_out
    serveKeyTagQuery_store snd_conv case_prod_conv sum.case keytag_error.case option.case simp_thms
  obtain kind token where k: "parseDNSSD ?sub = (kind, token)" by force
  consider (agent) "pAgentDomain p \<noteq> [] \<and> zoneMatches env (pAgentDomain p) (rqName rq)"
    | (other) "\<not> (pAgentDomain p \<noteq> [] \<and> zoneMatches env (pAgentDomain p) (rqName rq))" "\<not> zoneMatches env (pZone p) (rqName rq)"
    | (zone) "\<not> (pAgentDomain p \<noteq> [] \<and> zoneMatches env (pAgentDomain p) (rqName rq))" "zoneMatches env (pZone p) (rqName rq)" by blast
  then show ?thesis
  proof cases
    case zone
    consider "rqQType rq = TypeNXNAME" | "rqQType rq \<noteq> TypeNXNAME" "?sub = []"
      | "rqQType rq \<noteq> TypeNXNAME" "?sub \<noteq> []" "kind \<noteq> dnssdNone"
      | "rqQType rq \<noteq> TypeNXNAME" "?sub \<noteq> []" "kind = dnssdNone" by blast
    then show ?thesis
    proof cases
      case 4
      then show ?thesis
        using zone k both [unfolded Let_def]
        by (cases "ParseKeyTagQuery ?sub"; cases "projl (ParseKeyTagQuery ?sub)"; cases "ParseQuery ?sub") (simp_all only: rules, simp_all)
    qed (use zone k in \<open>auto simp only: rules\<close>)
  qed (auto simp only: rules)
qed

text \<open>
  C26: the store cannot change an answer. Whatever the state of the store and whatever its methods do with it, as long as
  \<open>Record\<close> returns the observation up to its ordinal, every request gets the same reply and the same metric events, with
  the one exception of a TXT readout, which reports the ordinal. A full, failing or replaced store degrades the
  measurement only. (The error \<open>Record\<close> may return beside the observation is only logged by the handler, so the interface here has the
  observation alone.)
\<close>

theorem store_cannot_change_the_answer:
  assumes "observation_sink (env_record env)" and "observation_sink r" and "tObserve clk \<noteq> 0" and "rqQType rq \<noteq> TypeTXT"
  shows "snd (probe_ServeDNS (env\<lparr>env_record := r, env_recordReport := rr\<rparr>) clk (p\<lparr>pStore := st\<rparr>) rq) =
    snd (probe_ServeDNS env clk p rq)"
  using assms by (rule answer_ignores_store)

section \<open>A concrete environment\<close>

definition plain_env :: "MemStore probe_env" where
  "plain_env =
     \<lparr>env_dns = plain_dns,
      env_tls = \<lparr>VersionName = (\<lambda>_. ''TLS 1.3''), CipherSuiteName = (\<lambda>_. []), CurveName = (\<lambda>_. ''X25519'')\<rparr>,
      env_sign = (\<lambda>_ _. Some ''QUJD''), env_parseAddr = (\<lambda>_. None),
      env_matches = (\<lambda>z n. pIsSubDomain plain_dns z n),
      env_setRcode = (\<lambda>r rc. r\<lparr>Rcode := rc, Question := take 1 (Question r), Answer := [], Ns := [], Extra := [], Opt := None\<rparr>),
      env_sizeAndDo = (\<lambda>rq m. m\<lparr>Opt := map_option (\<lambda>o'. o'\<lparr>Options := filter echoed_option (Options o')\<rparr>) (Opt (rqMsg rq))\<rparr>),
      env_scrub = (\<lambda>_ m. m), env_record = mem_record,
      env_recordReport = (\<lambda>now rec s. fst (RecordReport now rec s))\<rparr>"

lemma plain_env_ok: "env_ok plain_env"
  unfolding env_ok_def
proof (intro conjI allI, goal_cases)
  case (2 rq m)
  show ?case
    by (intro impI, rule exI [of _ "map_option (\<lambda>o'. o'\<lparr>Options := filter echoed_option (Options o')\<rparr>) (Opt (rqMsg rq))"])
      (auto simp: plain_env_def list_all_iff)
next
  case (3 rq m)
  show ?case using scrubbed_refl [of m] by (simp add: plain_env_def scrubbed_def)
qed (simp add: plain_env_def)

lemma plain_env_scrub: "scrub_ok plain_env"
  by (simp add: scrub_ok_def plain_env_def)

lemma plain_respond: "respond plain_env p rq rc a b tc ext = Reply m c err \<Longrightarrow> Truncated m = tc"
proof -
  have fold: "Truncated (fold attachEDE es x) = Truncated x" for es x
    by (induction es arbitrary: x) (simp_all add: same_answerD(4) [OF same_answer_EDE])
  have "Truncated (attach_zoneversion e q x) = Truncated x" for e :: "MemStore probe_env" and q x
    by (simp add: attach_zoneversion_def append_option_def split: option.split)
  then show "respond plain_env p rq rc a b tc ext = Reply m c err \<Longrightarrow> Truncated m = tc"
    by (auto simp: respond_def write_reply_def Let_def plain_env_def fold same_answerD(4) [OF same_answer_channel] split: if_splits)
qed

definition example_signer :: Signer where
  "example_signer =
     \<lparr>sKey = mk_rr ''check.example.'' TypeDNSKEY 10 (Other ''257 3 13 ...''), sAlgorithm = 13, sOwner = ''check.example.'',
      sValidity = defaultSigValidity, sKeyTag = 4711\<rparr>"

definition example_probe :: "MemStore Probe" where
  "example_probe =
     \<lparr>pStore = NewMemStore 0 0 0, pSigner = Some example_signer, pSoaSigs = replicate 16 None, pZone = ''check.example.'',
      pNSName = ''ns.check.example.'', pMbox = ''hostmaster.check.example.'', pAgentDomain = ''agent.example.'',
      pECHConfigList = [0, 1, 2], pBigSize = 1400, pTTL = 10, pAgentTTL = 300, pCounters = empty_cache\<rparr>"

definition example_clock :: "int \<Rightarrow> clock" where
  "example_clock s =
     (let t = (62135596800 + 1700000000 + s) * 1000000000 in
      \<lparr>tObserve = t, tStore = t, tSign = t, tCache = t, tCacheSign = t\<rparr>)"

definition example_request :: "string \<Rightarrow> u16 \<Rightarrow> request" where
  "example_request name t =
     \<lparr>rqMsg = \<lparr>Id = 7, Opcode = 0, Rcode = 0, Authoritative = False, Truncated = False,
               Question = [\<lparr>QName = name, Qtype = t, Qclass = 1\<rparr>], Answer = [], Ns = [], Extra = [],
               Opt = Some \<lparr>OptTtl = 0x8000, UDPSize = 1232, Options = []\<rparr>\<rparr>,
      rqName = name, rqQType = t, rqQClass = 1, rqDo = True, rqProto = ''udp'', rqIP = ''192.0.2.1'',
      rqRemote = UDPAddr [192, 0, 2, 1], rqWriter = None, rqWriteOk = True\<rparr>"

lemma example_probe_sel [simp]:
  "pZone example_probe = ''check.example.''" "pAgentDomain example_probe = ''agent.example.''"
  "rqName (example_request n t) = n" "rqQType (example_request n t) = t" "rqDo (example_request n t) = True"
  "Opt (rqMsg (example_request n t)) = Some \<lparr>OptTtl = 0x8000, UDPSize = 1232, Options = []\<rparr>"
  by (simp_all add: example_probe_def example_request_def)

text \<open>A name no grammar accepts is refused.\<close>

theorem reply_code_of_every_name_witness:
  "\<exists>m c err. snd (snd (probe_ServeDNS plain_env (example_clock 0) example_probe (example_request ''_nope.deadbeef.check.example.'' 1))) =
     Reply m c err \<and> Rcode m = RcodeRefused"
proof -
  let ?rq = "example_request ''_nope.deadbeef.check.example.'' 1"
  have z: "zoneMatches plain_env (pZone example_probe) (rqName ?rq)"
    "\<not> zoneMatches plain_env (pAgentDomain example_probe) (rqName ?rq)"
    by (simp_all add: zoneMatches_def)
  have "name_code 1 ''_nope.deadbeef'' = RcodeRefused" by code_simp
  moreover have "trim_suffix (trim_suffix (rqName ?rq) (pZone example_probe)) ''.'' = ''_nope.deadbeef''"
    by (simp add: trim_suffix_def has_suffix_def)
  ultimately show ?thesis
    using reply_code_of_every_name [OF plain_env_ok z(1), of "example_clock 0"] z(2) by auto
qed


text \<open>The in-process store, full or empty, gives the same address answer as a store that keeps nothing.\<close>

theorem store_cannot_change_the_answer_witness:
  "snd (probe_ServeDNS (plain_env\<lparr>env_record := \<lambda>_ obs s. (s, obs), env_recordReport := \<lambda>_ _ s. s\<rparr>) (example_clock 0)
      (example_probe\<lparr>pStore := NewMemStore 1 1 1\<rparr>) (example_request ''deadbeef.check.example.'' 1)) =
   snd (probe_ServeDNS plain_env (example_clock 0) example_probe (example_request ''deadbeef.check.example.'' 1))"
proof -
  have "observation_sink (env_record plain_env)" using mem_sink.observation_sink_axioms by (simp add: plain_env_def)
  moreover have "observation_sink (\<lambda>_ obs (s :: MemStore). (s, obs))"
  proof
    show "\<exists>n. snd (s, obs) = obs\<lparr>oSeen := n\<rparr>" for obs :: Observation and s :: MemStore
      by (rule exI [of _ "oSeen obs"]) simp
  qed
  ultimately show ?thesis
    by (rule store_cannot_change_the_answer) (simp_all add: example_clock_def Let_def)
qed

end
