(* ===== verification/Probe_Soacache.thy ===== *)
theory Probe_Soacache
  imports Probe_Answers
begin

text \<open>
  The cache of signatures over the apex SOA (\<open>signSOA\<close> in \<open>probe.go\<close>): what a slot holds in every history of requests, and
  how old the signature of a denial or of the apex can be. The clock is monotone from one request to the next, and a signature
  is made after the reading that dates it.
\<close>

unbundle bit_operations_syntax

section \<open>Slots\<close>

lemma unat_le_and: "unat (w AND v) \<le> unat (v :: 'a::len word)"
proof -
  have "uint (w AND v) \<le> uint v" by (simp add: uint_and AND_upper2)
  then show ?thesis by (simp add: word_le_nat_alt [symmetric] word_le_def)
qed

lemma slot_bound: "unat (m AND signatureMods) < 16"
proof -
  have "unat signatureMods = 15" by code_simp
  then show ?thesis using unat_le_and [of m signatureMods] by simp
qed

text \<open>Only the signature modifiers matter to a signature.\<close>

lemma Has_signature_mods:
  assumes "f \<in> {ModUnsigned, ModBadSig, ModExpiredSig, ModFutureSig}"
  shows "Has (m AND signatureMods) f = Has m f"
proof -
  have "signatureMods AND f = f" using assms by (elim insertE emptyE) (simp_all, code_simp+)
  then show ?thesis by (simp add: Has_def and.assoc)
qed

lemma probe_sign_mods: "probe_sign env p now rrs (m AND signatureMods) = probe_sign env p now rrs m"
proof -
  have "Has (m AND signatureMods) ModUnsigned = Has m ModUnsigned" "Has (m AND signatureMods) ModBadSig = Has m ModBadSig"
    "Has (m AND signatureMods) ModExpiredSig = Has m ModExpiredSig" "Has (m AND signatureMods) ModFutureSig = Has m ModFutureSig"
    by (simp_all add: Has_signature_mods)
  then show ?thesis unfolding probe_sign_def signRRset_def sig_window_def by (simp only:)
qed

lemma probe_sign_same_slot:
  "m AND signatureMods = m' AND signatureMods \<Longrightarrow> probe_sign env p now rrs m = probe_sign env p now rrs m'"
  by (metis probe_sign_mods)

section \<open>Histories\<close>

lemma probe_sign_config: "same_config p p' \<Longrightarrow> probe_sign env p' = probe_sign env p"
  by (intro ext) (auto simp: probe_sign_def dest!: same_configD)

lemma soa_config: "same_config p p' \<Longrightarrow> soa p' = soa p"
  by (auto simp: soa_def dest!: same_configD)

text \<open>One request writes at most one slot, with a signature over the SOA made then.\<close>

definition sigs_step :: "'s probe_env \<Rightarrow> clock \<Rightarrow> 's Probe \<Rightarrow> 's Probe \<Rightarrow> bool" where
  "sigs_step env clk p p' \<longleftrightarrow> same_config p p' \<and>
     (pSoaSigs p' = pSoaSigs p \<or>
      (\<exists>m. pSoaSigs p' = (pSoaSigs p)[unat (m AND signatureMods) :=
         Some \<lparr>made = tCache clk, sig = probe_sign env p (tCacheSign clk) [soa p] m\<rparr>]))"

lemma sigs_step_refl [simp]: "sigs_step env clk p p"
  by (simp add: sigs_step_def)

lemma same_config_trans: "same_config p q \<Longrightarrow> same_config q r \<Longrightarrow> same_config p r"
  unfolding same_config_def by (elim exE) (simp, blast)

lemma sigs_step_after:
  assumes "same_config p q" "pSoaSigs q = pSoaSigs p" "sigs_step env clk q r"
  shows "sigs_step env clk p r"
  using assms same_config_trans [of p q r] by (simp add: sigs_step_def probe_sign_config soa_config)

lemma signSOA_step: "sigs_step env clk p (fst (signSOA env clk p (soa p) mods))"
proof -
  have "pSoaSigs (fst (signSOA env clk p (soa p) mods)) = pSoaSigs p \<or>
      pSoaSigs (fst (signSOA env clk p (soa p) mods)) = (pSoaSigs p)[unat (mods AND signatureMods) :=
         Some \<lparr>made = tCache clk, sig = probe_sign env p (tCacheSign clk) [soa p] mods\<rparr>]"
    by (auto simp: signSOA_def Let_def split: option.split)
  then show ?thesis using sigs_only_config [OF signSOA_sigs] unfolding sigs_step_def by blast
qed

lemma denial_step: "sigs_step env clk p (fst (denial env clk p name mods d bm))"
  by (simp add: denial_def Let_def case_prod_beta signSOA_step)

lemmas denial_steps = denial_step [of env clk p name mods d "[TypeRRSIG, TypeNSEC]" for env clk p name mods d]
  denial_step [of env clk p name mods d "[TypeRRSIG, TypeNSEC, TypeNXNAME]" for env clk p name mods d]

definition key_is_no_soa :: "'s Probe \<Rightarrow> bool" where
  "key_is_no_soa p \<longleftrightarrow> (\<forall>s x. pSigner p = Some s \<longrightarrow> Rdata (sKey s) \<noteq> SOA x)"

lemma respondForQuery_step: "sigs_step env clk p (fst (respondForQuery env clk p rq name q obs))"
  by (simp add: respondForQuery_def denials Let_def case_prod_beta denial_steps)

lemma serveKeyTagQuery_step: "sigs_step env clk p (fst (serveKeyTagQuery env clk p rq tags))"
  by (simp add: serveKeyTagQuery_def denials Let_def case_prod_beta denial_steps)

lemma serveApex_step:
  assumes "key_is_no_soa p"
  shows "sigs_step env clk p (fst (serveApex env clk p rq))"
proof -
  define ans where "ans = (if rqQType rq = TypeSOA then [soa p]
                    else if rqQType rq = TypeNS then [mk_rr (pZone p) TypeNS (pTTL p) (NS_rr (pNSName p))]
                    else if rqQType rq = TypeDNSKEY then (case pSigner p of None \<Rightarrow> [] | Some s \<Rightarrow> [sKey s]) else [])"
  have a: "ans = [] \<or> ans ! 0 = soa p \<or> (\<forall>x. Rdata (ans ! 0) \<noteq> SOA x)"
    using assms by (auto simp: ans_def mk_rr_def key_is_no_soa_def split: option.split)
  have "sigs_step env clk p (fst (case Rdata (ans ! 0) of SOA x \<Rightarrow> signSOA env clk p (ans ! 0) 0 | _ \<Rightarrow> (p, y)))" if "ans \<noteq> []" for y
    using a that by (cases "Rdata (ans ! 0)") (auto simp: signSOA_step)
  then show ?thesis
    unfolding serveApex_def denials Let_def ans_def [symmetric] by (simp add: case_prod_beta denial_steps)
qed

lemma observe_sigs: "pSoaSigs (fst (observeAndRecord env clk p rq q raw)) = pSoaSigs p"
  by (simp add: observeAndRecord_def Let_def case_prod_beta)

lemma same_config_recorded: "same_config p (p\<lparr>pCounters := cc, pStore := st\<rparr>)" "same_config p (p\<lparr>pStore := st\<rparr>)"
proof -
  have "p\<lparr>pCounters := cc, pStore := st\<rparr> = p\<lparr>pStore := st, pSoaSigs := pSoaSigs p, pCounters := cc\<rparr>"
    "p\<lparr>pStore := st\<rparr> = p\<lparr>pStore := st, pSoaSigs := pSoaSigs p, pCounters := pCounters p\<rparr>" by simp_all
  then show "same_config p (p\<lparr>pCounters := cc, pStore := st\<rparr>)" "same_config p (p\<lparr>pStore := st\<rparr>)"
    unfolding same_config_def by blast+
qed

lemma serveDNSSD_step: "sigs_step env clk p (fst (serveDNSSD env clk p rq kind token))"
proof -
  have "sigs_step env clk p (fst (denial env clk (p\<lparr>pCounters := cc, pStore := st\<rparr>) name 0 d [TypeRRSIG, TypeNSEC]))" for cc st name d
    by (rule sigs_step_after [OF same_config_recorded(1) _ denial_step]) simp
  moreover have "sigs_step env clk p (p\<lparr>pCounters := cc, pStore := st\<rparr>)" for cc st
    by (rule sigs_step_after [OF same_config_recorded(1) _ sigs_step_refl]) simp
  ultimately show ?thesis by (simp add: serveDNSSD_def denials Let_def case_prod_beta)
qed

lemma serveReport_step: "sigs_step env clk p (fst (serveReport env clk p rq))"
proof -
  have "sigs_step env clk p (p\<lparr>pStore := st\<rparr>)" for st
    by (rule sigs_step_after [OF same_config_recorded(2) _ sigs_step_refl]) simp
  then show ?thesis by (simp add: serveReport_def Let_def case_prod_beta split: sum.split)
qed

lemma ServeDNS_step:
  assumes "key_is_no_soa p"
  shows "sigs_step env clk p (fst (probe_ServeDNS env clk p rq))"
proof -
  have "sigs_step env clk p (fst (respondForQuery env clk (fst (observeAndRecord env clk p rq q raw)) rq name q obs))" for q raw name obs
    by (rule sigs_step_after [OF observeAndRecord_config observe_sigs respondForQuery_step])
  then show ?thesis
    by (simp add: probe_ServeDNS_def Let_def case_prod_beta serveReport_step serveDNSSD_step serveKeyTagQuery_step
        serveApex_step [OF assms] split: sum.split keytag_error.split option.split)
qed

text \<open>The states a plugin passes through, with the time of the last request.\<close>

inductive soa_history :: "'s probe_env \<Rightarrow> 's Probe \<Rightarrow> int \<Rightarrow> 's Probe \<Rightarrow> bool" for env p0 where
  start: "soa_history env p0 t p0"
| serve: "soa_history env p0 t p \<Longrightarrow> t \<le> tCache clk \<Longrightarrow> tCache clk \<le> tCacheSign clk \<Longrightarrow>
    soa_history env p0 (tCacheSign clk) (fst (probe_ServeDNS env clk p rq))"

definition slots_ok :: "'s probe_env \<Rightarrow> 's Probe \<Rightarrow> int \<Rightarrow> 's Probe \<Rightarrow> bool" where
  "slots_ok env p0 t p \<longleftrightarrow> same_config p0 p \<and> length (pSoaSigs p) = 16 \<and>
     (\<forall>m c. pSoaSigs p ! unat (m AND signatureMods) = Some c \<longrightarrow>
        (\<exists>t0. made c \<le> t0 \<and> t0 \<le> t \<and> sig c = probe_sign env p0 t0 [soa p0] m))"

lemma slots_ok_step:
  assumes ok: "slots_ok env p0 t p" and step: "sigs_step env clk p p'" and t: "t \<le> tCache clk" "tCache clk \<le> tCacheSign clk"
  shows "slots_ok env p0 (tCacheSign clk) p'"
proof -
  have cfg: "same_config p0 p" "same_config p0 p'" using ok step same_config_trans by (auto simp: slots_ok_def sigs_step_def)
  have old: "\<exists>t0. made c \<le> t0 \<and> t0 \<le> tCacheSign clk \<and> sig c = probe_sign env p0 t0 [soa p0] m"
    if "pSoaSigs p ! unat (m AND signatureMods) = Some c" for m c
    using ok that t unfolding slots_ok_def by (meson order_trans)
  have "\<exists>t0. made c \<le> t0 \<and> t0 \<le> tCacheSign clk \<and> sig c = probe_sign env p0 t0 [soa p0] m"
    if c: "pSoaSigs p' ! unat (m AND signatureMods) = Some c" for m c
  proof (cases "pSoaSigs p' = pSoaSigs p")
    case True
    then show ?thesis using old c by simp
  next
    case False
    then obtain m' where p': "pSoaSigs p' = (pSoaSigs p)[unat (m' AND signatureMods) :=
        Some \<lparr>made = tCache clk, sig = probe_sign env p (tCacheSign clk) [soa p] m'\<rparr>]"
      using step by (auto simp: sigs_step_def)
    have len: "unat (m' AND signatureMods) < length (pSoaSigs p)" using ok slot_bound by (simp add: slots_ok_def)
    show ?thesis
    proof (cases "m AND signatureMods = m' AND signatureMods")
      case True
      then have "c = \<lparr>made = tCache clk, sig = probe_sign env p (tCacheSign clk) [soa p] m'\<rparr>"
        using c p' len by simp
      then have "sig c = probe_sign env p (tCacheSign clk) [soa p] m" "made c = tCache clk"
        by (simp_all add: probe_sign_same_slot [OF True])
      then show ?thesis using t(2) cfg(1) by (intro exI [of _ "tCacheSign clk"]) (simp add: probe_sign_config soa_config)
    next
      case False
      then have "unat (m AND signatureMods) \<noteq> unat (m' AND signatureMods)" by (simp add: word_unat_eq_iff)
      then show ?thesis using old c p' by simp
    qed
  qed
  moreover have "length (pSoaSigs p') = 16" using ok step by (auto simp: slots_ok_def sigs_step_def)
  ultimately show ?thesis using cfg(2) by (auto simp: slots_ok_def)
qed

lemma key_config: "same_config p p' \<Longrightarrow> key_is_no_soa p' = key_is_no_soa p"
  by (auto simp: key_is_no_soa_def dest!: same_configD)

lemma slots_ok_history:
  assumes "soa_history env p0 t p" and "key_is_no_soa p0" and "pSoaSigs p0 = replicate 16 None"
  shows "slots_ok env p0 t p"
  using assms(1)
proof induction
  case (start t)
  have "unat (m AND signatureMods) < 16" for m by (rule slot_bound)
  then show ?case using assms(3) by (simp add: slots_ok_def)
next
  case (serve t p clk rq)
  then have "key_is_no_soa p" using assms(2) key_config by (auto simp: slots_ok_def)
  then show ?case using slots_ok_step [OF serve.IH ServeDNS_step serve.hyps(2,3)] by blast
qed

section \<open>The age of a served signature\<close>

lemma time_Sub_less: "time_Sub t u < d \<Longrightarrow> d \<le> 2 ^ 63 - 1 \<Longrightarrow> t - u < d"
  by (simp add: time_Sub_def max_def min_def split: if_splits)

lemma signSOA_recent:
  assumes ok: "slots_ok env p0 t p" and t: "t \<le> tCache clk" "tCache clk \<le> tCacheSign clk"
    and s: "pSigner p0 = Some s"
  shows "\<exists>t0. snd (signSOA env clk p (soa p) mods) = probe_sign env p0 t0 [soa p0] mods \<and>
    tCache clk < t0 + soaSigMaxAge \<and> t0 \<le> tCacheSign clk"
proof -
  have cfg: "same_config p0 p" using ok by (simp add: slots_ok_def)
  have sg: "pSigner p = Some s" using s same_configD [OF cfg] by simp
  have fresh: ?thesis if "snd (signSOA env clk p (soa p) mods) = probe_sign env p (tCacheSign clk) [soa p] mods"
    using that t(2) cfg by (intro exI [of _ "tCacheSign clk"]) (simp add: probe_sign_config soa_config soaSigMaxAge_def)
  show ?thesis
  proof (cases "pSoaSigs p ! unat (mods AND signatureMods)")
    case None
    then show ?thesis using sg by (intro fresh) (simp add: signSOA_def Let_def)
  next
    case (Some c)
    then obtain t0 where t0: "made c \<le> t0" "t0 \<le> t" "sig c = probe_sign env p0 t0 [soa p0] mods"
      using ok by (auto simp: slots_ok_def)
    show ?thesis
    proof (cases "time_Sub (tCache clk) (made c) < soaSigMaxAge")
      case True
      then have "tCache clk - made c < soaSigMaxAge" by (rule time_Sub_less) (simp add: soaSigMaxAge_def)
      then show ?thesis using Some True sg t0 t by (intro exI [of _ t0]) (simp add: signSOA_def Let_def)
    next
      case False
      then show ?thesis using Some sg by (intro fresh) (simp add: signSOA_def Let_def)
    qed
  qed
qed

lemma probe_sign_Some: "probe_sign env p now rrs mods = Some x \<Longrightarrow> pSigner p = Some s \<Longrightarrow>
    signRRset (env_dns env) (env_sign env) s now rrs mods = Inr (Some x)"
  by (simp add: probe_sign_def split: sum.splits)

text \<open>
  C25: the signature cache is invisible to a validator. In every history of requests that starts with an empty cache, the
  signature over the apex SOA that a denial or the apex carries is, for a validity of at least 31 seconds and a signature begun
  within the validity of the reading that dates it, one whose window is what was asked for at the moment of the answer: around
  the clock, or over, or not yet begun, although the signature may have been made up to 30 seconds before.
\<close>

theorem cached_soa_signature_is_current:
  assumes "soa_history env p0 t p" and "key_is_no_soa p0" and "pSoaSigs p0 = replicate 16 None" and "pSigner p0 = Some s"
    and "t \<le> tCache clk" and "tCache clk \<le> tCacheSign clk" and "tCacheSign clk + 1000000000 \<le> tCache clk + sValidity s"
    and "31 * 1000000000 \<le> sValidity s" and "time_Unix (tCacheSign clk + 2 * sValidity s) < 2 ^ 32"
    and "snd (signSOA env clk p (soa p) mods) = Some x"
  shows "\<exists>sig. Rdata x = RRSIG_rr sig \<and> \<not> Has mods ModUnsigned \<and>
    (if Has mods ModExpiredSig then uint (Expiration sig) < time_Unix (tCache clk)
     else if Has mods ModFutureSig then time_Unix (tCache clk) < uint (Inception sig)
     else uint (Inception sig) < time_Unix (tCache clk) \<and> time_Unix (tCache clk) < uint (Expiration sig))"
proof -
  have ok: "slots_ok env p0 t p" using assms(1-3) by (rule slots_ok_history)
  obtain t0 where t0: "probe_sign env p0 t0 [soa p0] mods = Some x" "tCache clk < t0 + soaSigMaxAge" "t0 \<le> tCacheSign clk"
    using signSOA_recent [OF ok assms(5,6,4), of mods] assms(10) by auto
  have "time_Unix (t0 + 2 * sValidity s) \<le> time_Unix (tCacheSign clk + 2 * sValidity s)" using t0(3) by (intro time_Unix_mono) simp
  then have era: "time_Unix (t0 + 2 * sValidity s) < 2 ^ 32" using assms(9) by simp
  have v: "0 \<le> sValidity s" using assms(8) by simp
  obtain sig where sig: "Rdata x = RRSIG_rr sig" "\<not> Has mods ModUnsigned"
    "uint (Inception sig) = time_Unix (fst (sig_window (sValidity s) mods t0))"
    "uint (Expiration sig) = time_Unix (snd (sig_window (sValidity s) mods t0))"
    using signed_window [OF probe_sign_Some [OF t0(1) assms(4)] v era] by blast
  have "if Has mods ModExpiredSig then uint (Expiration sig) < time_Unix (tCache clk)
     else if Has mods ModFutureSig then time_Unix (tCache clk) < uint (Inception sig)
     else uint (Inception sig) < time_Unix (tCache clk) \<and> time_Unix (tCache clk) < uint (Expiration sig)"
    using t0(2,3) assms(7,8) by (auto simp: sig(3,4) sig_window_def soaSigMaxAge_def intro!: time_Unix_second)
  then show ?thesis using sig(1,2) by blast
qed

lemma soa_example_history:
  "soa_history plain_env example_probe (tCacheSign (example_clock 0))
     (fst (probe_ServeDNS plain_env (example_clock 0) example_probe (example_request ''check.example.'' 6)))"
  by (rule soa_history.serve [OF soa_history.start [of _ _ 0]]) (simp_all add: example_clock_def Let_def)

text \<open>The SOA signature of an apex query is served again 29 seconds later.\<close>

theorem cached_soa_signature_is_current_witness:
  "\<exists>x sig. snd (signSOA plain_env (example_clock 29)
       (fst (probe_ServeDNS plain_env (example_clock 0) example_probe (example_request ''check.example.'' 6)))
       (soa example_probe) 0) = Some x \<and> Rdata x = RRSIG_rr sig \<and>
     time_Unix (tCache (example_clock 29)) < uint (Expiration sig)"
proof -
  let ?p = "fst (probe_ServeDNS plain_env (example_clock 0) example_probe (example_request ''check.example.'' 6))"
  have "(case snd (signSOA plain_env (example_clock 29) ?p (soa example_probe) 0) of None \<Rightarrow> False | Some _ \<Rightarrow> True)"
    by code_simp
  then obtain x where x: "snd (signSOA plain_env (example_clock 29) ?p (soa example_probe) 0) = Some x"
    by (auto split: option.splits)
  have k: "key_is_no_soa example_probe" by (simp add: key_is_no_soa_def example_probe_def example_signer_def mk_rr_def)
  have sg: "pSigner example_probe = Some example_signer" "pSoaSigs example_probe = replicate 16 None"
    by (simp_all add: example_probe_def)
  have "soa ?p = soa example_probe"
    using slots_ok_history [OF soa_example_history k sg(2)] soa_config by (auto simp: slots_ok_def)
  with x have x': "snd (signSOA plain_env (example_clock 29) ?p (soa ?p) 0) = Some x" by simp
  have m: "\<not> Has 0 ModExpiredSig" "\<not> Has 0 ModFutureSig" by code_simp+
  have "tCacheSign (example_clock 0) \<le> tCache (example_clock 29)" "tCache (example_clock 29) \<le> tCacheSign (example_clock 29)"
    "tCacheSign (example_clock 29) + 1000000000 \<le> tCache (example_clock 29) + sValidity example_signer"
    "31 * 1000000000 \<le> sValidity example_signer" "time_Unix (tCacheSign (example_clock 29) + 2 * sValidity example_signer) < 2 ^ 32"
    by (simp_all add: example_clock_def Let_def example_signer_def defaultSigValidity_def time_Unix_def)
  from cached_soa_signature_is_current [OF soa_example_history k sg(2,1) this x'] m x show ?thesis by auto
qed

text \<open>
  The bound on the validity is needed, and the configuration does not enforce it: with a validity of ten seconds, which
  \<open>validity 10s\<close> accepts, an apex query repeated after twenty seconds is answered with a signature that has expired.
\<close>

definition brief_probe :: "MemStore Probe" where
  "brief_probe = example_probe\<lparr>pSigner := Some (example_signer\<lparr>sValidity := 10 * 1000000000\<rparr>)\<rparr>"

theorem brief_validity_serves_an_expired_signature:
  "let p = fst (probe_ServeDNS plain_env (example_clock 0) brief_probe (example_request ''check.example.'' 6)) in
   case snd (signSOA plain_env (example_clock 20) p (soa p) 0) of
     Some x \<Rightarrow> (case Rdata x of RRSIG_rr g \<Rightarrow> uint (Expiration g) < time_Unix (tCache (example_clock 20)) | _ \<Rightarrow> False)
   | None \<Rightarrow> False"
  by code_simp

end
