(* ===== verification/Probe_Zones.thy ===== *)
theory Probe_Zones
  imports Probe_Answers
begin

text \<open>
  Which zone of the \<open>probe\<close> plugin a name belongs to: the byte test \<open>zoneMatches\<close> against label suffixes, its agreement with
  the metadata a rate limiter reads, and the agent zone that receives error reports.
\<close>

section \<open>The zone of a name\<close>

lemma split_append: "split_on c (u @ c # v) = split_on c u @ split_on c v"
proof (induction u)
  case (Cons x u)
  then show ?case by (cases "split_on c u") auto
qed simp

lemma dotted_plain: "list_all label_ok ls \<Longrightarrow> CHR 0x5C \<notin> set (dotted ls)"
  by (induction ls) (auto simp: label_ok_def)

lemma dotted_ends: "ls \<noteq> [] \<Longrightarrow> \<exists>u. dotted ls = u @ ''.''"
  by (simp add: dotted_join)

text \<open>For names without escapes the byte comparison is the test for a suffix of labels.\<close>

lemma zoneMatches_labels:
  assumes z: "plain_name zs" and l: "plain_name ls"
  shows "zoneMatches env (dotted zs) (dotted ls) \<longleftrightarrow> (\<exists>bs. ls = bs @ zs)"
proof -
  let ?q = "dotted ls" and ?z = "dotted zs"
  have ok: "list_all label_ok zs" "list_all label_ok ls" using plain_nameD(2) z l by blast+
  have root: "?z \<noteq> ''.''" using dotted_not_root [OF z] by simp
  have sp: "split_on (CHR ''.'') ?q = ls @ [[]]" "split_on (CHR ''.'') ?z = zs @ [[]]"
    using ok by (simp_all add: split_dotted)
  have M: "zoneMatches env ?z ?q \<longleftrightarrow> ?q = ?z \<or> (\<exists>u. ?q = u @ ''.'' @ ?z)"
  proof -
    have "0 < int (length ?q) - int (length ?z) \<and> ?q ! nat (int (length ?q) - int (length ?z) - 1) = CHR ''.'' \<and>
        drop (nat (int (length ?q) - int (length ?z))) ?q = ?z \<longleftrightarrow> (\<exists>u. ?q = u @ ''.'' @ ?z)" (is "?L \<longleftrightarrow> ?R")
    proof
      assume ?L
      define n where "n = length ?q - length ?z"
      have n: "nat (int (length ?q) - int (length ?z)) = n" "nat (int (length ?q) - int (length ?z) - 1) = n - 1" "0 < n" "n - 1 < length ?q"
        using \<open>?L\<close> by (auto simp: n_def)
      have "?q = take (n - 1) ?q @ ?q ! (n - 1) # drop (Suc (n - 1)) ?q" using n(4) by (rule id_take_nth_drop)
      then show ?R using \<open>?L\<close> n by auto
    next
      assume ?R
      then show ?L by (auto simp: nth_append nat_add_distrib)
    qed
    then show ?thesis using root dotted_plain [OF ok(2)] by (simp add: zoneMatches_def Let_def)
  qed
  have "(\<exists>u. ?q = u @ ''.'' @ ?z) \<longleftrightarrow> (\<exists>bs. bs \<noteq> [] \<and> ls = bs @ zs)"
  proof
    assume "\<exists>u. ?q = u @ ''.'' @ ?z"
    then obtain u where "?q = u @ CHR ''.'' # ?z" by auto
    then have "ls @ [[]] = split_on (CHR ''.'') u @ zs @ [[]]" using sp split_append [of "CHR ''.''" u ?z] by simp
    then have "ls = split_on (CHR ''.'') u @ zs" by simp
    then show "\<exists>bs. bs \<noteq> [] \<and> ls = bs @ zs" by (intro exI [of _ "split_on (CHR ''.'') u"]) simp
  next
    assume "\<exists>bs. bs \<noteq> [] \<and> ls = bs @ zs"
    then obtain bs where "bs \<noteq> []" "ls = bs @ zs" by blast
    then show "\<exists>u. ?q = u @ ''.'' @ ?z" using dotted_ends [of bs] by auto
  qed
  moreover have "?q = ?z \<longleftrightarrow> ls = zs" using sp by (metis append_same_eq)
  ultimately show ?thesis unfolding M by auto
qed

text \<open>The names of two zones neither of which contains the other are disjoint, so the order of the two tests is immaterial.\<close>

lemma zones_disjoint:
  assumes "plain_name zs" "plain_name as" "plain_name ls"
    and "\<nexists>bs. as = bs @ zs" "\<nexists>bs. zs = bs @ as"
  shows "\<not> (zoneMatches env (dotted zs) (dotted ls) \<and> zoneMatches env (dotted as) (dotted ls))"
  using assms(4,5) unfolding zoneMatches_labels [OF assms(1,3)] zoneMatches_labels [OF assms(2,3)]
  by (metis append_eq_append_conv2)

section \<open>Metadata\<close>

text \<open>\<open>plugin.Name.Matches\<close>, as documented, for names without escapes: the zone is a suffix of the labels.\<close>

definition matches_ok :: "'s probe_env \<Rightarrow> bool" where
  "matches_ok env \<longleftrightarrow>
     (\<forall>zs ls. plain_name zs \<and> plain_name ls \<longrightarrow> (env_matches env (dotted zs) (dotted ls) \<longleftrightarrow> (\<exists>bs. ls = bs @ zs)))"

lemma reply_not_next [simp]: "write_reply rq m \<noteq> CallNextPlugin"
  by (simp add: write_reply_def)

lemma replies_not_next [simp]:
  "respond env p rq rc a b tc e \<noteq> CallNextPlugin" "respondDNSSD env p rq a x \<noteq> CallNextPlugin"
  "respondAgent env p rq a \<noteq> CallNextPlugin" "serveAgentApex env p rq \<noteq> CallNextPlugin"
  by (simp_all add: respond_def respondDNSSD_def respondAgent_def serveAgentApex_def Let_def)

lemma handlers_not_next [simp]:
  "snd (snd (serveReport env clk p rq)) \<noteq> CallNextPlugin" "snd (snd (serveApex env clk p rq)) \<noteq> CallNextPlugin"
  "snd (snd (serveDNSSD env clk p rq k t)) \<noteq> CallNextPlugin" "snd (snd (serveKeyTagQuery env clk p rq tags)) \<noteq> CallNextPlugin"
  "snd (respondForQuery env clk p rq name q obs) \<noteq> CallNextPlugin"
  by (auto simp: serveReport_def serveApex_def serveDNSSD_def serveKeyTagQuery_def respondForQuery_def Let_def case_prod_beta
      split: sum.split)

lemma ServeDNS_next_iff:
  "snd (snd (probe_ServeDNS env clk p rq)) = CallNextPlugin \<longleftrightarrow>
     \<not> (pAgentDomain p \<noteq> [] \<and> zoneMatches env (pAgentDomain p) (rqName rq)) \<and> \<not> zoneMatches env (pZone p) (rqName rq)"
  by (auto simp: probe_ServeDNS_def Let_def case_prod_beta split: sum.split keytag_error.split option.split)

text \<open>The agent domain of a configuration: none, or a name given by its labels.\<close>

definition agent_labels :: "'s Probe \<Rightarrow> string list option \<Rightarrow> bool" where
  "agent_labels p agent \<longleftrightarrow>
     (case agent of None \<Rightarrow> pAgentDomain p = [] | Some as \<Rightarrow> plain_name as \<and> pAgentDomain p = dotted as)"

text \<open>
  C30: every reply can be accounted for, with an agent domain configured or, as by default, without one. For names without
  escapes, the plugin answers a request itself exactly if its metadata provider publishes a wildcard for it, and the wildcard
  is that of the zone that answers: the agent's exactly for names below a configured agent domain, the probe zone's for the
  other names below the zone; so all synthesised names of a zone share one rate-limit bucket.
\<close>

theorem every_reply_has_its_wildcard:
  assumes "matches_ok env" and "plain_name zs" and "plain_name ls"
    and "pZone p = dotted zs" and "rqName rq = dotted ls" and "agent_labels p agent"
  shows "(snd (snd (probe_ServeDNS env clk p rq)) \<noteq> CallNextPlugin \<longleftrightarrow> Metadata env p rq \<noteq> None) \<and>
    Metadata env p rq =
      (if \<exists>as bs. agent = Some as \<and> ls = bs @ as then Some (''*.'' @ pAgentDomain p)
       else if \<exists>bs. ls = bs @ zs then Some (''*.'' @ pZone p) else None)"
proof -
  have m: "env_matches env (pZone p) (rqName rq) \<longleftrightarrow> (\<exists>bs. ls = bs @ zs)"
    "zoneMatches env (pZone p) (rqName rq) \<longleftrightarrow> (\<exists>bs. ls = bs @ zs)"
    using assms(1-5) zoneMatches_labels by (simp_all add: matches_ok_def)
  have a: "pAgentDomain p \<noteq> [] \<and> env_matches env (pAgentDomain p) (rqName rq) \<longleftrightarrow> (\<exists>as bs. agent = Some as \<and> ls = bs @ as)"
    "pAgentDomain p \<noteq> [] \<and> zoneMatches env (pAgentDomain p) (rqName rq) \<longleftrightarrow> (\<exists>as bs. agent = Some as \<and> ls = bs @ as)"
  proof -
    show "pAgentDomain p \<noteq> [] \<and> env_matches env (pAgentDomain p) (rqName rq) \<longleftrightarrow> (\<exists>as bs. agent = Some as \<and> ls = bs @ as)"
      using assms(1,3,5,6) dotted_not_root(1) by (cases agent) (auto simp: agent_labels_def matches_ok_def)
    show "pAgentDomain p \<noteq> [] \<and> zoneMatches env (pAgentDomain p) (rqName rq) \<longleftrightarrow> (\<exists>as bs. agent = Some as \<and> ls = bs @ as)"
    proof (cases agent)
      case (Some as)
      then have as: "plain_name as" "pAgentDomain p = dotted as" using assms(6) by (simp_all add: agent_labels_def)
      show ?thesis using zoneMatches_labels [OF as(1) assms(3)] dotted_not_root [OF as(1)] Some as(2) assms(5) by auto
    qed (use assms(6) in \<open>simp add: agent_labels_def\<close>)
  qed
  show ?thesis unfolding ServeDNS_next_iff a m unfolding Metadata_def Let_def a m by simp
qed

text \<open>A probe name of a zone beside its agent, and a zone without an agent.\<close>

lemma plain_env_matches: "matches_ok plain_env"
  unfolding matches_ok_def plain_env_def using lib_plain(4) [OF plain_dns_ok] by simp

theorem every_reply_has_its_wildcard_witness:
  "Metadata plain_env example_probe (example_request ''report.agent.example.'' 1) = Some ''*.agent.example.'' \<and>
   Metadata plain_env (example_probe\<lparr>pAgentDomain := []\<rparr>) (example_request ''report.agent.example.'' 1) = None \<and>
   snd (snd (probe_ServeDNS plain_env (example_clock 0) (example_probe\<lparr>pAgentDomain := []\<rparr>)
     (example_request ''report.agent.example.'' 1))) = CallNextPlugin"
proof -
  let ?zs = "[''check'', ''example'']" and ?as = "[''agent'', ''example'']" and ?ls = "[''report'', ''agent'', ''example'']"
  let ?rq = "example_request ''report.agent.example.'' 1" and ?bare = "example_probe\<lparr>pAgentDomain := []\<rparr>"
  have pl: "plain_name ?zs" "plain_name ?as" "plain_name ?ls"
    by (simp_all add: plain_name_def label_ok_def lower_ascii_def lower_char_def is_upper_def)
  have names: "pZone example_probe = dotted ?zs" "pZone ?bare = dotted ?zs" "rqName ?rq = dotted ?ls" by simp_all
  have ag: "agent_labels example_probe (Some ?as)" "agent_labels ?bare None" using pl by (simp_all add: agent_labels_def)
  have n: "\<nexists>bs. ?ls = bs @ ?zs" by (auto simp: Cons_eq_append_conv)
  have e: "\<exists>bs. ?ls = bs @ ?as" by (rule exI [of _ "[''report'']"]) simp
  have "Metadata plain_env example_probe ?rq = Some (''*.'' @ pAgentDomain example_probe)"
    using every_reply_has_its_wildcard [OF plain_env_matches pl(1,3) names(1,3) ag(1)] e by auto
  moreover have "Metadata plain_env ?bare ?rq = None \<and> snd (snd (probe_ServeDNS plain_env (example_clock 0) ?bare ?rq)) = CallNextPlugin"
    using every_reply_has_its_wildcard [OF plain_env_matches pl(1,3) names(2,3) ag(2), of "example_clock 0"] n by auto
  ultimately show ?thesis by simp
qed

section \<open>The agent zone\<close>

definition unsigned :: "rr list \<Rightarrow> bool" where
  "unsigned rrs \<longleftrightarrow> list_all (\<lambda>x. Rrtype x \<noteq> TypeRRSIG \<and> Rrtype x \<noteq> TypeNSEC) rrs"

lemma unsigned_take: "unsigned xs \<Longrightarrow> unsigned (take k xs)"
  by (auto simp: unsigned_def list_all_iff dest: in_set_takeD)

lemma respondAgent_reply:
  assumes "env_ok env" and "unsigned answer"
  shows "\<exists>m c err. respondAgent env p rq answer = Reply m c err \<and> Rcode m = RcodeSuccess \<and> Authoritative m \<and>
    unsigned (Answer m) \<and> unsigned (Ns m) \<and> (\<exists>k. Answer m = take k answer) \<and>
    (\<forall>o'. Opt m = Some o' \<longrightarrow> list_all echoed_option (Options o')) \<and>
    (scrub_ok env \<and> \<not> Truncated m \<longrightarrow> Answer m = answer)"
proof -
  define m0 where "m0 = (env_setRcode env (rqMsg rq) RcodeSuccess)\<lparr>Authoritative := True, Answer := answer\<rparr>"
  define m1 where "m1 = (if answer = [] then m0\<lparr>Ns := [agentSOA p]\<rparr> else m0)"
  have u: "unsigned (Answer m1)" "unsigned (Ns m1)" "Answer m1 = answer" "Rcode m1 = RcodeSuccess" "Authoritative m1"
    using assms env_setRcode_ok [OF assms(1), of "rqMsg rq" RcodeSuccess]
    by (auto simp: m1_def m0_def unsigned_def agentSOA_def mk_rr_def)
  obtain o' where o': "env_sizeAndDo env rq m1 = m1\<lparr>Opt := o'\<rparr>" "\<And>x. o' = Some x \<Longrightarrow> list_all echoed_option (Options x)"
    by (rule env_sizeAndDo_ok [OF assms(1), of m1 rq]) (simp add: m1_def m0_def env_setRcode_ok(5) [OF assms(1)], blast)
  let ?m = "env_scrub env rq (m1\<lparr>Opt := o'\<rparr>)"
  have "scrubbed (m1\<lparr>Opt := o'\<rparr>) ?m" using env_scrub_ok [OF assms(1)] by blast
  then have "Rcode ?m = RcodeSuccess \<and> Authoritative ?m \<and> unsigned (Answer ?m) \<and> unsigned (Ns ?m) \<and> (\<exists>k. Answer ?m = take k answer) \<and>
      (\<forall>x. Opt ?m = Some x \<longrightarrow> list_all echoed_option (Options x))"
    using u o'(2) by (auto simp: scrubbed_def unsigned_take)
  moreover have "scrub_ok env \<and> \<not> Truncated ?m \<longrightarrow> Answer ?m = answer"
    using env_scrub_whole [of env rq "m1\<lparr>Opt := o'\<rparr>"] u(3) by auto
  moreover have "respondAgent env p rq answer = write_reply rq ?m"
    unfolding respondAgent_def Let_def m0_def [symmetric] m1_def [symmetric] o'(1) ..
  ultimately show ?thesis using write_reply_cases [of rq ?m] by metis
qed

text \<open>
  C29: the mailbox never bounces. Every name below the agent domain is answered NOERROR, with authority, never with a
  signature or an NSEC, and without a Report-Channel, error or version option of the plugin's own; a TXT
  question whose name decodes to a report is answered with the agent's TXT record (present unless \<open>Scrub\<close> cut it, and then the
  reply is marked truncated) and the record of that report is written to the store; every other name gets an empty answer and
  leaves the store alone. Nothing else of the plugin's state changes.
\<close>

theorem agent_zone_accepts_everything:
  assumes "env_ok env" and "pAgentDomain p \<noteq> []" and "zoneMatches env (pAgentDomain p) (rqName rq)"
    and "rqName rq \<noteq> pAgentDomain p"
  shows "let (p', evs, out) = probe_ServeDNS env clk p rq;
             rep = ParseReport (env_dns env) (rqName rq) (pAgentDomain p) (pZone p);
             transport = fst (transportFrom (env_tls env) (rqWriter rq) (rqProto rq)) in
    (\<exists>m c err. out = Reply m c err \<and> Rcode m = RcodeSuccess \<and> Authoritative m \<and> unsigned (Answer m) \<and> unsigned (Ns m) \<and>
       (\<forall>o'. Opt m = Some o' \<longrightarrow> list_all echoed_option (Options o')) \<and>
       (isl rep \<or> rqQType rq \<noteq> TypeTXT \<longrightarrow> Answer m = []) \<and>
       (\<not> isl rep \<and> rqQType rq = TypeTXT \<and> scrub_ok env \<and> \<not> Truncated m \<longrightarrow>
          Answer m = [mk_rr (rqName rq) TypeTXT (pAgentTTL p) (TXT_rr [agentTXT])])) \<and>
    p' = (case rep of
            Inr r \<Rightarrow> if rqQType rq = TypeTXT
                     then p\<lparr>pStore := env_recordReport env (tStore clk)
                             (NewReportRecord (tObserve clk) r (addrOf env rq) transport) (pStore p)\<rparr> else p
          | Inl _ \<Rightarrow> p)"
proof -
  have s: "probe_ServeDNS env clk p rq = serveReport env clk p rq" using assms(2,3) by (simp add: probe_ServeDNS_def)
  have nil: "unsigned []" by (simp add: unsigned_def)
  have one: "unsigned [mk_rr (rqName rq) TypeTXT (pAgentTTL p) (TXT_rr [agentTXT])]" by (simp add: unsigned_def mk_rr_def)
  show ?thesis
  proof (cases "ParseReport (env_dns env) (rqName rq) (pAgentDomain p) (pZone p)")
    case (Inl e)
    then show ?thesis using respondAgent_reply [OF assms(1) nil, of p rq] assms(4) unfolding s by (auto simp: serveReport_def)
  next
    case (Inr r)
    then show ?thesis
      using respondAgent_reply [OF assms(1) nil, of p rq] respondAgent_reply [OF assms(1) one, of p rq] assms(4) unfolding s
      by (auto simp: serveReport_def Let_def case_prod_beta)
  qed
qed

theorem agent_zone_accepts_everything_witness:
  "\<exists>m c err. snd (snd (probe_ServeDNS plain_env (example_clock 0) example_probe (example_request ''nonsense.agent.example.'' 16))) =
     Reply m c err \<and> Rcode m = RcodeSuccess \<and> Answer m = []"
proof -
  let ?rq = "example_request ''nonsense.agent.example.'' 16"
  have z: "pAgentDomain example_probe \<noteq> []" "zoneMatches plain_env (pAgentDomain example_probe) (rqName ?rq)"
    "rqName ?rq \<noteq> pAgentDomain example_probe"
    by (simp_all add: zoneMatches_def)
  have "isl (ParseReport plain_dns ''nonsense.agent.example.'' ''agent.example.'' ''check.example.'')" by code_simp
  then have "isl (ParseReport (env_dns plain_env) (rqName ?rq) (pAgentDomain example_probe) (pZone example_probe))"
    by (simp add: plain_env_def)
  then show ?thesis
    using agent_zone_accepts_everything [OF plain_env_ok z, of "example_clock 0"] by (auto simp: Let_def case_prod_beta)
qed

end
