(* ===== verification/Probe_Records.thy ===== *)
theory Probe_Records
  imports Probe_Soacache Probe_Zones
begin

text \<open>
  The records the \<open>probe\<close> zone answers with: every record of an answer section belongs to the question, and every signature is
  the zone's own over the type that was asked for.
\<close>

section \<open>Records of a question\<close>

definition fits :: "string \<Rightarrow> string \<Rightarrow> u16 \<Rightarrow> rr \<Rightarrow> bool" where
  "fits zone n t r \<longleftrightarrow> Name r = n \<and> Class r = ClassINET \<and>
     (Rrtype r = t \<or>
      Rrtype r = TypeRRSIG \<and> (\<exists>g. Rdata r = RRSIG_rr g \<and> TypeCovered g = t \<and> SignerName g = zone))"

text \<open>What the configuration establishes of the key, with the owner name in canonical form in the key file.\<close>

definition key_of_zone :: "'s Probe \<Rightarrow> bool" where
  "key_of_zone p \<longleftrightarrow>
     (\<forall>s. pSigner p = Some s \<longrightarrow> sOwner s = pZone p \<and> Name (sKey s) = pZone p \<and> Class (sKey s) = ClassINET \<and>
        Rrtype (sKey s) = TypeDNSKEY \<and> (\<forall>x. Rdata (sKey s) \<noteq> SOA x))"

lemma key_of_zone_config: "same_config p p' \<Longrightarrow> key_of_zone p' = key_of_zone p"
  by (auto simp: key_of_zone_def dest!: same_configD)

lemma key_of_zone_no_soa: "key_of_zone p \<Longrightarrow> key_is_no_soa p"
  by (auto simp: key_of_zone_def key_is_no_soa_def)

lemma signRRset_class: "signRRset lib sb s now rrs mods = Inr (Some x) \<Longrightarrow> Class x = ClassINET"
  by (auto simp: signRRset_def Let_def case_prod_unfold split: if_splits sum.splits option.splits)

lemma sign_fits:
  assumes "probe_sign env p now rrs mods = Some x" and "key_of_zone p" and "Name (rrs ! 0) = n" and "Rrtype (rrs ! 0) = t"
  shows "fits (pZone p) n t x"
proof -
  obtain s where s: "pSigner p = Some s" using assms(1) by (cases "pSigner p") (simp_all add: probe_sign_def)
  note r = probe_sign_Some [OF assms(1) s]
  have "sOwner s = pZone p" using assms(2) s by (simp add: key_of_zone_def)
  then show ?thesis
    using signRRset_class [OF r] assms(3,4) by - (rule signRRset_ok [OF r], simp add: fits_def)
qed

lemma signed_fits:
  assumes "list_all (fits (pZone p) n t) rrs" and "rrs \<noteq> []" and "Rrtype (rrs ! 0) = t" and "key_of_zone p"
  shows "list_all (fits (pZone p) n t) (case probe_sign env p now rrs mods of Some s \<Rightarrow> rrs @ [s] | None \<Rightarrow> rrs)"
proof -
  have "fits (pZone p) n t (rrs ! 0)" using assms(1,2) by (cases rrs) auto
  then show ?thesis using assms(1,3,4) sign_fits [of env p now rrs mods] by (auto simp: fits_def split: option.split)
qed

section \<open>Answer sections\<close>

definition answers :: "outcome \<Rightarrow> rr list" where
  "answers out = (case out of Reply m _ _ \<Rightarrow> Answer m | CallNextPlugin \<Rightarrow> [])"

lemma take_list_all: "list_all P xs \<Longrightarrow> list_all P (take k xs)"
  by (auto simp: list_all_iff dest: in_set_takeD)

lemma good_reply_answers: "good_reply env p rq rcode answer auth tc e out \<Longrightarrow> \<exists>k. answers out = take k answer"
  by (auto simp: good_reply_def answers_def)

lemma respond_answers:
  assumes "env_ok env" and "list_all P answer"
  shows "list_all P (answers (respond env p rq rcode answer auth tc []))"
    and "list_all P (answers (respond env p rq rcode answer auth tc [edeFor mods]))"
proof -
  obtain k where "answers (respond env p rq rcode answer auth tc []) = take k answer"
    using good_reply_answers [OF respond_good [OF assms(1), of "[]" None]] by blast
  then show "list_all P (answers (respond env p rq rcode answer auth tc []))" using assms(2) take_list_all by simp
  obtain k where "answers (respond env p rq rcode answer auth tc [edeFor mods]) = take k answer"
    using good_reply_answers [OF respond_good [OF assms(1), of "[edeFor mods]" "edeFor mods"]] by blast
  then show "list_all P (answers (respond env p rq rcode answer auth tc [edeFor mods]))" using assms(2) take_list_all by simp
qed

lemma respondDNSSD_answers:
  assumes "env_ok env" and "list_all P answer"
  shows "list_all P (answers (respondDNSSD env p rq answer extra))"
proof -
  let ?m = "(env_setRcode env (rqMsg rq) RcodeSuccess)\<lparr>Authoritative := True, Answer := answer, Extra := extra\<rparr>"
  obtain o' where o': "env_sizeAndDo env rq ?m = ?m\<lparr>Opt := o'\<rparr>" 
    by (rule env_sizeAndDo_ok [OF assms(1), of ?m rq]) (simp add: env_setRcode_ok(5) [OF assms(1)])
  let ?c = "attachReportChannel (env_dns env) (pAgentDomain p) (?m\<lparr>Opt := o'\<rparr>)"
  have "Answer ?c = answer"
    using same_answerD [OF same_answer_channel [of "?m\<lparr>Opt := o'\<rparr>" "env_dns env" "pAgentDomain p"]] by simp
  then obtain k where "Answer (env_scrub env rq ?c) = take k answer"
    using env_scrub_ok [OF assms(1), of ?c rq] by (auto simp: scrubbed_def)
  then show ?thesis
    using write_reply_cases [of rq "env_scrub env rq ?c"] assms(2) take_list_all
    unfolding respondDNSSD_def Let_def o' answers_def by auto
qed

lemma synthesize_fits:
  "list_all (fits z n t) (synthesize p n t obs mods)" "synthesize p n t obs mods \<noteq> [] \<Longrightarrow> Rrtype (synthesize p n t obs mods ! 0) = t"
  by (auto simp: synthesize_def mk_rr_def fits_def Let_def)

lemma respondForQuery_fits:
  assumes "env_ok env" and "key_of_zone p"
  shows "list_all (fits (pZone p) n (rqQType rq)) (answers (snd (respondForQuery env clk p rq n q obs)))"
proof -
  let ?a = "synthesize p n (rqQType rq) obs (Mods q)"
  have "list_all (fits (pZone p) n (rqQType rq))
      (if rqDo rq then case probe_sign env p (tSign clk) ?a (Mods q) of Some s \<Rightarrow> ?a @ [s] | None \<Rightarrow> ?a else ?a)" if "?a \<noteq> []"
    using signed_fits [OF synthesize_fits(1) that synthesize_fits(2) [OF that] assms(2)] synthesize_fits(1) by (cases "rqDo rq") simp_all
  then show ?thesis
    unfolding respondForQuery_def Let_def denials case_prod_beta by (simp add: respond_answers [OF assms(1)])
qed

text \<open>The apex, whose SOA signature may come from the cache.\<close>

lemma signSOA_fits:
  assumes "slots_ok env p0 t p" and "t \<le> tCache clk" "tCache clk \<le> tCacheSign clk" and "key_of_zone p"
    and "snd (signSOA env clk p (soa p) mods) = Some x"
  shows "fits (pZone p) (pZone p) TypeSOA x"
proof -
  have cfg: "same_config p0 p" using assms(1) by (simp add: slots_ok_def)
  obtain s where "pSigner p = Some s" using assms(5) by (cases "pSigner p") (simp_all add: signSOA_def)
  then have "pSigner p0 = Some s" using same_configD [OF cfg] by simp
  from signSOA_recent [OF assms(1-3) this, of mods] obtain t0 where "probe_sign env p0 t0 [soa p0] mods = Some x" using assms(5) by auto
  then show ?thesis
    using sign_fits [of env p0 t0 "[soa p0]" mods x "pZone p0" TypeSOA] key_of_zone_config [OF cfg] assms(4) same_configD [OF cfg]
    by (simp add: soa_def mk_rr_def)
qed

lemma serveApex_fits:
  assumes ok: "env_ok env" and k: "key_of_zone p" and sl: "slots_ok env p0 t p" "t \<le> tCache clk" "tCache clk \<le> tCacheSign clk"
  shows "list_all (fits (pZone p) (pZone p) (rqQType rq)) (answers (snd (snd (serveApex env clk p rq))))"
proof -
  let ?z = "pZone p" and ?t = "rqQType rq"
  define ans where "ans = (if ?t = TypeSOA then [soa p]
                    else if ?t = TypeNS then [mk_rr ?z TypeNS (pTTL p) (NS_rr (pNSName p))]
                    else if ?t = TypeDNSKEY then (case pSigner p of None \<Rightarrow> [] | Some s \<Rightarrow> [sKey s]) else [])"
  have fit: "list_all (fits ?z ?z ?t) ans"
    using k by (auto simp: ans_def fits_def soa_def mk_rr_def key_of_zone_def split: option.split)
  have hd: "Rrtype (ans ! 0) = ?t" if "ans \<noteq> []"
    using that k by (auto simp: ans_def soa_def mk_rr_def key_of_zone_def split: option.splits if_splits)
  have soa: "ans = [soa p] \<and> ?t = TypeSOA" if "ans \<noteq> []" "Rdata (ans ! 0) = SOA x" for x
    using that k by (auto simp: ans_def mk_rr_def key_of_zone_def split: option.splits if_splits)
  define sg where "sg = (case Rdata (ans ! 0) of SOA _ \<Rightarrow> signSOA env clk p (ans ! 0) 0 | _ \<Rightarrow> (p, probe_sign env p (tSign clk) ans 0))"
  have "fits ?z ?z ?t x" if "snd sg = Some x" "ans \<noteq> []" for x
  proof (cases "\<exists>y. Rdata (ans ! 0) = SOA y")
    case True
    then show ?thesis using that soa signSOA_fits [OF sl k] by (auto simp: sg_def)
  next
    case False
    then have "snd sg = probe_sign env p (tSign clk) ans 0" by (auto simp: sg_def split: rdata.split)
    then show ?thesis using that sign_fits [OF _ k _ hd] fit by (cases ans) (auto simp: fits_def)
  qed
  then have "list_all (fits ?z ?z ?t) (case snd sg of Some s \<Rightarrow> ans @ [s] | None \<Rightarrow> ans)" if "ans \<noteq> []"
    using fit that by (auto split: option.split)
  then show ?thesis
    unfolding serveApex_def denials Let_def ans_def [symmetric] sg_def [symmetric] case_prod_beta
    using fit by (simp add: respond_answers [OF ok])
qed

lemma synthesizeDNSSD_fits:
  assumes "t \<noteq> TypeANY" and "k \<noteq> dnssdNone"
  shows "list_all (fits z (level_name zone token k) t) (fst (synthesizeDNSSD zone ns ttl k token t))"
    and "fst (synthesizeDNSSD zone ns ttl k token t) \<noteq> [] \<Longrightarrow> Rrtype (fst (synthesizeDNSSD zone ns ttl k token t) ! 0) = t"
  using assms by (cases k; auto simp: synthesizeDNSSD_def Let_def fits_def dnssdNames_def)+

lemma serveDNSSD_shape:
  obtains cc evs st where "serveDNSSD env clk p rq kind token =
    (let p = p\<lparr>pCounters := cc, pStore := st\<rparr>;
         (answer, extra) = synthesizeDNSSD (pZone p) (pNSName p) (pTTL p) kind token (rqQType rq) in
     if answer = [] then
       let (p, auth) = nodataDenial env clk p (rqName rq) 0 (rqDo rq) in (p, evs, respond env p rq RcodeSuccess [] auth False [])
     else
       let answer = (if rqDo rq then (case probe_sign env p (tSign clk) answer 0 of Some s \<Rightarrow> answer @ [s] | None \<Rightarrow> answer) else answer) in
       (p, evs, respondDNSSD env p rq answer extra))"
proof -
  obtain tr ti where t: "transportFrom (env_tls env) (rqWriter rq) (rqProto rq) = (tr, ti)" by force
  define obs where "obs = (Observe (type_text env) (tObserve clk) \<lparr>Token = token, Mods = 0\<rparr> (rqName rq) (addrOf env rq) tr
    (rqQType rq) (rqMsg rq))\<lparr>oTLS := ti\<rparr>"
  obtain cc evs where m: "recordMetrics obs (pCounters p) = (cc, evs)" by force
  obtain st o2 where r: "env_record env (tStore clk) obs (pStore p) = (st, o2)" by force
  show ?thesis
    by (rule that [where cc = cc and st = st and evs = evs]) (unfold serveDNSSD_def Let_def t case_prod_conv obs_def [symmetric] m r, rule refl)
qed

lemma serveDNSSD_fits:
  assumes "env_ok env" and "key_of_zone p" and "rqQType rq \<noteq> TypeANY" and "kind \<noteq> dnssdNone"
    and "rqName rq = level_name (pZone p) token kind"
  shows "list_all (fits (pZone p) (rqName rq) (rqQType rq)) (answers (snd (snd (serveDNSSD env clk p rq kind token))))"
proof -
  obtain cc evs st where S: "serveDNSSD env clk p rq kind token =
    (let p = p\<lparr>pCounters := cc, pStore := st\<rparr>;
         (answer, extra) = synthesizeDNSSD (pZone p) (pNSName p) (pTTL p) kind token (rqQType rq) in
     if answer = [] then
       let (p, auth) = nodataDenial env clk p (rqName rq) 0 (rqDo rq) in (p, evs, respond env p rq RcodeSuccess [] auth False [])
     else
       let answer = (if rqDo rq then (case probe_sign env p (tSign clk) answer 0 of Some s \<Rightarrow> answer @ [s] | None \<Rightarrow> answer) else answer) in
       (p, evs, respondDNSSD env p rq answer extra))"
    by (rule serveDNSSD_shape)
  define p' where "p' = p\<lparr>pCounters := cc, pStore := st\<rparr>"
  have z: "pZone p' = pZone p" "key_of_zone p'" using assms(2) by (simp_all add: p'_def key_of_zone_def)
  obtain a x where syn: "synthesizeDNSSD (pZone p') (pNSName p') (pTTL p') kind token (rqQType rq) = (a, x)" by force
  have fit: "list_all (fits (pZone p') (rqName rq) (rqQType rq)) a" "a \<noteq> [] \<Longrightarrow> Rrtype (a ! 0) = rqQType rq"
    using synthesizeDNSSD_fits(1) [OF assms(3,4), where z = "pZone p'" and zone = "pZone p'" and token = token and ns = "pNSName p'" and ttl = "pTTL p'"]
      synthesizeDNSSD_fits(2) [OF assms(3,4), where zone = "pZone p'" and token = token and ns = "pNSName p'" and ttl = "pTTL p'"]
    unfolding assms(5) z(1) [symmetric] syn
    by simp_all
  have "list_all (fits (pZone p') (rqName rq) (rqQType rq))
      (if rqDo rq then case probe_sign env p' (tSign clk) a 0 of Some s \<Rightarrow> a @ [s] | None \<Rightarrow> a else a)" if "a \<noteq> []"
    using signed_fits [OF fit(1) that fit(2) [OF that] z(2), of env "tSign clk" 0] fit(1) by (cases "rqDo rq") simp_all
  then show ?thesis
    unfolding S p'_def [symmetric] Let_def syn case_prod_conv z(1) [symmetric]
    by (cases "a = []") (simp_all add: case_prod_beta respond_answers [OF assms(1)] respondDNSSD_answers [OF assms(1)])
qed

section \<open>Names\<close>

text \<open>For names without escapes, what is left of a name of the zone determines it.\<close>

lemma sub_of_name:
  assumes "plain_name zs" and "plain_name (bs @ zs)" 
  shows "trim_suffix (trim_suffix (dotted (bs @ zs)) (dotted zs)) ''.'' = join_on (CHR ''.'') bs" and "list_all label_ok bs"
    "map lower_ascii bs = bs"
proof -
  show ok: "list_all label_ok bs" using plain_nameD(2) [OF assms(2)] by simp
  show "map lower_ascii bs = bs" using plain_nameD(3) [OF assms(2)] by simp
  show "trim_suffix (trim_suffix (dotted (bs @ zs)) (dotted zs)) ''.'' = join_on (CHR ''.'') bs"
    by (cases "bs = []") (simp_all add: trim_dotted, simp add: trim_suffix_def has_suffix_def)
qed

lemma dnssd_name:
  assumes z: "plain_name zs" "plain_name (bs @ zs)" and k: "parseDNSSD (join_on (CHR ''.'') bs) = (kind, token)" "kind \<noteq> dnssdNone"
  shows "dotted (bs @ zs) = level_name (dotted zs) token kind"
proof -
  let ?c = "CHR ''.''"
  note b = sub_of_name [OF z]
  have ne: "bs \<noteq> []" using k by (auto simp: parseDNSSD_def trim_suffix_def has_suffix_def)
  have nd: "\<And>l. l \<in> set bs \<Longrightarrow> l \<noteq> [] \<and> ?c \<notin> set l" using b(2) by (auto simp: list_all_iff label_ok_def)
  have "\<not> has_suffix (join_on ?c bs) ''.''"
  proof
    assume "has_suffix (join_on ?c bs) ''.''"
    then obtain u where u: "join_on ?c bs = u @ [?c]"
      by (auto simp: has_suffix_def) (metis append_take_drop_id)
    have "bs = split_on ?c u @ [[]]" using split_join [OF ne, of ?c] nd split_append [of ?c u "[]"] by (simp add: u)
    then have "[] \<in> set bs" by simp
    then show False using nd by blast
  qed
  then have trim: "trim_suffix (join_on ?c bs) ''.'' = join_on ?c bs" by (simp add: trim_suffix_def)
  have low: "lower_ascii (join_on ?c bs) = join_on ?c bs" using b(3) by (simp add: lower_join)
  obtain stray where t: "token_ok token"
    "join_on ?c bs = join_on ?c (level_labels kind) @ (if stray then ''.'' else []) @ ''.'' @ token"
    using k parseDNSSD_iff [OF k(2), of "join_on ?c bs" token] unfolding trim low by blast
  let ?ls = "level_labels kind @ (if stray then [[], token] else [token])"
  have lv: "level_labels kind \<noteq> []" using k(2) by (cases kind) auto
  have "join_on ?c bs = join_on ?c ?ls" using t(2) lv join_snoc [of "level_labels kind" ?c] join_snoc [of "level_labels kind @ [[]]" ?c token] by auto
  moreover have "\<And>l. l \<in> set ?ls \<Longrightarrow> ?c \<notin> set l"
    using level_labels_plain [of kind] token_no_dot [OF t(1)] by (auto simp: list_all_iff label_ok_def split: if_splits)
  ultimately have "bs = ?ls" using split_join [OF ne, of ?c] split_join [of ?ls ?c] nd by (metis append_is_Nil_conv lv)
  then have "bs = level_labels kind @ [token]" using nd by (auto split: if_splits)
  then show ?thesis by (simp add: level_name_eq)
qed

section \<open>Every answer\<close>

lemma zone_answers_fit:
  assumes ok: "env_ok env" and k: "key_of_zone p" and sl: "slots_ok env p0 t p" "t \<le> tCache clk" "tCache clk \<le> tCacheSign clk"
    and n: "plain_name zs" "plain_name (bs @ zs)" "pZone p = dotted zs" "rqName rq = dotted (bs @ zs)"
    and any: "rqQType rq \<noteq> TypeANY" and agent: "\<not> (pAgentDomain p \<noteq> [] \<and> zoneMatches env (pAgentDomain p) (rqName rq))"
  shows "list_all (fits (pZone p) (rqName rq) (rqQType rq)) (answers (snd (snd (probe_ServeDNS env clk p rq))))"
proof -
  let ?fit = "fits (pZone p) (rqName rq) (rqQType rq)" and ?sub = "trim_suffix (trim_suffix (rqName rq) (pZone p)) ''.''"
  have sub: "?sub = join_on (CHR ''.'') bs" using sub_of_name(1) [OF n(1,2)] n(3,4) by simp
  have zm: "zoneMatches env (pZone p) (rqName rq)" unfolding n(3,4) zoneMatches_labels [OF n(1,2)] by blast
  have apex: "rqName rq = pZone p" if "?sub = []"
    using that join_nonempty [of bs] sub_of_name(2) [OF n(1,2)] n(3,4) unfolding sub by (cases "bs = []") simp_all
  have dnssd: "rqName rq = level_name (pZone p) tok kd" if "parseDNSSD ?sub = (kd, tok)" "kd \<noteq> dnssdNone" for kd tok
    using dnssd_name [OF n(1,2) _ that(2)] that(1) n(3,4) unfolding sub by simp
  have query: "list_all ?fit (answers (snd (respondForQuery env clk (fst (observeAndRecord env clk p rq q raw)) rq (rqName rq) q obs)))" for q raw obs
  proof -
    let ?p = "fst (observeAndRecord env clk p rq q raw)"
    have c: "same_config p ?p" by (rule observeAndRecord_config)
    have "pZone ?p = pZone p" "key_of_zone ?p" using same_configD [OF c] key_of_zone_config [OF c] k by simp_all
    then show ?thesis using respondForQuery_fits [OF ok, of ?p "rqName rq" rq clk q obs] by simp
  qed
  have tags: "list_all ?fit (answers (snd (snd (serveKeyTagQuery env clk p rq tg))))" for tg
    by (simp add: serveKeyTagQuery_def denials Let_def case_prod_beta respond_answers [OF ok])
  obtain kd tok where kt: "parseDNSSD ?sub = (kd, tok)" by force
  have S: "probe_ServeDNS env clk p rq =
      (let raw = (case Question (rqMsg rq) of [] \<Rightarrow> rqName rq | x # _ \<Rightarrow> QName x) in
       if rqQType rq = TypeNXNAME then (p, [], respond env p rq RcodeFormatError [] [] False [])
       else if ?sub = [] then serveApex env clk p rq
       else if kd \<noteq> dnssdNone then serveDNSSD env clk p rq kd tok
       else
         case ParseKeyTagQuery ?sub of
           Inr tags \<Rightarrow> serveKeyTagQuery env clk p rq tags
         | Inl ErrBadKeyTagQuery \<Rightarrow>
             (p, if isKeyTagQueryType rq then [Inc (probeKeyTagQueries, [''malformed''])] else [], respond env p rq RcodeRefused [] [] False [])
         | Inl ErrNotKeyTagQuery \<Rightarrow>
             (case ParseQuery ?sub of
                None \<Rightarrow> (p, [], respond env p rq RcodeRefused [] [] False [])
              | Some q \<Rightarrow>
                  let (p, evs, obs) = observeAndRecord env clk p rq q raw; (p, out) = respondForQuery env clk p rq (rqName rq) q obs in
                  (p, evs, out)))"
    unfolding probe_ServeDNS_def Let_def kt case_prod_conv by (simp only: agent zm not_True_eq_False if_False if_True)
  consider "rqQType rq = TypeNXNAME" | (apex) "rqQType rq \<noteq> TypeNXNAME" "?sub = []"
    | (dnssd) "rqQType rq \<noteq> TypeNXNAME" "?sub \<noteq> []" "kd \<noteq> dnssdNone" | (rest) "rqQType rq \<noteq> TypeNXNAME" "?sub \<noteq> []" "kd = dnssdNone" by blast
  then show ?thesis
  proof cases
    case apex
    then show ?thesis using serveApex_fits [OF ok k sl, of rq] \<open>?sub = [] \<Longrightarrow> rqName rq = pZone p\<close> unfolding S by simp
  next
    case dnssd
    then show ?thesis using serveDNSSD_fits [OF ok k any _ \<open>parseDNSSD ?sub = (kd, tok) \<Longrightarrow> kd \<noteq> dnssdNone \<Longrightarrow> rqName rq = level_name (pZone p) tok kd\<close>] kt
      unfolding S by simp
  next
    case rest
    then show ?thesis
      unfolding S
      by (cases "ParseKeyTagQuery ?sub"; cases "projl (ParseKeyTagQuery ?sub)"; cases "ParseQuery ?sub")
        (simp_all add: Let_def case_prod_beta respond_answers [OF ok] tags query)
  qed (simp add: S respond_answers [OF ok])
qed

text \<open>
  C24: answers have the type of their question. In every history of requests, for a zone whose key is its own and for names
  without escapes, every record in the answer section of a reply of the zone has the name that was asked for, class IN, and the
  type that was asked for, or is a signature of the zone over that type; also when the signature comes from the cache. Questions
  of type ANY are excepted.
\<close>

theorem answers_fit_the_question:
  assumes "env_ok env" and "soa_history env p0 t p" and "pSoaSigs p0 = replicate 16 None" and "key_of_zone p0"
    and "t \<le> tCache clk" and "tCache clk \<le> tCacheSign clk"
    and "plain_name zs" and "plain_name (bs @ zs)" and "pZone p0 = dotted zs" and "rqName rq = dotted (bs @ zs)"
    and "rqQType rq \<noteq> TypeANY" and "\<not> (pAgentDomain p0 \<noteq> [] \<and> zoneMatches env (pAgentDomain p0) (rqName rq))"
  shows "list_all (fits (pZone p0) (rqName rq) (rqQType rq)) (answers (snd (snd (probe_ServeDNS env clk p rq))))"
proof -
  have sl: "slots_ok env p0 t p" using slots_ok_history [OF assms(2) key_of_zone_no_soa [OF assms(4)] assms(3)] .
  then have c: "same_config p0 p" by (simp add: slots_ok_def)
  have "key_of_zone p" "pZone p = dotted zs" "pZone p = pZone p0" "\<not> (pAgentDomain p \<noteq> [] \<and> zoneMatches env (pAgentDomain p) (rqName rq))"
    using assms(4,9,12) key_of_zone_config [OF c] same_configD [OF c] by simp_all
  then show ?thesis using zone_answers_fit [OF assms(1) _ sl assms(5-8) _ assms(10,11)] by simp
qed

text \<open>The SOA of the apex, asked with DO a second time 20 seconds later.\<close>

theorem answers_fit_the_question_witness:
  "let rq = example_request ''check.example.'' 6; p = fst (probe_ServeDNS plain_env (example_clock 0) example_probe rq) in
   list_all (fits ''check.example.'' ''check.example.'' TypeSOA) (answers (snd (snd (probe_ServeDNS plain_env (example_clock 20) p rq))))"
proof -
  let ?rq = "example_request ''check.example.'' 6" and ?zs = "[''check'', ''example'']"
  let ?p = "fst (probe_ServeDNS plain_env (example_clock 0) example_probe ?rq)"
  have z: "plain_name ?zs" "plain_name ([] @ ?zs)" "pZone example_probe = dotted ?zs" "rqName ?rq = dotted ([] @ ?zs)"
    by (simp_all add: plain_name_def label_ok_def lower_ascii_def lower_char_def is_upper_def)
  have k: "key_of_zone example_probe" "pSoaSigs example_probe = replicate 16 None"
    by (simp_all add: key_of_zone_def example_probe_def example_signer_def mk_rr_def)
  have t: "tCacheSign (example_clock 0) \<le> tCache (example_clock 20)" "tCache (example_clock 20) \<le> tCacheSign (example_clock 20)"
    by (simp_all add: example_clock_def Let_def)
  have a: "rqQType ?rq \<noteq> TypeANY" "\<not> (pAgentDomain example_probe \<noteq> [] \<and> zoneMatches plain_env (pAgentDomain example_probe) (rqName ?rq))"
    by (simp_all add: zoneMatches_def)
  show ?thesis
    using answers_fit_the_question [OF plain_env_ok soa_example_history k(2,1) t z a] by (simp add: Let_def)
qed

text \<open>
  The exception is needed: for a question of type ANY the two record sets of a service instance, SRV and TXT, are handed to the
  signer as one set. The one signature says SRV and is made over both records, so a validator accepts neither.
\<close>

lemma any_answer_is_signed_as_one_set:
  assumes "synthesizeDNSSD (pZone p) (pNSName p) (pTTL p) dnssdInstanceName token TypeANY = (answer, extra)"
    and "probe_sign env p now answer 0 = Some x"
  shows "\<exists>srv txt' g. answer = [srv, txt'] \<and> Rrtype srv = TypeSRV \<and> Rrtype txt' = TypeTXT \<and> Rdata x = RRSIG_rr g \<and>
    TypeCovered g = TypeSRV \<and> env_sign env (g\<lparr>Signature := []\<rparr>) [srv, txt'] = Some (Signature g)"
proof -
  obtain srv txt' where a: "answer = [srv, txt']" "Rrtype srv = TypeSRV" "Rrtype txt' = TypeTXT"
    using assms(1) by (auto simp: synthesizeDNSSD_def Let_def case_prod_beta)
  obtain s where s: "pSigner p = Some s" using assms(2) by (cases "pSigner p") (simp_all add: probe_sign_def)
  have "\<not> Has 0 ModBadSig" by (simp add: Has_def ModBadSig_def)
  then show ?thesis using a by - (rule signRRset_ok [OF probe_sign_Some [OF assms(2) s]], auto)
qed

end
