(* ===== verification/Probe_Valkey.thy ===== *)
theory Probe_Valkey
  imports Probe_Answers
begin

text \<open>
  The shared observation store of the \<open>probe\<close> plugin (\<open>valkey.go\<close>). The Valkey server and its client library are the
  parameter \<open>valkey_client\<close>: the replies of the commands the store sends, on a server state of any type. \<open>json_codec\<close> stands
  for \<open>json.Marshal\<close> and \<open>json.Unmarshal\<close> of the two record types. The documented effect of the commands is \<open>kv_incr\<close> and
  \<open>kv_write\<close> on a map of keys with deadlines, and \<open>valkey_ok\<close> says that a command that succeeded had that effect; commands
  may fail at any time.
\<close>

section \<open>The client\<close>

datatype vk_error = VkNil | VkFailed

datatype vk_write = Expire string int | Rpush string string | Ltrim string int int

text \<open>A counter that only \<open>INCR\<close> writes is never negative.\<close>

record 'v valkey_client =
  vkIncr :: "string \<Rightarrow> 'v \<Rightarrow> 'v \<times> (vk_error + nat)"
  vkGet :: "string \<Rightarrow> 'v \<Rightarrow> vk_error + nat"
  vkLrange :: "string \<Rightarrow> int \<Rightarrow> int \<Rightarrow> 'v \<Rightarrow> vk_error + string list"
  vkMulti :: "vk_write list \<Rightarrow> 'v \<Rightarrow> 'v \<times> vk_error option list"

record json_codec =
  marshalObs :: "Observation \<Rightarrow> string option"
  unmarshalObs :: "string \<Rightarrow> Observation option"
  marshalRep :: "ReportRecord \<Rightarrow> string option"
  unmarshalRep :: "string \<Rightarrow> ReportRecord option"

section \<open>The store\<close>

record ValkeyConfig =
  vcCAFile :: string
  vcAddrs :: "string list"
  vcTTL :: int
  vcTimeout :: int
  vcMaxPerToken :: int

text \<open>\<open>ValkeyStore\<close> without its client; the timeout bounds the round trips the client makes.\<close>

record ValkeyStore =
  vkTTL :: int
  vkTimeout :: int
  vkMaxPerToken :: int

datatype valkey_error =
  NoAddresses | CAUnreadable | CAUnusable | ConnectFailed | IncrFailed | MarshalFailed | WriteFailed | LrangeFailed | GetFailed

definition defaultValkeyTimeout :: int where "defaultValkeyTimeout = 100 * 1000000"

text \<open>
  \<open>readFile\<close> is \<open>os.ReadFile\<close>, \<open>usable\<close> is \<open>AppendCertsFromPEM\<close> and \<open>connect\<close> is \<open>valkey.NewClient\<close>, given the
  addresses and the bundle that verifies the server, if any.
\<close>

definition NewValkeyStore ::
  "(string \<Rightarrow> string option) \<Rightarrow> (string \<Rightarrow> bool) \<Rightarrow> (string list \<Rightarrow> string option \<Rightarrow> 'v option) \<Rightarrow> ValkeyConfig \<Rightarrow>
     valkey_error + 'v \<times> ValkeyStore" where
  "NewValkeyStore readFile usable connect cfg0 =
     (if vcAddrs cfg0 = [] then Inl NoAddresses
      else
        let cfg = (if vcTTL cfg0 \<le> 0 then cfg0\<lparr>vcTTL := defaultStoreTTL\<rparr> else cfg0);
            cfg = (if vcTimeout cfg \<le> 0 then cfg\<lparr>vcTimeout := defaultValkeyTimeout\<rparr> else cfg);
            cfg = (if vcMaxPerToken cfg \<le> 0 then cfg\<lparr>vcMaxPerToken := defaultMaxPerToken\<rparr> else cfg);
            tls = (if vcCAFile cfg \<noteq> []
                   then (case readFile (vcCAFile cfg) of
                           None \<Rightarrow> Inl CAUnreadable
                         | Some pem \<Rightarrow> if usable pem then Inr (Some pem) else Inl CAUnusable)
                   else Inr None) in
        case tls of
          Inl e \<Rightarrow> Inl e
        | Inr pool \<Rightarrow>
            (case connect (vcAddrs cfg) pool of
               None \<Rightarrow> Inl ConnectFailed
             | Some v \<Rightarrow> Inr (v, \<lparr>vkTTL = vcTTL cfg, vkTimeout = vcTimeout cfg, vkMaxPerToken = vcMaxPerToken cfg\<rparr>)))"

definition seenKey :: "string \<Rightarrow> string" where "seenKey token = ''probe:seen:'' @ token"
definition obsKey :: "string \<Rightarrow> string" where "obsKey token = ''probe:obs:'' @ token"

definition reportKey :: "string \<Rightarrow> string" where
  "reportKey token = (if token = [] then ''probe:reports:unattributed'' else ''probe:reports:'' @ token)"

text \<open>\<open>int64(ttl.Seconds())\<close>, exact below \<open>2 ^ 22\<close> seconds, where the fraction fits a \<open>float64\<close>.\<close>

definition ttl_seconds :: "ValkeyStore \<Rightarrow> int" where
  "ttl_seconds s = vkTTL s div 1000000000"

definition write_all :: "'v valkey_client \<Rightarrow> vk_write list \<Rightarrow> 'v \<Rightarrow> 'v \<times> valkey_error option" where
  "write_all C cmds v =
     (let (v', rs) = vkMulti C cmds v in (v', if list_ex (\<lambda>r. r \<noteq> None) rs then Some WriteFailed else None))"

text \<open>\<open>Record\<close>, in its two round trips: the counter, and everything after it.\<close>

definition record_detail ::
  "json_codec \<Rightarrow> 'v valkey_client \<Rightarrow> ValkeyStore \<Rightarrow> Observation \<Rightarrow> 'v \<Rightarrow> 'v \<times> valkey_error option" where
  "record_detail J C s obs v =
     (let ttl = ttl_seconds s;
          cmds = [Expire (seenKey (oToken obs)) ttl] in
      if int (oSeen obs) \<le> vkMaxPerToken s
      then (case marshalObs J obs of
              None \<Rightarrow> (v, Some MarshalFailed)
            | Some payload \<Rightarrow> write_all C (cmds @ [Rpush (obsKey (oToken obs)) payload, Expire (obsKey (oToken obs)) ttl]) v)
      else write_all C cmds v)"

definition valkey_Record ::
  "json_codec \<Rightarrow> 'v valkey_client \<Rightarrow> ValkeyStore \<Rightarrow> int \<Rightarrow> Observation \<Rightarrow> 'v \<Rightarrow> 'v \<times> Observation \<times> valkey_error option" where
  "valkey_Record J C s clock obs0 v =
     (let obs = (if oAt obs0 = 0 then obs0\<lparr>oAt := clock\<rparr> else obs0);
          (v, r) = vkIncr C (seenKey (oToken obs)) v in
      case r of
        Inl _ \<Rightarrow> (v, obs, Some IncrFailed)
      | Inr n \<Rightarrow>
          let obs = obs\<lparr>oSeen := n\<rparr>;
              (v, err) = record_detail J C s obs v in
          (v, obs, err))"

definition valkey_Lookup ::
  "json_codec \<Rightarrow> 'v valkey_client \<Rightarrow> string \<Rightarrow> 'v \<Rightarrow> valkey_error + Observation list" where
  "valkey_Lookup J C token v =
     (case vkLrange C (obsKey token) 0 (-1) v of
        Inl VkNil \<Rightarrow> Inr []
      | Inl VkFailed \<Rightarrow> Inl LrangeFailed
      | Inr vals \<Rightarrow> Inr (List.map_filter (unmarshalObs J) vals))"

definition valkey_RecordReport ::
  "json_codec \<Rightarrow> 'v valkey_client \<Rightarrow> ValkeyStore \<Rightarrow> int \<Rightarrow> ReportRecord \<Rightarrow> 'v \<Rightarrow> 'v \<times> valkey_error option" where
  "valkey_RecordReport J C s clock rec0 v =
     (let rec = (if rrAt rec0 = 0 then rec0\<lparr>rrAt := clock\<rparr> else rec0) in
      case marshalRep J rec of
        None \<Rightarrow> (v, Some MarshalFailed)
      | Some payload \<Rightarrow>
          let limit = (if rrToken rec = [] then maxUnattributedReports else vkMaxPerToken s);
              key = reportKey (rrToken rec) in
          write_all C [Rpush key payload, Ltrim key (- limit) (-1), Expire key (ttl_seconds s)] v)"

definition valkey_LookupReports ::
  "json_codec \<Rightarrow> 'v valkey_client \<Rightarrow> string \<Rightarrow> 'v \<Rightarrow> valkey_error + ReportRecord list" where
  "valkey_LookupReports J C token v =
     (case vkLrange C (reportKey token) 0 (-1) v of
        Inl VkNil \<Rightarrow> Inr []
      | Inl VkFailed \<Rightarrow> Inl LrangeFailed
      | Inr vals \<Rightarrow> Inr (List.map_filter (unmarshalRep J) vals))"

definition SeenCount :: "'v valkey_client \<Rightarrow> string \<Rightarrow> 'v \<Rightarrow> valkey_error + nat" where
  "SeenCount C token v =
     (case vkGet C (seenKey token) v of
        Inl VkNil \<Rightarrow> Inr 0
      | Inl VkFailed \<Rightarrow> Inl GetFailed
      | Inr n \<Rightarrow> Inr n)"

text \<open>The store behind the handler's \<open>Store\<close> interface keeps the contract the answers rely on.\<close>

definition valkey_sink ::
  "json_codec \<Rightarrow> 'v valkey_client \<Rightarrow> ValkeyStore \<Rightarrow> int \<Rightarrow> Observation \<Rightarrow> 'v \<Rightarrow> 'v \<times> Observation" where
  "valkey_sink J C s now obs v = (let (v', obs', _) = valkey_Record J C s now obs v in (v', obs'))"

interpretation vk_sink: observation_sink "valkey_sink J C s" for J C s
proof
  fix obs :: Observation and now v
  assume at: "oAt obs \<noteq> 0"
  obtain v' r where i: "vkIncr C (seenKey (oToken obs)) v = (v', r)" by force
  show "\<exists>n. snd (valkey_sink J C s now obs v) = obs\<lparr>oSeen := n\<rparr>"
  proof (cases r)
    case (Inl e)
    then have "snd (valkey_sink J C s now obs v) = obs\<lparr>oSeen := oSeen obs\<rparr>"
      using at i by (simp add: valkey_sink_def valkey_Record_def)
    then show ?thesis by blast
  next
    case (Inr n)
    then have "snd (valkey_sink J C s now obs v) = obs\<lparr>oSeen := n\<rparr>"
      using at i by (simp add: valkey_sink_def valkey_Record_def case_prod_beta Let_def)
    then show ?thesis by blast
  qed
qed

text \<open>So a server that fails, or another one, changes no answer but the readout.\<close>

lemma server_failure_is_invisible:
  assumes "env_record env = valkey_sink J C s" and "tObserve clk \<noteq> 0" and "rqQType rq \<noteq> TypeTXT"
  shows "snd (probe_ServeDNS (env\<lparr>env_record := valkey_sink J' C' s', env_recordReport := rr\<rparr>) clk (p\<lparr>pStore := v\<rparr>) rq) =
    snd (probe_ServeDNS env clk p rq)"
  by (rule answer_ignores_store) (simp_all add: assms vk_sink.observation_sink_axioms)

section \<open>The documented server\<close>

datatype kv_value = KInt nat | KList "string list"

type_synonym kv = "string \<Rightarrow> (kv_value \<times> int option) option"

definition kv_live :: "int \<Rightarrow> kv \<Rightarrow> string \<Rightarrow> kv_value option" where
  "kv_live now m k =
     (case m k of
        None \<Rightarrow> None
      | Some (x, None) \<Rightarrow> Some x
      | Some (x, Some d) \<Rightarrow> if now < d then Some x else None)"

definition kv_deadline :: "kv \<Rightarrow> string \<Rightarrow> int option" where
  "kv_deadline m k = Option.bind (m k) snd"

definition kv_incr :: "int \<Rightarrow> string \<Rightarrow> kv \<Rightarrow> (kv \<times> nat) option" where
  "kv_incr now k m =
     (case kv_live now m k of
        None \<Rightarrow> Some (m(k \<mapsto> (KInt 1, None)), 1)
      | Some (KInt n) \<Rightarrow> Some (m(k \<mapsto> (KInt (n + 1), kv_deadline m k)), n + 1)
      | Some (KList _) \<Rightarrow> None)"

text \<open>Indices of a range, negative ones counted from the end.\<close>

definition kv_slice :: "int \<Rightarrow> int \<Rightarrow> 'a list \<Rightarrow> 'a list" where
  "kv_slice a b xs =
     (let n = int (length xs);
          a = (if a < 0 then max 0 (n + a) else a);
          b = (if b < 0 then n + b else b) in
      drop (nat a) (take (nat (b + 1)) xs))"

fun kv_write :: "int \<Rightarrow> vk_write \<Rightarrow> kv \<Rightarrow> kv option" where
  "kv_write now (Expire k secs) m =
     (case kv_live now m k of
        None \<Rightarrow> Some m
      | Some x \<Rightarrow> Some (if secs \<le> 0 then m(k := None) else m(k \<mapsto> (x, Some (now + secs * 1000000000)))))"
| "kv_write now (Rpush k e) m =
     (case kv_live now m k of
        None \<Rightarrow> Some (m(k \<mapsto> (KList [e], None)))
      | Some (KList xs) \<Rightarrow> Some (m(k \<mapsto> (KList (xs @ [e]), kv_deadline m k)))
      | Some (KInt _) \<Rightarrow> None)"
| "kv_write now (Ltrim k a b) m =
     (case kv_live now m k of
        None \<Rightarrow> Some m
      | Some (KList xs) \<Rightarrow>
          Some (if kv_slice a b xs = [] then m(k := None) else m(k \<mapsto> (KList (kv_slice a b xs), kv_deadline m k)))
      | Some (KInt _) \<Rightarrow> None)"

text \<open>The commands of one pipeline, each at a time of its own.\<close>

inductive kv_steps :: "int \<Rightarrow> kv \<Rightarrow> vk_write list \<Rightarrow> int \<Rightarrow> kv \<Rightarrow> bool" where
  finished: "t \<le> t' \<Longrightarrow> kv_steps t m [] t' m"
| command: "t \<le> now \<Longrightarrow> kv_write now w m = Some m1 \<Longrightarrow> kv_steps now m1 ws t' m' \<Longrightarrow> kv_steps t m (w # ws) t' m'"

inductive_cases kv_stepsE [elim!]: "kv_steps t m [] t' m'" "kv_steps t m (w # ws) t' m'"

text \<open>
  \<open>content v\<close> is the content of the server in state \<open>v\<close> and \<open>tm v\<close> its clock: a command that succeeds has its documented effect at
  a time between the two readings, and a read returns what is live.
\<close>

definition valkey_ok :: "'v valkey_client \<Rightarrow> ('v \<Rightarrow> kv) \<Rightarrow> ('v \<Rightarrow> int) \<Rightarrow> bool" where
  "valkey_ok C content tm \<longleftrightarrow>
     (\<forall>k v v' n. vkIncr C k v = (v', Inr n) \<longrightarrow>
        (\<exists>now. tm v \<le> now \<and> now \<le> tm v' \<and> kv_incr now k (content v) = Some (content v', n))) \<and>
     (\<forall>ws v v' rs. vkMulti C ws v = (v', rs) \<and> list_all (\<lambda>r. r = None) rs \<longrightarrow> kv_steps (tm v) (content v) ws (tm v') (content v')) \<and>
     (\<forall>k a b v xs. vkLrange C k a b v = Inr xs \<longrightarrow>
        (case kv_live (tm v) (content v) k of None \<Rightarrow> xs = [] | Some (KList ys) \<Rightarrow> xs = kv_slice a b ys | Some (KInt _) \<Rightarrow> False)) \<and>
     (\<forall>k a b v. vkLrange C k a b v = Inl VkNil \<longrightarrow> kv_live (tm v) (content v) k = None) \<and>
     (\<forall>k v n. vkGet C k v = Inr n \<longrightarrow> kv_live (tm v) (content v) k = Some (KInt n)) \<and>
     (\<forall>k v. vkGet C k v = Inl VkNil \<longrightarrow> kv_live (tm v) (content v) k = None)"

lemma ok_incr:
  "valkey_ok C content tm \<Longrightarrow> vkIncr C k v = (v', Inr n) \<Longrightarrow>
    \<exists>now. tm v \<le> now \<and> now \<le> tm v' \<and> kv_incr now k (content v) = Some (content v', n)"
  unfolding valkey_ok_def by (elim conjE) metis

lemma ok_lrange:
  "valkey_ok C content tm \<Longrightarrow> vkLrange C k a b v = Inr xs \<Longrightarrow>
    (case kv_live (tm v) (content v) k of None \<Rightarrow> xs = [] | Some (KList ys) \<Rightarrow> xs = kv_slice a b ys | Some (KInt _) \<Rightarrow> False)"
  unfolding valkey_ok_def by (elim conjE) simp

lemma ok_reads:
  assumes "valkey_ok C content tm"
  shows "vkLrange C k a b v = Inl VkNil \<Longrightarrow> kv_live (tm v) (content v) k = None"
    and "vkGet C k v = Inr n \<Longrightarrow> kv_live (tm v) (content v) k = Some (KInt n)"
    and "vkGet C k v = Inl VkNil \<Longrightarrow> kv_live (tm v) (content v) k = None"
  using assms unfolding valkey_ok_def by simp_all

lemma ok_write_all:
  assumes "valkey_ok C content tm" and "write_all C ws v = (v', None)"
  shows "kv_steps (tm v) (content v) ws (tm v') (content v')"
proof -
  obtain rs where rs: "vkMulti C ws v = (v', rs)" "\<not> list_ex (\<lambda>r. r \<noteq> None) rs"
    using assms(2) by (auto simp: write_all_def case_prod_beta split: if_splits) (metis prod.collapse)
  then have "list_all (\<lambda>r. r = None) rs" by (auto simp: list_all_iff list_ex_iff)
  then show ?thesis using assms(1) rs(1) unfolding valkey_ok_def by blast
qed

section \<open>Keys within one lifetime\<close>

text \<open>Key \<open>k\<close> is absent, or holds \<open>x\<close> at least until \<open>W\<close>.\<close>

definition key_is :: "int \<Rightarrow> kv \<Rightarrow> string \<Rightarrow> kv_value option \<Rightarrow> bool" where
  "key_is W m k ox \<longleftrightarrow>
     (case ox of None \<Rightarrow> m k = None | Some x \<Rightarrow> \<exists>d. m k = Some (x, d) \<and> (\<forall>t. d = Some t \<longrightarrow> W \<le> t))"

definition count_value :: "nat \<Rightarrow> kv_value option" where
  "count_value n = (if n = 0 then None else Some (KInt n))"

definition list_value :: "string list \<Rightarrow> kv_value option" where
  "list_value xs = (if xs = [] then None else Some (KList xs))"

lemma key_is_live: "key_is W m k ox \<Longrightarrow> now < W \<Longrightarrow> kv_live now m k = ox"
  by (auto simp: key_is_def kv_live_def split: option.splits)

lemma key_is_frame: "key_is W m k ox \<Longrightarrow> m' k = m k \<Longrightarrow> key_is W m' k ox"
  by (cases ox) (simp_all add: key_is_def)

lemma incr_frame: "kv_incr now k m = Some (m', n) \<Longrightarrow> k' \<noteq> k \<Longrightarrow> m' k' = m k'"
  by (auto simp: kv_incr_def split: option.splits kv_value.splits)

lemma incr_key:
  assumes "kv_incr now k m = Some (m', c)" and "key_is W m k (count_value n)" and "now < W"
  shows "c = n + 1 \<and> key_is W m' k (count_value (n + 1))"
  using assms(1,2) key_is_live [OF assms(2,3)]
  by (auto simp: kv_incr_def count_value_def key_is_def kv_deadline_def split: if_splits)

primrec write_key :: "vk_write \<Rightarrow> string" where
  "write_key (Expire k _) = k" | "write_key (Rpush k _) = k" | "write_key (Ltrim k _ _) = k"

lemma write_frame: "kv_write now w m = Some m' \<Longrightarrow> k \<noteq> write_key w \<Longrightarrow> m' k = m k"
  by (cases w) (auto split: option.splits kv_value.splits if_splits)

lemma steps_frame: "kv_steps t m ws t' m' \<Longrightarrow> k \<notin> write_key ` set ws \<Longrightarrow> m' k = m k"
  by (induction rule: kv_steps.induct) (auto simp: write_frame)

lemma incr_other: "key_is W m k' ox \<Longrightarrow> kv_incr now k m = Some (m', n) \<Longrightarrow> k' \<noteq> k \<Longrightarrow> key_is W m' k' ox"
  by (erule key_is_frame) (simp add: incr_frame)

lemma write_other: "key_is W m k ox \<Longrightarrow> kv_write now w m = Some m' \<Longrightarrow> k \<noteq> write_key w \<Longrightarrow> key_is W m' k ox"
  by (erule key_is_frame) (simp add: write_frame)

lemma steps_other: "key_is W m k ox \<Longrightarrow> kv_steps t m ws t' m' \<Longrightarrow> k \<notin> write_key ` set ws \<Longrightarrow> key_is W m' k ox"
  by (erule key_is_frame) (simp add: steps_frame)

lemma steps_mono: "kv_steps t m ws t' m' \<Longrightarrow> t \<le> t'"
  by (induction rule: kv_steps.induct) auto

lemma steps_one:
  assumes "kv_steps t m [w] t' m'"
  obtains t1 where "t \<le> t1" "t1 \<le> t'" "kv_write t1 w m = Some m'"
  using assms by auto

lemma steps_three:
  assumes "kv_steps t m [a, b, c] t' m'"
  obtains t1 m1 t2 m2 t3 where "t \<le> t1" "t1 \<le> t2" "t2 \<le> t3" "t3 \<le> t'"
    "kv_write t1 a m = Some m1" "kv_write t2 b m1 = Some m2" "kv_write t3 c m2 = Some m'"
  using assms by auto

lemma expire_key:
  assumes "kv_write now (Expire k secs) m = Some m'" and "key_is W m k ox"
    and "now < W" "0 < secs" "W \<le> now + secs * 1000000000"
  shows "key_is W m' k ox"
  using assms(1,2,4,5) key_is_live [OF assms(2,3)] by (auto simp: key_is_def split: option.splits)

lemma rpush_key:
  assumes "kv_write now (Rpush k e) m = Some m'" and "key_is W m k (list_value xs)" and "now < W"
  shows "key_is W m' k (list_value (xs @ [e]))"
  using assms(1,2) key_is_live [OF assms(2,3)]
  by (auto simp: key_is_def list_value_def kv_deadline_def split: if_splits)

definition newest :: "nat \<Rightarrow> 'a list \<Rightarrow> 'a list" where
  "newest n xs = drop (length xs - n) xs"

lemma newest_snoc: "newest n (newest n xs @ [x]) = newest n (xs @ [x])"
proof (cases n)
  case (Suc k)
  then show ?thesis by (cases "n \<le> length xs") (simp_all add: newest_def Suc_diff_Suc)
qed (simp add: newest_def)

lemma newest_map: "newest n (map f xs) = map f (newest n xs)"
  by (simp add: newest_def drop_map)

lemma newest_Nil [simp]: "newest n [] = []"
  by (simp add: newest_def)

lemma newest_Nil_iff: "0 < n \<Longrightarrow> newest n xs = [] \<longleftrightarrow> xs = []"
  by (cases xs) (auto simp: newest_def)

lemma kv_slice_newest: "0 < n \<Longrightarrow> kv_slice (- n) (-1) xs = newest (nat n) xs"
proof -
  assume n: "0 < n"
  have "nat (max 0 (int (length xs) - n)) = length xs - nat n" using n by (cases "n \<le> int (length xs)") auto
  then show ?thesis using n by (simp add: kv_slice_def newest_def)
qed

lemma kv_slice_all [simp]: "kv_slice 0 (-1) xs = xs"
  by (simp add: kv_slice_def)

lemma ltrim_key:
  assumes "kv_write now (Ltrim k (- n) (-1)) m = Some m'" and "key_is W m k (list_value xs)" and "now < W" "0 < n"
  shows "key_is W m' k (list_value (newest (nat n) xs))"
  using assms(1,2,4) key_is_live [OF assms(2,3)] newest_Nil_iff [of "nat n" xs]
  by (auto simp: key_is_def list_value_def kv_deadline_def kv_slice_newest split: if_splits)

section \<open>Replicas\<close>

text \<open>
  Any number of replicas write to one server. A \<open>Record\<close> is two round trips, between which other replicas may act: the
  relation interleaves them, with the observations counted but not yet written (\<open>pend\<close>), those written in the order of their
  writing (\<open>written\<close>), and the reports written (\<open>reps\<close>). Every pipeline is taken as one step.
\<close>

abbreviation (input) stamped :: "int \<Rightarrow> ReportRecord \<Rightarrow> ReportRecord" where
  "stamped clock rec \<equiv> if rrAt rec = 0 then rec\<lparr>rrAt := clock\<rparr> else rec"

inductive replicas ::
  "json_codec \<Rightarrow> 'v valkey_client \<Rightarrow> ValkeyStore \<Rightarrow> 'v \<Rightarrow> 'v \<Rightarrow> Observation list \<Rightarrow> Observation list \<Rightarrow> ReportRecord list \<Rightarrow> bool"
  for J C s v0 where
  start: "replicas J C s v0 v0 [] [] []"
| count: "replicas J C s v0 v pend written reps \<Longrightarrow> vkIncr C (seenKey (oToken obs)) v = (v', Inr n) \<Longrightarrow>
    replicas J C s v0 v' (obs\<lparr>oSeen := n\<rparr> # pend) written reps"
| detail: "replicas J C s v0 v pend written reps \<Longrightarrow> obs \<in> set pend \<Longrightarrow> record_detail J C s obs v = (v', None) \<Longrightarrow>
    replicas J C s v0 v' (remove1 obs pend) (written @ [obs]) reps"
| report: "replicas J C s v0 v pend written reps \<Longrightarrow> rrToken rec = [] \<or> token_ok (rrToken rec) \<Longrightarrow>
    valkey_RecordReport J C s clock rec v = (v', None) \<Longrightarrow>
    replicas J C s v0 v' pend written (reps @ [stamped clock rec])"

text \<open>A \<open>Record\<close> that nobody interrupts is the two steps in sequence.\<close>

lemma Record_steps:
  assumes "replicas J C s v0 v pend written reps" and "valkey_Record J C s clock obs v = (v', obs', None)"
  shows "replicas J C s v0 v' pend (written @ [obs']) reps"
proof -
  define o1 where "o1 = (if oAt obs = 0 then obs\<lparr>oAt := clock\<rparr> else obs)"
  obtain v1 r where i: "vkIncr C (seenKey (oToken o1)) v = (v1, r)" by force
  have R: "valkey_Record J C s clock obs v =
      (case r of Inl _ \<Rightarrow> (v1, o1, Some IncrFailed)
       | Inr n \<Rightarrow> let (v, err) = record_detail J C s (o1\<lparr>oSeen := n\<rparr>) v1 in (v, o1\<lparr>oSeen := n\<rparr>, err))"
    unfolding valkey_Record_def o1_def [symmetric] Let_def i case_prod_conv ..
  obtain n where n: "r = Inr n" "obs' = o1\<lparr>oSeen := n\<rparr>" "record_detail J C s obs' v1 = (v', None)"
    using assms(2) unfolding R by (cases r) (auto simp: case_prod_beta prod_eq_iff)
  have "replicas J C s v0 v1 (obs' # pend) written reps"
    using replicas.count [OF assms(1) i [unfolded n(1)]] n(2) by simp
  from replicas.detail [OF this _ n(3)] show ?thesis by simp
qed

abbreviation (input) of_token :: "string \<Rightarrow> Observation list \<Rightarrow> Observation list" where
  "of_token tok \<equiv> filter (\<lambda>x. oToken x = tok)"

abbreviation (input) reports_of :: "string \<Rightarrow> ReportRecord list \<Rightarrow> ReportRecord list" where
  "reports_of tok \<equiv> filter (\<lambda>x. rrToken x = tok)"

definition within_cap :: "ValkeyStore \<Rightarrow> Observation list \<Rightarrow> Observation list" where
  "within_cap s = filter (\<lambda>x. int (oSeen x) \<le> vkMaxPerToken s)"

definition report_limit :: "ValkeyStore \<Rightarrow> string \<Rightarrow> nat" where
  "report_limit s tok = nat (if tok = [] then maxUnattributedReports else vkMaxPerToken s)"

text \<open>The ordinals of \<open>n\<close> observations.\<close>

definition ordinals :: "nat \<Rightarrow> nat multiset" where
  "ordinals n = mset [1..<Suc n]"

lemma ordinals_Suc: "ordinals (Suc n) = add_mset (Suc n) (ordinals n)"
  unfolding ordinals_def by (subst upt_Suc_append) simp_all

text \<open>What the server holds, as a function of the history.\<close>

definition server_holds ::
  "json_codec \<Rightarrow> ValkeyStore \<Rightarrow> int \<Rightarrow> kv \<Rightarrow> Observation list \<Rightarrow> Observation list \<Rightarrow> ReportRecord list \<Rightarrow> bool" where
  "server_holds J s W m pend written reps \<longleftrightarrow>
     (\<forall>tok. key_is W m (seenKey tok) (count_value (length (of_token tok (pend @ written)))) \<and>
            key_is W m (obsKey tok) (list_value (map (the \<circ> marshalObs J) (within_cap s (of_token tok written)))) \<and>
            mset (map oSeen (of_token tok (pend @ written))) = ordinals (length (of_token tok (pend @ written)))) \<and>
     (\<forall>tok. tok = [] \<or> token_ok tok \<longrightarrow>
        key_is W m (reportKey tok) (list_value (map (the \<circ> marshalRep J) (newest (report_limit s tok) (reports_of tok reps)))))"

text \<open>The three key spaces are apart, and within one the token is recovered from the key.\<close>

lemma key_spaces [simp]:
  "seenKey a \<noteq> obsKey b" "obsKey b \<noteq> seenKey a" "seenKey a \<noteq> reportKey b" "reportKey b \<noteq> seenKey a"
  "obsKey a \<noteq> reportKey b" "reportKey b \<noteq> obsKey a" "seenKey a = seenKey a' \<longleftrightarrow> a = a'" "obsKey a = obsKey a' \<longleftrightarrow> a = a'"
  by (simp_all add: seenKey_def obsKey_def reportKey_def)

lemma token_not_unattributed: "token_ok t \<Longrightarrow> t \<noteq> ''unattributed''"
  by (auto simp: token_ok_def lower_hex_def)

lemma reportKey_inj:
  assumes "a = [] \<or> token_ok a" and "b = [] \<or> token_ok b"
  shows "reportKey a = reportKey b \<longleftrightarrow> a = b"
  using assms token_not_unattributed by (auto simp: reportKey_def)

text \<open>The effect of each step on the keys, while the clock stays below \<open>W\<close> and every new deadline is at least \<open>W\<close>.\<close>

lemma detail_keys:
  assumes ok: "valkey_ok C content tm" and d: "record_detail J C s obs v = (v', None)"
    and w: "0 < ttl_seconds s" "W \<le> tm v + ttl_seconds s * 1000000000" "tm v' < W"
    and seen: "key_is W (content v) (seenKey (oToken obs)) ox" and obs: "key_is W (content v) (obsKey (oToken obs)) (list_value xs)"
  shows "key_is W (content v') (seenKey (oToken obs)) ox \<and>
    key_is W (content v') (obsKey (oToken obs))
      (list_value (xs @ (if int (oSeen obs) \<le> vkMaxPerToken s then [the (marshalObs J obs)] else []))) \<and>
    (\<forall>k. k \<noteq> seenKey (oToken obs) \<and> k \<noteq> obsKey (oToken obs) \<longrightarrow> content v' k = content v k)"
proof -
  let ?k = "seenKey (oToken obs)" and ?l = "obsKey (oToken obs)" and ?ttl = "ttl_seconds s"
  have late: "W \<le> now + ?ttl * 1000000000" if "tm v \<le> now" for now using w(2) that by simp
  show ?thesis
  proof (cases "int (oSeen obs) \<le> vkMaxPerToken s")
    case True
    then obtain pl where pl: "marshalObs J obs = Some pl" "write_all C [Expire ?k ?ttl, Rpush ?l pl, Expire ?l ?ttl] v = (v', None)"
      using d by (auto simp: record_detail_def Let_def split: option.splits)
    note st = ok_write_all [OF ok pl(2)]
    from st obtain t1 m1 t2 m2 t3 where t: "tm v \<le> t1" "t1 \<le> t2" "t2 \<le> t3" "t3 \<le> tm v'"
      and m: "kv_write t1 (Expire ?k ?ttl) (content v) = Some m1" "kv_write t2 (Rpush ?l pl) m1 = Some m2"
        "kv_write t3 (Expire ?l ?ttl) m2 = Some (content v')"
      by (rule steps_three)
    have lt: "t1 < W" "t2 < W" "t3 < W" using t w(3) by simp_all
    have 1: "key_is W m1 ?k ox" "key_is W m1 ?l (list_value xs)"
      using expire_key [OF m(1) seen lt(1) w(1) late [OF t(1)]] write_other [OF obs m(1)] by simp_all
    have 2: "key_is W m2 ?k ox" "key_is W m2 ?l (list_value (xs @ [pl]))"
      using rpush_key [OF m(2) 1(2) lt(2)] write_other [OF 1(1) m(2)] by simp_all
    have 3: "key_is W (content v') ?k ox" "key_is W (content v') ?l (list_value (xs @ [pl]))"
      using expire_key [OF m(3) 2(2) lt(3) w(1) late] t write_other [OF 2(1) m(3)] by simp_all
    then show ?thesis using True pl(1) steps_frame [OF st] by simp
  next
    case False
    then have "write_all C [Expire ?k ?ttl] v = (v', None)" using d by (simp add: record_detail_def Let_def)
    note st = ok_write_all [OF ok this]
    from st obtain t1 where t: "tm v \<le> t1" "t1 \<le> tm v'" "kv_write t1 (Expire ?k ?ttl) (content v) = Some (content v')"
      by (rule steps_one)
    have "key_is W (content v') ?k ox" using expire_key [OF t(3) seen _ w(1) late [OF t(1)]] t(2) w(3) by simp
    then show ?thesis using False steps_other [OF obs st] steps_frame [OF st] by simp
  qed
qed

lemma report_keys:
  assumes ok: "valkey_ok C content tm" and r: "valkey_RecordReport J C s clock rec v = (v', None)"
    and w: "0 < ttl_seconds s" "W \<le> tm v + ttl_seconds s * 1000000000" "tm v' < W" and cap: "0 < vkMaxPerToken s"
    and key: "key_is W (content v) (reportKey (rrToken rec)) (list_value xs)"
  shows "key_is W (content v') (reportKey (rrToken rec))
      (list_value (newest (report_limit s (rrToken rec)) (xs @ [the (marshalRep J (stamped clock rec))]))) \<and>
    (\<forall>k. k \<noteq> reportKey (rrToken rec) \<longrightarrow> content v' k = content v k)"
proof -
  let ?k = "reportKey (rrToken rec)" and ?ttl = "ttl_seconds s"
  define n where "n = (if rrToken rec = [] then maxUnattributedReports else vkMaxPerToken s)"
  have n: "0 < n" "nat n = report_limit s (rrToken rec)" using cap by (simp_all add: n_def maxUnattributedReports_def report_limit_def)
  have tok: "rrToken (stamped clock rec) = rrToken rec" by simp
  obtain pl where pl: "marshalRep J (stamped clock rec) = Some pl" "write_all C [Rpush ?k pl, Ltrim ?k (- n) (-1), Expire ?k ?ttl] v = (v', None)"
    using r unfolding valkey_RecordReport_def Let_def tok n_def [symmetric] by (auto split: option.splits)
  note st = ok_write_all [OF ok pl(2)]
  from st obtain t1 m1 t2 m2 t3 where t: "tm v \<le> t1" "t1 \<le> t2" "t2 \<le> t3" "t3 \<le> tm v'"
    and m: "kv_write t1 (Rpush ?k pl) (content v) = Some m1" "kv_write t2 (Ltrim ?k (- n) (-1)) m1 = Some m2"
      "kv_write t3 (Expire ?k ?ttl) m2 = Some (content v')"
    by (rule steps_three)
  have lt: "t1 < W" "t2 < W" "t3 < W" "W \<le> t3 + ?ttl * 1000000000" using t w(2,3) by simp_all
  have "key_is W (content v') ?k (list_value (newest (nat n) (xs @ [pl])))"
    using expire_key [OF m(3) ltrim_key [OF m(2) rpush_key [OF m(1) key lt(1)] lt(2) n(1)] lt(3) w(1) lt(4)] .
  then show ?thesis using n(2) pl(1) steps_frame [OF st] by simp
qed

text \<open>The history and the server agree after every step.\<close>

lemma holds_count:
  assumes h: "server_holds J s W m pend written reps" and i: "kv_incr now (seenKey (oToken obs)) m = Some (m', n)" and "now < W"
  shows "server_holds J s W m' (obs\<lparr>oSeen := n\<rparr> # pend) written reps"
proof -
  have key: "key_is W m (seenKey (oToken obs)) (count_value (length (of_token (oToken obs) (pend @ written))))"
    using h by (simp add: server_holds_def)
  note n = incr_key [OF i key assms(3)]
  show ?thesis unfolding server_holds_def
  proof (intro conjI allI impI)
    fix tok
    have old: "mset (map oSeen (of_token tok (pend @ written))) = ordinals (length (of_token tok (pend @ written)))"
      using h by (simp only: server_holds_def)
    show "mset (map oSeen (of_token tok ((obs\<lparr>oSeen := n\<rparr> # pend) @ written))) =
        ordinals (length (of_token tok ((obs\<lparr>oSeen := n\<rparr> # pend) @ written)))"
      using old n by (cases "tok = oToken obs") (simp_all add: ordinals_Suc)
    have seen: "key_is W m (seenKey tok) (count_value (length (of_token tok (pend @ written))))"
      and obs: "key_is W m (obsKey tok) (list_value (map (the \<circ> marshalObs J) (within_cap s (of_token tok written))))"
      using h unfolding server_holds_def by blast+
    show "key_is W m' (seenKey tok) (count_value (length (of_token tok ((obs\<lparr>oSeen := n\<rparr> # pend) @ written))))"
      using n incr_other [OF seen i] by (cases "tok = oToken obs") simp_all
    show "key_is W m' (obsKey tok) (list_value (map (the \<circ> marshalObs J) (within_cap s (of_token tok written))))"
      using incr_other [OF obs i] by simp
  next
    fix tok
    assume "tok = [] \<or> token_ok tok"
    then have rep: "key_is W m (reportKey tok)
        (list_value (map (the \<circ> marshalRep J) (newest (report_limit s tok) (reports_of tok reps))))"
      using h unfolding server_holds_def by blast
    show "key_is W m' (reportKey tok)
        (list_value (map (the \<circ> marshalRep J) (newest (report_limit s tok) (reports_of tok reps))))"
      using incr_other [OF rep i] by simp
  qed
qed

lemma moved_token:
  assumes "obs \<in> set pend"
  shows "mset (of_token tok (remove1 obs pend @ written @ [obs])) = mset (of_token tok (pend @ written))"
proof -
  have "mset (remove1 obs pend @ written @ [obs]) = mset (pend @ written)" using assms by simp
  then show ?thesis by (metis mset_filter)
qed

lemma holds_detail:
  assumes h: "server_holds J s W (content v) pend written reps" and o': "obs \<in> set pend"
    and ok: "valkey_ok C content tm" and d: "record_detail J C s obs v = (v', None)"
    and w: "0 < ttl_seconds s" "W \<le> tm v + ttl_seconds s * 1000000000" "tm v' < W"
  shows "server_holds J s W (content v') (remove1 obs pend) (written @ [obs]) reps"
proof -
  let ?tok = "oToken obs" and ?P = "\<lambda>tok. of_token tok (remove1 obs pend @ written @ [obs])"
  have old: "key_is W (content v) (seenKey tok) (count_value (length (of_token tok (pend @ written))))"
    "key_is W (content v) (obsKey tok) (list_value (map (the \<circ> marshalObs J) (within_cap s (of_token tok written))))"
    "mset (map oSeen (of_token tok (pend @ written))) = ordinals (length (of_token tok (pend @ written)))" for tok
    using h unfolding server_holds_def by blast+
  note new = detail_keys [OF ok d w old(1,2) [of ?tok]]
  have same: "length (?P tok) = length (of_token tok (pend @ written))"
    "mset (map oSeen (?P tok)) = mset (map oSeen (of_token tok (pend @ written)))" for tok
    using moved_token [OF o', of tok written] by (metis size_mset, metis mset_map)
  have cap: "within_cap s (of_token tok (written @ [obs])) = within_cap s (of_token tok written) @
      (if tok = ?tok \<and> int (oSeen obs) \<le> vkMaxPerToken s then [obs] else [])" for tok
    by (simp add: within_cap_def)
  show ?thesis unfolding server_holds_def
  proof (intro conjI allI impI)
    fix tok
    show "key_is W (content v') (seenKey tok) (count_value (length (?P tok)))"
      using new key_is_frame [OF old(1) [of tok], of "content v'"] unfolding same by (cases "tok = ?tok") auto
    show "key_is W (content v') (obsKey tok) (list_value (map (the \<circ> marshalObs J) (within_cap s (of_token tok (written @ [obs])))))"
      using new key_is_frame [OF old(2) [of tok], of "content v'"] unfolding cap by (cases "tok = ?tok") (auto split: if_splits)
    show "mset (map oSeen (?P tok)) = ordinals (length (?P tok))" unfolding same by (rule old(3))
  next
    fix tok
    assume "tok = [] \<or> token_ok tok"
    then have "key_is W (content v) (reportKey tok)
        (list_value (map (the \<circ> marshalRep J) (newest (report_limit s tok) (reports_of tok reps))))"
      using h unfolding server_holds_def by blast
    from key_is_frame [OF this, of "content v'"] show "key_is W (content v') (reportKey tok)
        (list_value (map (the \<circ> marshalRep J) (newest (report_limit s tok) (reports_of tok reps))))"
      using new by simp
  qed
qed

lemma holds_report:
  assumes h: "server_holds J s W (content v) pend written reps" and tok: "rrToken rec = [] \<or> token_ok (rrToken rec)"
    and ok: "valkey_ok C content tm" and r: "valkey_RecordReport J C s clock rec v = (v', None)"
    and w: "0 < ttl_seconds s" "W \<le> tm v + ttl_seconds s * 1000000000" "tm v' < W" and cap: "0 < vkMaxPerToken s"
  shows "server_holds J s W (content v') pend written (reps @ [stamped clock rec])"
proof -
  let ?n = "report_limit s" and ?f = "the \<circ> marshalRep J"
  have old: "key_is W (content v) (reportKey tok) (list_value (map ?f (newest (?n tok) (reports_of tok reps))))"
    if "tok = [] \<or> token_ok tok" for tok
    using h that unfolding server_holds_def by blast
  note new = report_keys [OF ok r w cap old [OF tok]]
  have push: "newest (?n (rrToken rec)) (map ?f (newest (?n (rrToken rec)) (reports_of (rrToken rec) reps)) @
      [the (marshalRep J (stamped clock rec))]) =
      map ?f (newest (?n (rrToken rec)) (reports_of (rrToken rec) (reps @ [stamped clock rec])))"
    using newest_snoc [of "?n (rrToken rec)" "map ?f (reports_of (rrToken rec) reps)"] by (simp add: newest_map [symmetric])
  show ?thesis unfolding server_holds_def
  proof (intro conjI allI impI)
    fix tok
    have "key_is W (content v) (seenKey tok) (count_value (length (of_token tok (pend @ written))))"
      "key_is W (content v) (obsKey tok) (list_value (map (the \<circ> marshalObs J) (within_cap s (of_token tok written))))"
      using h unfolding server_holds_def by blast+
    from this [THEN key_is_frame, of "content v'"] new
    show "key_is W (content v') (seenKey tok) (count_value (length (of_token tok (pend @ written))))"
      "key_is W (content v') (obsKey tok) (list_value (map (the \<circ> marshalObs J) (within_cap s (of_token tok written))))" by simp_all
    show "mset (map oSeen (of_token tok (pend @ written))) = ordinals (length (of_token tok (pend @ written)))"
      using h unfolding server_holds_def by blast
  next
    fix tok
    assume t: "tok = [] \<or> token_ok tok"
    show "key_is W (content v') (reportKey tok) (list_value (map ?f (newest (?n tok) (reports_of tok (reps @ [stamped clock rec])))))"
    proof (cases "tok = rrToken rec")
      case True
      then show ?thesis using new push by simp
    next
      case False
      then have "reports_of tok (reps @ [stamped clock rec]) = reports_of tok reps" by simp
      then show ?thesis using key_is_frame [OF old [OF t], of "content v'"] new reportKey_inj [OF t tok] False by simp
    qed
  qed
qed

lemma step_time:
  assumes "valkey_ok C content tm"
  shows "vkIncr C k v = (v', Inr n) \<Longrightarrow> tm v \<le> tm v'" and "write_all C ws v = (v', None) \<Longrightarrow> tm v \<le> tm v'"
    and "record_detail J C s obs v = (v', None) \<Longrightarrow> tm v \<le> tm v'"
    and "valkey_RecordReport J C s clock rec v = (v', None) \<Longrightarrow> tm v \<le> tm v'"
proof -
  show "vkIncr C k v = (v', Inr n) \<Longrightarrow> tm v \<le> tm v'" using ok_incr [OF assms] by force
  show w: "write_all C ws v = (v', None) \<Longrightarrow> tm v \<le> tm v'" for ws using ok_write_all [OF assms] steps_mono by blast
  show "record_detail J C s obs v = (v', None) \<Longrightarrow> tm v \<le> tm v'"
    by (auto simp: record_detail_def Let_def split: if_splits option.splits dest: w)
  show "valkey_RecordReport J C s clock rec v = (v', None) \<Longrightarrow> tm v \<le> tm v'"
    unfolding valkey_RecordReport_def Let_def by (auto split: option.splits dest: w)
qed

lemma replicas_time: "valkey_ok C content tm \<Longrightarrow> replicas J C s v0 v pend written reps \<Longrightarrow> tm v0 \<le> tm v"
  by (rotate_tac, induction rule: replicas.induct) (auto dest: step_time)

lemma replicas_hold:
  assumes "replicas J C s v0 v pend written reps" and ok: "valkey_ok C content tm" and empty: "\<And>k. content v0 k = None"
    and ttl: "0 < ttl_seconds s" and cap: "0 < vkMaxPerToken s" and "tm v < tm v0 + ttl_seconds s * 1000000000"
  shows "server_holds J s (tm v0 + ttl_seconds s * 1000000000) (content v) pend written reps"
  using assms(1,6)
proof (induction rule: replicas.induct)
  case start
  show ?case by (simp add: server_holds_def key_is_def count_value_def list_value_def within_cap_def ordinals_def empty)
next
  case (count v pend written reps obs v' n)
  then obtain now where now: "tm v \<le> now" "now \<le> tm v'" "kv_incr now (seenKey (oToken obs)) (content v) = Some (content v', n)"
    using ok_incr [OF ok] by blast
  then show ?case using holds_count [OF count.IH now(3)] count.prems by simp
next
  case (detail v pend written reps obs v')
  have t: "tm v0 \<le> tm v" "tm v \<le> tm v'" using replicas_time [OF ok detail.hyps(1)] step_time(3) [OF ok detail.hyps(3)] .
  then show ?case using holds_detail [OF detail.IH detail.hyps(2) ok detail.hyps(3) ttl] detail.prems by simp
next
  case (report v pend written reps rec clock v')
  have t: "tm v0 \<le> tm v" "tm v \<le> tm v'" using replicas_time [OF ok report.hyps(1)] step_time(4) [OF ok report.hyps(3)] .
  then show ?case using holds_report [OF report.IH report.hyps(2) ok report.hyps(3) ttl _ _ cap] report.prems by simp
qed

lemma ordinals_within: "size {#x \<in># ordinals n. int x \<le> c#} = min n (nat c)"
  by (induction n) (auto simp: ordinals_Suc, simp add: ordinals_def)

lemma map_filter_inverse: "(\<And>x. x \<in> set xs \<Longrightarrow> g (f x) = Some x) \<Longrightarrow> List.map_filter g (map f xs) = xs"
  by (induction xs) (auto simp: List.map_filter_simps)

lemma lrange_list:
  assumes ok: "valkey_ok C content tm" and key: "key_is W (content v) k (list_value xs)" and "tm v < W"
    and "vkLrange C k 0 (-1) v \<noteq> Inl VkFailed"
  shows "vkLrange C k 0 (-1) v = Inr xs \<or> vkLrange C k 0 (-1) v = Inl VkNil \<and> xs = []"
proof (cases "vkLrange C k 0 (-1) v")
  case (Inl e)
  then show ?thesis
    using assms(4) ok_reads(1) [OF ok, of k 0 "-1" v] key_is_live [OF key assms(3)]
    by (cases e) (auto simp: list_value_def split: if_splits)
next
  case (Inr ys)
  then show ?thesis
    using ok_lrange [OF ok Inr] key_is_live [OF key assms(3)] by (auto simp: list_value_def split: if_splits)
qed

text \<open>
  C27: replicas that share a server tell one truth. Within one lifetime from an empty server, however the round trips of
  the replicas interleave, once every write has completed: the ordinals given to the queries of a token are \<open>1, \<dots>, n\<close>,
  each once; the count read back is \<open>n\<close>, also beyond the cap; the observations read back are those with an ordinal up to the
  cap, \<open>min n cap\<close> of them; and the reports read back are the newest up to their limit, in order, those without a token kept apart.
\<close>

theorem replicas_tell_one_truth:
  assumes "valkey_ok C content tm" and "replicas J C s v0 v [] written reps" and "\<And>k. content v0 k = None"
    and "0 < ttl_seconds s" and "0 < vkMaxPerToken s" and "tm v < tm v0 + ttl_seconds s * 1000000000"
    and "\<And>x. x \<in> set written \<Longrightarrow> unmarshalObs J (the (marshalObs J x)) = Some x"
    and "\<And>x. x \<in> set reps \<Longrightarrow> unmarshalRep J (the (marshalRep J x)) = Some x"
    and "vkGet C (seenKey tok) v \<noteq> Inl VkFailed" and "vkLrange C (obsKey tok) 0 (-1) v \<noteq> Inl VkFailed"
    and "vkLrange C (reportKey tok) 0 (-1) v \<noteq> Inl VkFailed"
  shows "let mine = filter (\<lambda>x. oToken x = tok) written in
    mset (map oSeen mine) = mset [1..<Suc (length mine)] \<and>
    SeenCount C tok v = Inr (length mine) \<and>
    valkey_Lookup J C tok v = Inr (filter (\<lambda>x. int (oSeen x) \<le> vkMaxPerToken s) mine) \<and>
    length (filter (\<lambda>x. int (oSeen x) \<le> vkMaxPerToken s) mine) = min (length mine) (nat (vkMaxPerToken s)) \<and>
    (tok = [] \<or> token_ok tok \<longrightarrow>
       valkey_LookupReports J C tok v = Inr (newest (report_limit s tok) (filter (\<lambda>x. rrToken x = tok) reps)))"
proof -
  let ?W = "tm v0 + ttl_seconds s * 1000000000" and ?m = "of_token tok written" and ?r = "newest (report_limit s tok) (reports_of tok reps)"
  have h: "server_holds J s ?W (content v) [] written reps" by (rule replicas_hold [OF assms(2,1,3-6)])
  then have seen: "key_is ?W (content v) (seenKey tok) (count_value (length ?m))"
    and obs: "key_is ?W (content v) (obsKey tok) (list_value (map (the \<circ> marshalObs J) (within_cap s ?m)))"
    and ord: "mset (map oSeen ?m) = ordinals (length ?m)"
    unfolding server_holds_def by auto
  have "SeenCount C tok v = Inr (length ?m)"
    using key_is_live [OF seen assms(6)] ok_reads(2,3) [OF assms(1), of "seenKey tok" v] assms(9)
    by (cases "vkGet C (seenKey tok) v"; cases "projl (vkGet C (seenKey tok) v)")
      (auto simp: SeenCount_def count_value_def split: if_splits)
  moreover have "valkey_Lookup J C tok v = Inr (within_cap s ?m)"
  proof -
    have "List.map_filter (unmarshalObs J) (map (the \<circ> marshalObs J) (within_cap s ?m)) = within_cap s ?m"
      by (rule map_filter_inverse) (auto simp: within_cap_def assms(7))
    then show ?thesis using lrange_list [OF assms(1) obs assms(6,10)] by (auto simp: valkey_Lookup_def)
  qed
  moreover have "length (within_cap s ?m) = min (length ?m) (nat (vkMaxPerToken s))"
  proof -
    have "mset (map oSeen (within_cap s ?m)) = {#x \<in># mset (map oSeen ?m). int x \<le> vkMaxPerToken s#}"
      by (simp add: within_cap_def filter_mset_image_mset filter_filter_mset)
    then show ?thesis unfolding ord by (metis ordinals_within length_map size_mset)
  qed
  moreover have "valkey_LookupReports J C tok v = Inr ?r" if "tok = [] \<or> token_ok tok"
  proof -
    have key: "key_is ?W (content v) (reportKey tok) (list_value (map (the \<circ> marshalRep J) ?r))"
      using h that unfolding server_holds_def by blast
    have "List.map_filter (unmarshalRep J) (map (the \<circ> marshalRep J) ?r) = ?r"
      by (rule map_filter_inverse) (auto simp: newest_def assms(8) dest: in_set_dropD)
    then show ?thesis using lrange_list [OF assms(1) key assms(6,11)] by (auto simp: valkey_LookupReports_def)
  qed
  ultimately show ?thesis using ord unfolding Let_def within_cap_def ordinals_def by blast
qed

section \<open>A server\<close>

text \<open>A server that follows the documentation, with a tick of its clock for every round trip.\<close>

fun kv_run :: "int \<Rightarrow> vk_write list \<Rightarrow> kv \<Rightarrow> kv option" where
  "kv_run t [] m = Some m"
| "kv_run t (w # ws) m = (case kv_write t w m of None \<Rightarrow> None | Some m' \<Rightarrow> kv_run t ws m')"

definition doc_server :: "(int \<times> kv) valkey_client" where
  "doc_server =
     \<lparr>vkIncr = (\<lambda>k (t, m). case kv_incr t k m of None \<Rightarrow> ((t + 1, m), Inl VkFailed) | Some (m', n) \<Rightarrow> ((t + 1, m'), Inr n)),
      vkGet = (\<lambda>k (t, m). case kv_live t m k of None \<Rightarrow> Inl VkNil | Some (KInt n) \<Rightarrow> Inr n | Some (KList _) \<Rightarrow> Inl VkFailed),
      vkLrange = (\<lambda>k a b (t, m). case kv_live t m k of
                    None \<Rightarrow> Inr [] | Some (KList xs) \<Rightarrow> Inr (kv_slice a b xs) | Some (KInt _) \<Rightarrow> Inl VkFailed),
      vkMulti = (\<lambda>ws (t, m). case kv_run t ws m of None \<Rightarrow> ((t + 1, m), [Some VkFailed]) | Some m' \<Rightarrow> ((t + 1, m'), []))\<rparr>"

lemma kv_run_steps: "kv_run t ws m = Some m' \<Longrightarrow> t \<le> t' \<Longrightarrow> kv_steps t m ws t' m'"
  by (induction t ws m rule: kv_run.induct) (auto intro: kv_steps.intros split: option.splits)

lemma doc_server_ok: "valkey_ok doc_server snd fst"
  unfolding valkey_ok_def
proof (intro conjI allI impI, goal_cases)
  case (1 k v v' n)
  then show ?case by (intro exI [of _ "fst v"]) (auto simp: doc_server_def split: prod.splits option.splits)
next
  case (2 ws v v' rs)
  then show ?case by (auto simp: doc_server_def split: prod.splits option.splits intro: kv_run_steps)
qed (auto simp: doc_server_def split: prod.splits option.splits kv_value.splits)

definition shared_obs :: Observation where
  "shared_obs =
     \<lparr>oAt = 1, oResolverAddr = AddrZero, oTLS = None, oResolverPrefix = zero_prefix, oECSPrefix = zero_prefix,
      oToken = ''deadbeef'', oQtype = ''A'', oMods = [], oTransport = TransportUDP, oKeyTags = [], oSeen = 0, oECSFamily = 0,
      oUDPSize = 1232, oIPv6 = False, oECSScope = 0, oECS = False, oCookie = False, oDELEGAware = False, oEDNS = True,
      oKnowsZoneKey = False, oZoneVersionAsked = False, oCompactAware = False, oCaseRandomized = False, oDO = True\<rparr>"

text \<open>A codec for the observations of the example, which differ in the ordinal alone.\<close>

definition ordinal_codec :: json_codec where
  "ordinal_codec =
     \<lparr>marshalObs = (\<lambda>x. Some (itoa (oSeen x))),
      unmarshalObs = (\<lambda>p. map_option (\<lambda>n. shared_obs\<lparr>oSeen := n\<rparr>) (digits_val 10 0 p)),
      marshalRep = (\<lambda>_. None), unmarshalRep = (\<lambda>_. None)\<rparr>"

lemma ordinal_codec_inverse:
  "unmarshalObs ordinal_codec (the (marshalObs ordinal_codec (shared_obs\<lparr>oSeen := n\<rparr>))) = Some (shared_obs\<lparr>oSeen := n\<rparr>)"
  by (simp add: ordinal_codec_def digits_val_itoa)

abbreviation (input) "example_valkey \<equiv> \<lparr>vkTTL = 600 * 1000000000, vkTimeout = 100000000, vkMaxPerToken = 1\<rparr>"

text \<open>Two replicas count before either writes, and the second writes first: the detail that is kept is that of ordinal 1.\<close>

theorem replicas_tell_one_truth_witness:
  "\<exists>v. replicas ordinal_codec doc_server example_valkey (0, Map.empty) v []
      [shared_obs\<lparr>oSeen := 2\<rparr>, shared_obs\<lparr>oSeen := 1\<rparr>] [] \<and>
    SeenCount doc_server ''deadbeef'' v = Inr 2 \<and>
    valkey_Lookup ordinal_codec doc_server ''deadbeef'' v = Inr [shared_obs\<lparr>oSeen := 1\<rparr>]"
proof -
  let ?C = doc_server and ?J = ordinal_codec and ?s = example_valkey
  let ?R = "replicas ?J ?C ?s (0, Map.empty)" and ?o = "\<lambda>n. shared_obs\<lparr>oSeen := n\<rparr>"
  define v1 v2 v3 v4 where "v1 = fst (vkIncr ?C (seenKey (oToken shared_obs)) (0, Map.empty))"
    and "v2 = fst (vkIncr ?C (seenKey (oToken shared_obs)) v1)" and "v3 = fst (record_detail ?J ?C ?s (?o 2) v2)"
    and "v4 = fst (record_detail ?J ?C ?s (?o 1) v3)"
  note vs = v4_def v3_def v2_def v1_def
  have e: "snd (vkIncr ?C (seenKey (oToken shared_obs)) (0, Map.empty)) = Inr 1"
    "snd (vkIncr ?C (seenKey (oToken shared_obs)) v1) = Inr 2" "snd (record_detail ?J ?C ?s (?o 2) v2) = None"
    "snd (record_detail ?J ?C ?s (?o 1) v3) = None" "fst v4 < 600 * 1000000000"
    unfolding vs by code_simp+
  have R: "?R v2 [?o 2, ?o 1] [] []"
    using replicas.count [OF replicas.count [OF replicas.start], of ?C shared_obs "(0, Map.empty)" v1 1 shared_obs v2 2] e(1,2)
    by (simp add: prod_eq_iff v1_def v2_def)
  have "?R v3 [?o 1] [?o 2] []"
    using replicas.detail [OF R, of "?o 2" v3] e(3) by (simp add: prod_eq_iff v3_def)
  from replicas.detail [OF this, of "?o 1" v4] e(4) have R4: "?R v4 [] [?o 2, ?o 1] []" by (simp add: prod_eq_iff v4_def)
  have reads: "vkGet ?C (seenKey ''deadbeef'') v4 \<noteq> Inl VkFailed" "vkLrange ?C (obsKey ''deadbeef'') 0 (-1) v4 \<noteq> Inl VkFailed"
    "vkLrange ?C (reportKey ''deadbeef'') 0 (-1) v4 \<noteq> Inl VkFailed"
    unfolding vs by code_simp+
  have tok: "oToken (?o n) = ''deadbeef''" for n by (simp add: shared_obs_def)
  have codec: "unmarshalObs ?J (the (marshalObs ?J x)) = Some x" if "x \<in> set [?o 2, ?o 1]" for x
    using that ordinal_codec_inverse by auto
  have "SeenCount ?C ''deadbeef'' v4 = Inr 2 \<and> valkey_Lookup ?J ?C ''deadbeef'' v4 = Inr [?o 1]"
    using replicas_tell_one_truth [OF doc_server_ok R4 _ _ _ _ codec _ reads] tok e(5) by (simp add: ttl_seconds_def Let_def)
  with R4 show ?thesis by blast
qed

text \<open>
  The lifetime must be a second at least: the expiry is given in whole seconds, and a lifetime below one second deletes both
  keys as soon as they are written. The configuration accepts \<open>store_ttl 500ms\<close>.
\<close>

lemma subsecond_lifetime_forgets_at_once:
  "let s = \<lparr>vkTTL = 500 * 1000000, vkTimeout = 100000000, vkMaxPerToken = 64\<rparr>;
       (v1, o1, e1) = valkey_Record ordinal_codec doc_server s 0 shared_obs (0, Map.empty);
       (v2, o2, e2) = valkey_Record ordinal_codec doc_server s 0 shared_obs v1 in
   e1 = None \<and> e2 = None \<and> oSeen o2 = 1 \<and> SeenCount doc_server ''deadbeef'' v2 = Inr 0 \<and>
   valkey_Lookup ordinal_codec doc_server ''deadbeef'' v2 = Inr []"
  by code_simp

text \<open>
  And the bound of one lifetime is needed for a token past its cap: from then on only the counter's expiry is refreshed, so that
  a token that is queried without a pause loses its detail while its count goes on, and gets no new detail either.
\<close>

lemma capped_token_loses_its_detail:
  "let s = \<lparr>vkTTL = 600 * 1000000000, vkTimeout = 100000000, vkMaxPerToken = 1\<rparr>;
       (v1, _, e1) = valkey_Record ordinal_codec doc_server s 0 shared_obs (0, Map.empty);
       (v2, _, e2) = valkey_Record ordinal_codec doc_server s 0 shared_obs (400 * 1000000000, snd v1);
       (v3, o3, e3) = valkey_Record ordinal_codec doc_server s 0 shared_obs (800 * 1000000000, snd v2) in
   e1 = None \<and> e2 = None \<and> e3 = None \<and> oSeen o3 = 3 \<and> SeenCount doc_server ''deadbeef'' v3 = Inr 3 \<and>
   valkey_Lookup ordinal_codec doc_server ''deadbeef'' v3 = Inr []"
  by code_simp

end
