(* ===== verification/Probe_Setup.thy ===== *)
theory Probe_Setup
  imports Probe_Valkey Probe_Zones Probe_Ech Go_Config
begin

text \<open>
  The configuration of the \<open>probe\<close> plugin: \<open>setup.go\<close>, and the loading of the signing key in \<open>sign.go\<close>. A directive is its
  arguments and its block lines as Caddy's dispenser delivers them. What is outside the repository is the parameter
  \<open>setup_lib\<close>: the DNS library, the file system, the certificate pool, the Valkey client's connection and SHA-256. Log lines
  are left out.
\<close>

section \<open>Environment\<close>

datatype probe_setup_error =
  ProbeArgErr | ProbeTwoBlocks | ProbeUnknown string | NotANumber string | OutOfRange int | NotADuration string | NotPositive string
| ZeroAgentTTL | BigSizeRange int | AgentTTLWithoutAgent | AgentIsRoot | AgentInsideZone | ZoneInsideAgent
| KeyIsDirectory | KeyDirUnreadable | KeyUnreadable | KeyUnparsable | KeyNotDNSKEY | PrivateUnreadable | PrivateUnparsable
| PrivateCannotSign | KeyForOtherZone string | ValkeyOptionsWithoutAddress | ValkeyNeedsCA | ValkeyFailed valkey_error
| ECHFailed ech_error

text \<open>
  \<open>sl_openRoot\<close> is \<open>os.OpenRoot\<close>, \<open>sl_read\<close> opens and reads a file below a directory, \<open>sl_newRR\<close> is \<open>dns.NewRR\<close>, which
  may find no record; \<open>sl_isDNSKEY\<close> is the type assertion on its result; \<open>sl_private\<close> is \<open>ReadPrivateKey\<close> with the assertion that
  the key can sign. \<open>sl_algorithm\<close> and \<open>sl_keyTag\<close> read the public key.
\<close>

record 'v setup_lib =
  sl_dns :: probe_dns
  sl_openRoot :: "string \<Rightarrow> bool"
  sl_read :: "string \<Rightarrow> string \<Rightarrow> string option"
  sl_newRR :: "string \<Rightarrow> rr option option"
  sl_isDNSKEY :: "rr \<Rightarrow> bool"
  sl_private :: "rr \<Rightarrow> string \<Rightarrow> bool option"
  sl_algorithm :: "rr \<Rightarrow> byte"
  sl_keyTag :: "rr \<Rightarrow> u16"
  sl_toDS :: "rr \<Rightarrow> byte \<Rightarrow> rr option"
  sl_readFile :: "string \<Rightarrow> string option"
  sl_usablePEM :: "string \<Rightarrow> bool"
  sl_connect :: "string list \<Rightarrow> string option \<Rightarrow> 'v option"
  sl_sha256 :: "string \<Rightarrow> bytes"

section \<open>The signing key\<close>

definition openKeyRoot :: "'v setup_lib \<Rightarrow> string \<Rightarrow> probe_setup_error + string \<times> string" where
  "openKeyRoot L basename =
     (let (dir, base) = split_path basename;
          dir = (if dir = [] then ''.'' else dir) in
      if base = [] then Inl KeyIsDirectory
      else if \<not> sl_openRoot L dir then Inl KeyDirUnreadable
      else Inr (dir, base))"

definition readDNSKEYFile :: "'v setup_lib \<Rightarrow> string \<Rightarrow> string \<Rightarrow> probe_setup_error + rr" where
  "readDNSKEYFile L dir pubName =
     (case sl_read L dir pubName of
        None \<Rightarrow> Inl KeyUnreadable
      | Some pubData \<Rightarrow>
          (case sl_newRR L pubData of
             None \<Rightarrow> Inl KeyUnparsable
           | Some None \<Rightarrow> Inl KeyNotDNSKEY
           | Some (Some key) \<Rightarrow>
               if \<not> sl_isDNSKEY L key then Inl KeyNotDNSKEY
               else if Rrtype key \<noteq> TypeDNSKEY then Inl KeyNotDNSKEY
               else Inr key))"

definition LoadSigner :: "'v setup_lib \<Rightarrow> string \<Rightarrow> int \<Rightarrow> probe_setup_error + Signer" where
  "LoadSigner L basename validity0 =
     (let validity = (if validity0 \<le> 0 then defaultSigValidity else validity0) in
      case openKeyRoot L basename of
        Inl e \<Rightarrow> Inl e
      | Inr (dir, base) \<Rightarrow>
          let pubName = base @ ''.key''; privName = base @ ''.private'' in
          (case readDNSKEYFile L dir pubName of
             Inl e \<Rightarrow> Inl e
           | Inr key \<Rightarrow>
               (case sl_read L dir privName of
                  None \<Rightarrow> Inl PrivateUnreadable
                | Some privData \<Rightarrow>
                    (case sl_private L key privData of
                       None \<Rightarrow> Inl PrivateUnparsable
                     | Some False \<Rightarrow> Inl PrivateCannotSign
                     | Some True \<Rightarrow>
                         Inr \<lparr>sKey = key, sAlgorithm = sl_algorithm L key, sOwner = pCanonicalName (sl_dns L) (Name key),
                              sValidity = validity, sKeyTag = sl_keyTag L key\<rparr>))))"

text \<open>\<open>Signer.DS\<close>; digest 2 is SHA-256.\<close>

definition Signer_DS :: "'v setup_lib \<Rightarrow> Signer \<Rightarrow> byte \<Rightarrow> rr option" where
  "Signer_DS L s digest = sl_toDS L (sKey s) (if digest = 0 then 2 else digest)"

section \<open>The block\<close>

record parseState =
  keyBase :: string
  valkeyCfg :: ValkeyConfig
  st_validity :: int
  storeTTL :: int
  maxTokens :: int
  maxPerToken :: int

text \<open>The store the plugin uses, and the plugin under construction.\<close>

datatype 'v Store = InProcess MemStore | Shared 'v ValkeyStore

type_synonym 'v setup_state = "'v Store option Probe \<times> parseState"

text \<open>
  \<open>NextArg\<close> and the value it leaves, with the unread tokens of the line; \<open>all_args\<close> of a directive is \<open>RemainingArgs\<close>.
\<close>

definition next_arg :: "string list \<Rightarrow> (string \<Rightarrow> probe_setup_error + 'a) \<Rightarrow> probe_setup_error + 'a \<times> string list" where
  "next_arg args f = (case args of [] \<Rightarrow> Inl ProbeArgErr | a # extra \<Rightarrow> map_sum id (\<lambda>x. (x, extra)) (f a))"

definition parseIntArg :: "string \<Rightarrow> probe_setup_error + int" where
  "parseIntArg a = (case Sscanf_d a of None \<Rightarrow> Inl (NotANumber a) | Some v \<Rightarrow> Inr v)"

definition parseUint32Arg :: "string \<Rightarrow> probe_setup_error + u32" where
  "parseUint32Arg a =
     (case parseIntArg a of
        Inl e \<Rightarrow> Inl e
      | Inr v \<Rightarrow> if v < 0 \<or> v > 2 ^ 32 - 1 then Inl (OutOfRange v) else Inr (of_int v))"

definition parseDurationArg :: "string \<Rightarrow> probe_setup_error + int" where
  "parseDurationArg a =
     (case ParseDuration a of
        None \<Rightarrow> Inl (NotADuration a)
      | Some d \<Rightarrow> if d \<le> 0 then Inl (NotPositive a) else Inr d)"

text \<open>\<open>None\<close>: the directive is not one of theirs.\<close>

definition applyValkeyDirective ::
  "string \<Rightarrow> string list \<Rightarrow> parseState \<Rightarrow> (probe_setup_error + parseState \<times> string list) option" where
  "applyValkeyDirective name args st =
     (if name = ''valkey'' then
        Some (if args = [] then Inl ProbeArgErr
              else Inr (st\<lparr>valkeyCfg := (valkeyCfg st)\<lparr>vcAddrs := vcAddrs (valkeyCfg st) @ args\<rparr>\<rparr>, []))
      else if name = ''valkey_ca'' then
        Some (next_arg args (\<lambda>a. Inr (st\<lparr>valkeyCfg := (valkeyCfg st)\<lparr>vcCAFile := a\<rparr>\<rparr>)))
      else if name = ''valkey_timeout'' then
        Some (next_arg args (\<lambda>a. map_sum id (\<lambda>d. st\<lparr>valkeyCfg := (valkeyCfg st)\<lparr>vcTimeout := d\<rparr>\<rparr>) (parseDurationArg a)))
      else None)"

definition applySimpleDirective ::
  "probe_dns \<Rightarrow> string \<Rightarrow> string list \<Rightarrow> 'v setup_state \<Rightarrow> (probe_setup_error + 'v setup_state \<times> string list) option" where
  "applySimpleDirective lib name args x =
     (case x of (p, st) \<Rightarrow>
        if name = ''ttl'' then Some (next_arg args (\<lambda>a. map_sum id (\<lambda>v. (p\<lparr>pTTL := v\<rparr>, st)) (parseUint32Arg a)))
        else if name = ''ns'' then Some (next_arg args (\<lambda>a. Inr (p\<lparr>pNSName := pCanonicalName lib a\<rparr>, st)))
        else if name = ''mbox'' then Some (next_arg args (\<lambda>a. Inr (p\<lparr>pMbox := pCanonicalName lib a\<rparr>, st)))
        else if name = ''validity'' then
          Some (next_arg args (\<lambda>a. map_sum id (\<lambda>d. (p, st\<lparr>st_validity := d\<rparr>)) (parseDurationArg a)))
        else None)"

definition applyStoreLimitDirective ::
  "string \<Rightarrow> string list \<Rightarrow> parseState \<Rightarrow> (probe_setup_error + parseState \<times> string list) option" where
  "applyStoreLimitDirective name args st =
     (if name = ''store_ttl'' then Some (next_arg args (\<lambda>a. map_sum id (\<lambda>d. st\<lparr>storeTTL := d\<rparr>) (parseDurationArg a)))
      else if name = ''max_tokens'' then Some (next_arg args (\<lambda>a. map_sum id (\<lambda>v. st\<lparr>maxTokens := v\<rparr>) (parseIntArg a)))
      else if name = ''max_per_token'' then Some (next_arg args (\<lambda>a. map_sum id (\<lambda>v. st\<lparr>maxPerToken := v\<rparr>) (parseIntArg a)))
      else None)"

definition with_st :: "'v setup_state \<Rightarrow> (probe_setup_error + parseState \<times> string list) \<Rightarrow> probe_setup_error + 'v setup_state \<times> string list" where
  "with_st x = map_sum id (\<lambda>(st, extra). ((fst x, st), extra))"

definition applyDirective ::
  "probe_dns \<Rightarrow> string \<Rightarrow> string list \<Rightarrow> 'v setup_state \<Rightarrow> probe_setup_error + 'v setup_state \<times> string list" where
  "applyDirective lib name args x =
     (case applyValkeyDirective name args (snd x) of Some r \<Rightarrow> with_st x r | None \<Rightarrow>
      case applySimpleDirective lib name args x of Some r \<Rightarrow> r | None \<Rightarrow>
      case applyStoreLimitDirective name args (snd x) of Some r \<Rightarrow> with_st x r | None \<Rightarrow>
      case x of (p, st) \<Rightarrow>
        if name = ''key'' then next_arg args (\<lambda>a. Inr (p, st\<lparr>keyBase := a\<rparr>))
        else if name = ''agent_domain'' then next_arg args (\<lambda>a. Inr (p\<lparr>pAgentDomain := pCanonicalName lib a\<rparr>, st))
        else if name = ''agent_ttl'' then
          next_arg args (\<lambda>a. case parseUint32Arg a of
                               Inl e \<Rightarrow> Inl e
                             | Inr v \<Rightarrow> if v = 0 then Inl ZeroAgentTTL else Inr (p\<lparr>pAgentTTL := v\<rparr>, st))
        else if name = ''big_size'' then
          next_arg args (\<lambda>a. case parseIntArg a of
                               Inl e \<Rightarrow> Inl e
                             | Inr v \<Rightarrow> if v < 1 \<or> v > 4096 then Inl (BigSizeRange v) else Inr (p\<lparr>pBigSize := v\<rparr>, st))
        else Inl (ProbeUnknown name))"

text \<open>Every directive consumes its name.\<close>

lemma next_arg_extra: "next_arg args f = Inr (x, extra) \<Longrightarrow> length extra \<le> length args"
  by (auto simp: next_arg_def map_sum_def split: list.splits sum.splits)

lemma applyDirective_extra: "applyDirective lib name args x = Inr (x', extra) \<Longrightarrow> length extra \<le> length args"
  by (auto simp: applyDirective_def applyValkeyDirective_def applySimpleDirective_def applyStoreLimitDirective_def with_st_def
      map_sum_def split: if_splits sum.splits prod.splits dest!: next_arg_extra)

function block_loop :: "probe_dns \<Rightarrow> (string \<times> string list) list \<Rightarrow> 'v setup_state \<Rightarrow> probe_setup_error + 'v setup_state" where
  "block_loop lib [] x = Inr x"
| "block_loop lib ((name, args) # ls) x =
     (case applyDirective lib name args x of
        Inl e \<Rightarrow> Inl e
      | Inr (x', extra) \<Rightarrow> block_loop lib (push_line extra ls) x')"
  by pat_completeness auto

termination
  by (relation "measure (\<lambda>(_, ls, _). tokens ls)") (auto dest!: applyDirective_extra intro!: tokens_push_line simp del: tokens.simps)

declare block_loop.simps(2) [simp del]

section \<open>Parsing\<close>

definition defaultTTL :: u32 where "defaultTTL = 10"
definition defaultBigSize :: int where "defaultBigSize = 1400"
definition defaultAgentTTL :: u32 where "defaultAgentTTL = 300"
definition echConfigID :: byte where "echConfigID = 1"

text \<open>The zero values of the two structures, with the two defaults \<open>parse\<close> sets.\<close>

definition new_Probe :: "'v Store option Probe" where
  "new_Probe =
     \<lparr>pStore = None, pSigner = None, pSoaSigs = replicate 16 None, pZone = [], pNSName = [], pMbox = [], pAgentDomain = [],
      pECHConfigList = [], pBigSize = defaultBigSize, pTTL = defaultTTL, pAgentTTL = 0, pCounters = empty_cache\<rparr>"

definition new_parseState :: parseState where
  "new_parseState =
     \<lparr>keyBase = [], valkeyCfg = \<lparr>vcCAFile = [], vcAddrs = [], vcTTL = 0, vcTimeout = 0, vcMaxPerToken = 0\<rparr>, st_validity = 0,
      storeTTL = 0, maxTokens = 0, maxPerToken = 0\<rparr>"

text \<open>The loop over the \<open>probe\<close> directives: each with its arguments and the lines of its block.\<close>

fun directives ::
  "probe_dns \<Rightarrow> (string list \<times> (string \<times> string list) list) list \<Rightarrow> bool \<Rightarrow> 'v setup_state \<Rightarrow>
     probe_setup_error + bool \<times> 'v setup_state" where
  "directives lib [] seenZone x = Inr (seenZone, x)"
| "directives lib ((args, block) # ds) seenZone (p, st) =
     (case args of
        [zone] \<Rightarrow>
          if seenZone then Inl ProbeTwoBlocks
          else
            (case block_loop lib block (p\<lparr>pZone := pCanonicalName lib zone\<rparr>, st) of
               Inl e \<Rightarrow> Inl e
             | Inr x' \<Rightarrow> directives lib ds True x')
      | _ \<Rightarrow> Inl ProbeArgErr)"

definition validateAgentDomain :: "probe_dns \<Rightarrow> 's Probe \<Rightarrow> probe_setup_error + 's Probe" where
  "validateAgentDomain lib p =
     (if pAgentDomain p = [] then (if pAgentTTL p \<noteq> 0 then Inl AgentTTLWithoutAgent else Inr p)
      else if pAgentDomain p = ''.'' then Inl AgentIsRoot
      else if pIsSubDomain lib (pZone p) (pAgentDomain p) then Inl AgentInsideZone
      else if pIsSubDomain lib (pAgentDomain p) (pZone p) then Inl ZoneInsideAgent
      else if pAgentTTL p = 0 then Inr (p\<lparr>pAgentTTL := defaultAgentTTL\<rparr>)
      else Inr p)"

definition loadSignerFromState :: "'v setup_lib \<Rightarrow> 's Probe \<Rightarrow> parseState \<Rightarrow> probe_setup_error + 's Probe" where
  "loadSignerFromState L p st =
     (if keyBase st = [] then Inr p
      else
        (case LoadSigner L (keyBase st) (st_validity st) of
           Inl e \<Rightarrow> Inl e
         | Inr s \<Rightarrow> if sOwner s \<noteq> pZone p then Inl (KeyForOtherZone (sOwner s)) else Inr (p\<lparr>pSigner := Some s\<rparr>)))"

definition buildStore :: "'v setup_lib \<Rightarrow> ValkeyConfig \<Rightarrow> int \<Rightarrow> int \<Rightarrow> int \<Rightarrow> probe_setup_error + 'v Store" where
  "buildStore L vc ttl maxTok maxPer =
     (if vcAddrs vc = [] then
        (if vcCAFile vc \<noteq> [] \<or> vcTimeout vc \<noteq> 0 then Inl ValkeyOptionsWithoutAddress
         else Inr (InProcess (NewMemStore ttl maxTok maxPer)))
      else if vcCAFile vc = [] then Inl ValkeyNeedsCA
      else
        (case NewValkeyStore (sl_readFile L) (sl_usablePEM L) (sl_connect L) (vc\<lparr>vcTTL := ttl, vcMaxPerToken := maxPer\<rparr>) of
           Inl e \<Rightarrow> Inl (ValkeyFailed e)
         | Inr (v, s) \<Rightarrow> Inr (Shared v s)))"

definition probe_parse ::
  "'v setup_lib \<Rightarrow> (string list \<times> (string \<times> string list) list) list \<Rightarrow> probe_setup_error + 'v Store option Probe" where
  "probe_parse L ds =
     (case directives (sl_dns L) ds False (new_Probe, new_parseState) of
        Inl e \<Rightarrow> Inl e
      | Inr (seenZone, p0, st) \<Rightarrow>
          if \<not> seenZone then Inl ProbeArgErr
          else
            let p1 = (if pNSName p0 = [] then p0\<lparr>pNSName := ''ns.'' @ pZone p0\<rparr> else p0);
                p2 = (if pMbox p1 = [] then p1\<lparr>pMbox := ''hostmaster.'' @ pZone p1\<rparr> else p1) in
            (case validateAgentDomain (sl_dns L) p2 of Inl e \<Rightarrow> Inl e | Inr p3 \<Rightarrow>
             case loadSignerFromState L p3 st of Inl e \<Rightarrow> Inl e | Inr p4 \<Rightarrow>
             case buildStore L (valkeyCfg st) (storeTTL st) (maxTokens st) (maxPerToken st) of Inl e \<Rightarrow> Inl e | Inr store \<Rightarrow>
             let p5 = p4\<lparr>pStore := Some store\<rparr>;
                 echKey = sl_sha256 L (''probe-ech-canary/'' @ pZone p5) in
             case BuildECHConfigList echConfigID echKey (trim_suffix (pZone p5) ''.'') of
               Inl e \<Rightarrow> Inl (ECHFailed e)
             | Inr echList \<Rightarrow> Inr (p5\<lparr>pECHConfigList := echList\<rparr>)))"

section \<open>The configured store\<close>

text \<open>The calls of the handler through the \<open>Store\<close> interface; a configured plugin always has a store.\<close>

definition store_Record ::
  "json_codec \<Rightarrow> 'v valkey_client \<Rightarrow> int \<Rightarrow> Observation \<Rightarrow> 'v Store option \<Rightarrow> 'v Store option \<times> Observation" where
  "store_Record J C now obs st =
     (case st of
        Some (InProcess m) \<Rightarrow> map_prod (Some \<circ> InProcess) id (mem_record now obs m)
      | Some (Shared v s) \<Rightarrow> map_prod (\<lambda>v'. Some (Shared v' s)) id (valkey_sink J C s now obs v)
      | None \<Rightarrow> (None, obs))"

definition store_RecordReport ::
  "json_codec \<Rightarrow> 'v valkey_client \<Rightarrow> int \<Rightarrow> ReportRecord \<Rightarrow> 'v Store option \<Rightarrow> 'v Store option" where
  "store_RecordReport J C now rec st =
     (case st of
        Some (InProcess m) \<Rightarrow> Some (InProcess (fst (RecordReport now rec m)))
      | Some (Shared v s) \<Rightarrow> Some (Shared (fst (valkey_RecordReport J C s now rec v)) s)
      | None \<Rightarrow> None)"

interpretation configured_sink: observation_sink "store_Record J (C :: 'v valkey_client)" for J C
proof
  fix obs :: Observation and now and st :: "'v Store option"
  assume at: "oAt obs \<noteq> 0"
  consider (none) "st = None" | (mem) m where "st = Some (InProcess m)" | (valkey) v s where "st = Some (Shared v s)"
    by (cases st; metis Store.exhaust)
  then show "\<exists>n. snd (store_Record J C now obs st) = obs\<lparr>oSeen := n\<rparr>"
  proof cases
    case none
    then show ?thesis by (intro exI [of _ "oSeen obs"]) (simp add: store_Record_def)
  next
    case (mem m)
    then show ?thesis using mem_sink.seen_only [OF at, of now m] by (simp add: store_Record_def snd_map_prod)
  next
    case (valkey v s)
    then show ?thesis using vk_sink.seen_only [OF at, of J C s now v] by (simp add: store_Record_def snd_map_prod)
  qed
qed

text \<open>So the choice of the store, which the Corefile makes, decides no answer but the readout.\<close>

lemma answers_do_not_depend_on_the_store_chosen:
  assumes "env_record env = store_Record J C" and "tObserve clk \<noteq> 0" and "rqQType rq \<noteq> TypeTXT"
  shows "snd (probe_ServeDNS env clk (p\<lparr>pStore := Some (InProcess m)\<rparr>) rq) =
    snd (probe_ServeDNS env clk (p\<lparr>pStore := Some (Shared v s)\<rparr>) rq)"
proof -
  have "snd (probe_ServeDNS (env\<lparr>env_record := store_Record J C, env_recordReport := env_recordReport env\<rparr>) clk
      (p\<lparr>pStore := Some (Shared v s)\<rparr>\<lparr>pStore := Some (InProcess m)\<rparr>) rq) =
    snd (probe_ServeDNS env clk (p\<lparr>pStore := Some (Shared v s)\<rparr>) rq)"
    by (rule answer_ignores_store) (simp_all add: assms configured_sink.observation_sink_axioms)
  then show ?thesis by (simp add: assms(1) [symmetric])
qed

section \<open>What an accepted Corefile gives\<close>

lemma next_arg_Inr: "next_arg args f = Inr (x, extra) \<Longrightarrow> \<exists>a. f a = Inr x"
  by (auto simp: next_arg_def map_sum_def split: list.splits sum.splits)

lemma map_sum_Inr: "map_sum id f r = Inr y \<longleftrightarrow> (\<exists>x. r = Inr x \<and> y = f x)"
  by (cases r) auto

definition block_ok :: "'v setup_state \<Rightarrow> bool" where
  "block_ok x \<longleftrightarrow> 1 \<le> pBigSize (fst x) \<and> pBigSize (fst x) \<le> 4096 \<and> pSigner (fst x) = None \<and>
     pSoaSigs (fst x) = replicate 16 None"

lemma applyDirective_ok: "applyDirective lib name args x = Inr (x', extra) \<Longrightarrow> block_ok x \<Longrightarrow> block_ok x'"
  by (cases x)
    (auto simp: applyDirective_def applyValkeyDirective_def applySimpleDirective_def applyStoreLimitDirective_def with_st_def
      block_ok_def map_sum_Inr split: if_splits sum.splits dest!: next_arg_Inr)

lemma block_loop_ok: "block_loop lib ls x = Inr x' \<Longrightarrow> block_ok x \<Longrightarrow> block_ok x'"
  by (induction lib ls x rule: block_loop.induct)
    (auto simp: block_loop.simps(2) split: sum.splits prod.splits dest: applyDirective_ok)

lemma directives_ok: "directives lib ds seen x = Inr (seen', x') \<Longrightarrow> block_ok x \<Longrightarrow> block_ok x'"
proof (induction lib ds seen x rule: directives.induct)
  case (2 lib args block ds seen p st)
  have "block_ok (p\<lparr>pZone := z\<rparr>, st)" for z using 2(3) by (simp add: block_ok_def)
  then show ?case using 2(1,2) by (auto split: list.splits if_splits sum.splits dest: block_loop_ok)
qed simp

lemma directives_one: "directives lib ds seen x = Inr (True, x') \<Longrightarrow> \<not> seen \<Longrightarrow> length ds = 1"
proof (induction lib ds seen x rule: directives.induct)
  case (2 lib args block ds seen p st)
  then obtain zone y where "args = [zone]" "block_loop lib block (p\<lparr>pZone := pCanonicalName lib zone\<rparr>, st) = Inr y"
    "directives lib ds True y = Inr (True, x')"
    by (auto split: list.splits if_splits sum.splits)
  then show ?case by (cases ds; cases y) (auto split: list.splits)
qed simp

lemma LoadSigner_ok: "LoadSigner L b v = Inr s \<Longrightarrow> 0 < sValidity s \<and> Rrtype (sKey s) = TypeDNSKEY"
  by (auto simp: LoadSigner_def Let_def readDNSKEYFile_def defaultSigValidity_def split: sum.splits option.splits bool.splits if_splits)

text \<open>The store that a parsed configuration of the shared one asks for: in process without addresses, otherwise connected to them.\<close>

definition store_ok :: "'v setup_lib \<Rightarrow> ValkeyConfig \<Rightarrow> 'v Store \<Rightarrow> bool" where
  "store_ok L vc st \<longleftrightarrow>
     (case st of
        InProcess m \<Rightarrow> vcAddrs vc = [] \<and> 0 < s_TTL m \<and> 0 < MaxTokens m \<and> 0 < MaxPerToken m
      | Shared v s \<Rightarrow> 0 < vkTTL s \<and> 0 < vkTimeout s \<and> 0 < vkMaxPerToken s \<and>
          vcAddrs vc \<noteq> [] \<and> (\<exists>pem. sl_readFile L (vcCAFile vc) = Some pem \<and> sl_usablePEM L pem \<and>
             sl_connect L (vcAddrs vc) (Some pem) = Some v))"

definition configured_store :: "'v setup_lib \<Rightarrow> (string list \<times> (string \<times> string list) list) list \<Rightarrow> 'v Store \<Rightarrow> bool" where
  "configured_store L ds store \<longleftrightarrow>
     (\<exists>seen (p :: 'v Store option Probe) st.
        directives (sl_dns L) ds False (new_Probe, new_parseState) = Inr (seen, p, st) \<and> store_ok L (valkeyCfg st) store)"

lemma NewValkeyStore_ok:
  assumes "NewValkeyStore rf us cn cfg = Inr (v, s)" and "vcCAFile cfg \<noteq> []"
  shows "0 < vkTTL s \<and> 0 < vkTimeout s \<and> 0 < vkMaxPerToken s \<and>
    (\<exists>pem. rf (vcCAFile cfg) = Some pem \<and> us pem \<and> cn (vcAddrs cfg) (Some pem) = Some v) \<and> vcAddrs cfg \<noteq> []"
  using assms
  by (auto simp: NewValkeyStore_def Let_def defaultStoreTTL_def defaultValkeyTimeout_def defaultMaxPerToken_def
      split: if_splits option.splits sum.splits)

lemma buildStore_ok: "buildStore L vc ttl mt mp = Inr st \<Longrightarrow> store_ok L vc st"
  by (auto simp: buildStore_def store_ok_def NewMemStore_def defaultStoreTTL_def defaultMaxTokens_def defaultMaxPerToken_def
      split: if_splits sum.splits dest!: NewValkeyStore_ok)

lemma validateAgentDomain_ok:
  assumes "validateAgentDomain lib p = Inr p'"
  shows "p' = p\<lparr>pAgentTTL := pAgentTTL p'\<rparr> \<and>
    (pAgentDomain p = [] \<and> pAgentTTL p' = 0 \<or>
     pAgentDomain p \<noteq> [] \<and> pAgentDomain p \<noteq> ''.'' \<and> pAgentTTL p' \<noteq> 0 \<and>
     \<not> pIsSubDomain lib (pZone p) (pAgentDomain p) \<and> \<not> pIsSubDomain lib (pAgentDomain p) (pZone p))"
  using assms by (auto simp: validateAgentDomain_def defaultAgentTTL_def split: if_splits)

lemma loadSigner_state_ok:
  assumes "loadSignerFromState L p st = Inr p'" and "pSigner p = None"
  shows "p' = p\<lparr>pSigner := pSigner p'\<rparr> \<and>
    (\<forall>s. pSigner p' = Some s \<longrightarrow> sOwner s = pZone p \<and> 0 < sValidity s \<and> Rrtype (sKey s) = TypeDNSKEY)"
  using assms by (auto simp: loadSignerFromState_def split: if_splits sum.splits dest: LoadSigner_ok)

lemma BuildECH_readable:
  assumes "BuildECHConfigList i k n = Inr b"
  shows "ParseECHConfigList b = Inr (i, k, n)"
proof -
  have "length k = 32" "length n \<le> 255" using assms by (auto simp: BuildECHConfigList_def split: if_splits)
  then show ?thesis using assms BuildECHConfigList_ok Parse_list_octets [of k n i] by simp
qed

text \<open>The stages of \<open>parse\<close>.\<close>

lemma probe_parse_Inr:
  fixes L :: "'v setup_lib"
  assumes "probe_parse L ds = Inr p"
  obtains p2 st p3 p4 store b where "length ds = 1" "block_ok (p2, st)" "validateAgentDomain (sl_dns L) p2 = Inr p3"
    "loadSignerFromState L p3 st = Inr p4" "configured_store L ds store"
    "ParseECHConfigList b = Inr (echConfigID, sl_sha256 L (''probe-ech-canary/'' @ pZone p4), trim_suffix (pZone p4) ''.'')"
    "p = p4\<lparr>pStore := Some store, pECHConfigList := b\<rparr>"
proof -
  obtain seen and p0 :: "'v Store option Probe" and st where d1: "directives (sl_dns L) ds False (new_Probe, new_parseState) = Inr (seen, p0, st)"
    using assms by (cases "directives (sl_dns L) ds False (new_Probe, new_parseState) :: _ + bool \<times> 'v setup_state")
      (auto simp: probe_parse_def)
  have "seen" using assms d1 by (cases seen) (simp_all add: probe_parse_def)
  note d = d1 this
  define p1 where "p1 = (if pNSName p0 = [] then p0\<lparr>pNSName := ''ns.'' @ pZone p0\<rparr> else p0)"
  define p2 where "p2 = (if pMbox p1 = [] then p1\<lparr>pMbox := ''hostmaster.'' @ pZone p1\<rparr> else p1)"
  note A = assms [unfolded probe_parse_def Let_def d(1) sum.case case_prod_conv, folded p1_def, folded p2_def]
  obtain p3 p4 store b where st: "validateAgentDomain (sl_dns L) p2 = Inr p3" "loadSignerFromState L p3 st = Inr p4"
    "buildStore L (valkeyCfg st) (storeTTL st) (maxTokens st) (maxPerToken st) = Inr store"
    "BuildECHConfigList echConfigID (sl_sha256 L (''probe-ech-canary/'' @ pZone p4)) (trim_suffix (pZone p4) ''.'') = Inr b"
    "p = p4\<lparr>pStore := Some store, pECHConfigList := b\<rparr>"
    using A d(2) by (auto split: sum.splits)
  have "block_ok (new_Probe :: 'v Store option Probe, new_parseState)" by (simp add: block_ok_def new_Probe_def defaultBigSize_def)
  then have "block_ok (p0, st)" using directives_ok [OF d(1)] by simp
  then have "block_ok (p2, st)" by (simp add: block_ok_def p2_def p1_def)
  moreover have "length ds = 1" using directives_one [OF d(1) [unfolded eqTrueI [OF d(2)]]] by simp
  moreover have "configured_store L ds store" using d1 buildStore_ok [OF st(3)] unfolding configured_store_def by blast
  ultimately show ?thesis using that st BuildECH_readable by blast
qed

text \<open>
  C28: an accepted Corefile is sound. There is exactly one block; the size of a padded answer is within 1 and 4096; an agent
  domain comes with a positive TTL and no name lies both in it and in the probe zone, so that the order in which the handler
  tests the two zones is immaterial; a signing key belongs to the zone, is a DNSKEY and signs with a positive validity; the
  cache of SOA signatures is empty; the canary reads back as the configuration of the zone; and the store has positive
  bounds and, when it is shared, a connection to the configured addresses whose server certificate is verified against the configured bundle,
  which is readable and usable.
\<close>

theorem accepted_probe_is_sound:
  assumes "probe_parse L ds = Inr p" and "probe_dns_ok (sl_dns L)"
  shows "length ds = 1 \<and> 1 \<le> pBigSize p \<and> pBigSize p \<le> 4096 \<and> pSoaSigs p = replicate 16 None \<and>
    (pAgentDomain p = [] \<and> pAgentTTL p = 0 \<or> pAgentDomain p \<noteq> [] \<and> pAgentDomain p \<noteq> ''.'' \<and> pAgentTTL p \<noteq> 0) \<and>
    (\<forall>env zs as ls. plain_name zs \<and> plain_name as \<and> plain_name ls \<and> pZone p = dotted zs \<and> pAgentDomain p = dotted as \<longrightarrow>
       \<not> (zoneMatches env (pZone p) (dotted ls) \<and> zoneMatches env (pAgentDomain p) (dotted ls))) \<and>
    (\<forall>s. pSigner p = Some s \<longrightarrow> sOwner s = pZone p \<and> 0 < sValidity s \<and> Rrtype (sKey s) = TypeDNSKEY) \<and>
    ParseECHConfigList (pECHConfigList p) =
      Inr (echConfigID, sl_sha256 L (''probe-ech-canary/'' @ pZone p), trim_suffix (pZone p) ''.'') \<and>
    (\<exists>store. pStore p = Some store \<and> configured_store L ds store)"
proof -
  obtain p2 st p3 p4 store b where q: "length ds = 1" "block_ok (p2, st)" "validateAgentDomain (sl_dns L) p2 = Inr p3"
    "loadSignerFromState L p3 st = Inr p4" "configured_store L ds store"
    "ParseECHConfigList b = Inr (echConfigID, sl_sha256 L (''probe-ech-canary/'' @ pZone p4), trim_suffix (pZone p4) ''.'')"
    "p = p4\<lparr>pStore := Some store, pECHConfigList := b\<rparr>"
    using probe_parse_Inr [OF assms(1)] .
  note v = validateAgentDomain_ok [OF q(3)]
  obtain ttl where p3: "p3 = p2\<lparr>pAgentTTL := ttl\<rparr>" using v by blast
  have "pSigner p3 = None" using q(2) by (simp add: p3 block_ok_def)
  note l = loadSigner_state_ok [OF q(4) this]
  obtain sg where p4: "p4 = p3\<lparr>pSigner := sg\<rparr>" using l by blast
  have zones: "\<not> (zoneMatches env (pZone p) (dotted ls) \<and> zoneMatches env (pAgentDomain p) (dotted ls))"
    if n: "plain_name zs" "plain_name as" "plain_name ls" and z: "pZone p = dotted zs" "pAgentDomain p = dotted as" for env zs as ls
  proof -
    have "pAgentDomain p2 \<noteq> []" using z(2) dotted_not_root [OF n(2)] by (simp add: q(7) p4 p3)
    then have "\<not> pIsSubDomain (sl_dns L) (dotted zs) (dotted as)" "\<not> pIsSubDomain (sl_dns L) (dotted as) (dotted zs)"
      using v z by (auto simp: q(7) p4 p3)
    then show ?thesis
      using zones_disjoint [OF n, of env] lib_plain(4) [OF assms(2) n(2,1)] lib_plain(4) [OF assms(2) n(1,2)] z by simp
  qed
  have keys: "pSigner p = Some s \<longrightarrow> sOwner s = pZone p \<and> 0 < sValidity s \<and> Rrtype (sKey s) = TypeDNSKEY" for s
    using l by (simp add: q(7) p4)
  have agent: "pAgentDomain p = [] \<and> pAgentTTL p = 0 \<or> pAgentDomain p \<noteq> [] \<and> pAgentDomain p \<noteq> ''.'' \<and> pAgentTTL p \<noteq> 0"
    using v by (auto simp: q(7) p4 p3)
  have "1 \<le> pBigSize p" "pBigSize p \<le> 4096" "pSoaSigs p = replicate 16 None" using q(2) by (simp_all add: q(7) p4 p3 block_ok_def)
  moreover have "ParseECHConfigList (pECHConfigList p) =
      Inr (echConfigID, sl_sha256 L (''probe-ech-canary/'' @ pZone p), trim_suffix (pZone p) ''.'')" using q(6) by (simp add: q(7))
  moreover have "pStore p = Some store" by (simp add: q(7))
  ultimately show ?thesis using q(1,5) zones keys agent by blast
qed

text \<open>A signed zone with an agent beside it and a shared store.\<close>

definition example_lib :: "(int \<times> kv) setup_lib" where
  "example_lib =
     \<lparr>sl_dns = plain_dns, sl_openRoot = (\<lambda>d. d = ''/keys/''),
      sl_read = (\<lambda>d f. if d = ''/keys/'' \<and> (f = ''Kcheck.key'' \<or> f = ''Kcheck.private'') then Some f else None),
      sl_newRR = (\<lambda>_. Some (Some (sKey example_signer))), sl_isDNSKEY = (\<lambda>_. True), sl_private = (\<lambda>_ _. Some True),
      sl_algorithm = (\<lambda>_. 13), sl_keyTag = (\<lambda>_. 4711), sl_toDS = (\<lambda>_ _. None),
      sl_readFile = (\<lambda>f. if f = ''/ca.pem'' then Some ''pem'' else None), sl_usablePEM = (\<lambda>_. True),
      sl_connect = (\<lambda>_ _. Some (0, Map.empty)), sl_sha256 = (\<lambda>_. replicate 32 7)\<rparr>"

definition example_corefile :: "(string list \<times> (string \<times> string list) list) list" where
  "example_corefile =
     [([''check.example.''],
       [(''key'', [''/keys/Kcheck'']), (''agent_domain'', [''agent.example.'']), (''big_size'', [''4096'']), (''validity'', [''2h'']),
        (''valkey'', [''v1:6379'', ''v2:6379'']), (''valkey_ca'', [''/ca.pem'']), (''store_ttl'', [''5m''])])]"

theorem accepted_probe_is_sound_witness:
  "\<exists>p s. probe_parse example_lib example_corefile = Inr p \<and> pSigner p = Some s \<and> sOwner s = ''check.example.'' \<and>
     pBigSize p \<le> 4096 \<and> (\<exists>store. pStore p = Some store \<and> configured_store example_lib example_corefile store)"
proof -
  have "case probe_parse example_lib example_corefile of Inl _ \<Rightarrow> False
      | Inr p \<Rightarrow> pZone p = ''check.example.'' \<and> pSigner p \<noteq> None" by code_simp
  then obtain p s where p: "probe_parse example_lib example_corefile = Inr p" "pZone p = ''check.example.''" "pSigner p = Some s"
    by (auto split: sum.splits)
  have "probe_dns_ok (sl_dns example_lib)" using plain_dns_ok by (simp add: example_lib_def)
  from accepted_probe_is_sound [OF p(1) this] p show ?thesis by auto
qed

text \<open>
  A number is read up to its first character that is not a digit: \<open>ttl 10s\<close> and \<open>big_size 4k\<close> are accepted, as 10 and as 4;
  and a TTL of an hour written \<open>ttl 1h\<close> is one second.
\<close>

lemma trailing_text_is_ignored:
  "parseUint32Arg ''10s'' = Inr 10" "parseIntArg ''4k'' = Inr 4" "parseUint32Arg ''1h'' = Inr 1" "parseUint32Arg ''1e3'' = Inr 1"
  by code_simp+

end
