(* ===== verification/Ci_Build.thy ===== *)
theory Ci_Build
  imports Go_Lib "HOL-Library.Multiset" "HOL-Library.List_Lexorder" "HOL-Library.Sublist"
begin

text \<open>
  The build of the server that carries the plugins: the pipeline of \<open>ci/main.go\<close>. A Dagger container is the sequence of
  operations it is built from; running one (\<open>Stdout\<close>) is a parameter, as is \<open>sed\<close>, which edits the \<open>plugin.cfg\<close> of CoreDNS.
  Go visits the table of plugins in any order, so the loops over it take the order as an argument.
\<close>

section \<open>Containers\<close>

datatype dag_dir = Source | Subdirectory dag_dir string | GitTree string string

datatype dag_op =
    From string
  | WithMountedCache string string
  | WithDirectory string dag_dir
  | WithWorkdir string
  | WithExec "string list"
  | WithEnvVariable string string
  | WithFile string dag_file "nat option"
  | WithUser string
  | WithExposedPort nat
  | WithEntrypoint "string list"
and dag_file = ContainerFile "dag_op list" string | HTTP string | AsTarball "dag_op list"

type_synonym container = "dag_op list"

text \<open>The shell command between its quotes, and the lines of a script with their line breaks and tabs.\<close>

definition nl :: string where "nl = [CHR 0x0A]"
definition tabs :: "nat \<Rightarrow> string" where "tabs n = replicate n (CHR 0x09)"
definition backslash :: string where "backslash = [CHR 0x5C]"

definition go_caches :: container where
  "go_caches =
     [WithMountedCache ''/go/pkg/mod'' ''go-mod'', WithMountedCache ''/root/.cache/go-build'' ''go-build'']"

definition goBase :: "dag_dir \<Rightarrow> container" where
  "goBase source =
     [From ''golang:1.27''] @ go_caches @ [WithDirectory ''/src'' source, WithWorkdir ''/src'']"

definition TestPlugin :: "(container \<Rightarrow> 'e + string) \<Rightarrow> dag_dir \<Rightarrow> string \<Rightarrow> 'e + string" where
  "TestPlugin stdout source pluginDir =
     stdout (goBase source @
       [WithWorkdir (''/src/'' @ pluginDir), WithExec [''go'', ''test'', ''-race'', ''./...'']])"

definition golangciLintImage :: string where
  "golangciLintImage = ''golangci/golangci-lint:v2.15.0-alpine''"

definition LintPlugin :: "(container \<Rightarrow> 'e + string) \<Rightarrow> dag_dir \<Rightarrow> string \<Rightarrow> 'e + string" where
  "LintPlugin stdout source pluginDir =
     stdout ([From golangciLintImage] @ go_caches @
       [WithMountedCache ''/root/.cache/golangci-lint'' ''golangci-lint'',
        WithDirectory ''/src'' source,
        WithWorkdir (''/src/'' @ pluginDir),
        WithExec [''/src/custom-gcl'', ''run'', ''--timeout=5m'', ''./...'']])"

definition gitleaksImage :: string where
  "gitleaksImage = ''ghcr.io/gitleaks/gitleaks:v8.30.1''"

definition GitleaksScan :: "(container \<Rightarrow> 'e + string) \<Rightarrow> dag_dir \<Rightarrow> string \<Rightarrow> 'e + string" where
  "GitleaksScan stdout source base =
     (let base = (if base = [] then ''main'' else base) in
      stdout
       [From gitleaksImage, WithDirectory ''/src'' source, WithWorkdir ''/src'',
        WithExec [''gitleaks'', ''git'', ''--log-opts='' @ base @ ''..HEAD'', ''--redact'', ''--no-banner'', ''.'']])"

definition YamlLint :: "(container \<Rightarrow> 'e + string) \<Rightarrow> dag_dir \<Rightarrow> 'e + string" where
  "YamlLint stdout source =
     stdout
       [From ''alpine:3.21'', WithExec [''apk'', ''add'', ''--no-cache'', ''yamllint''],
        WithDirectory ''/src'' source, WithWorkdir ''/src'',
        WithExec [''yamllint'', ''-c'', ''.yamllint.yml'', ''-f'', ''parsable'', ''.github/workflows'']]"

definition cyclonedxGomodVersion :: string where
  "cyclonedxGomodVersion = ''v1.12.0''"

definition Sbom :: "dag_dir \<Rightarrow> string \<Rightarrow> dag_file" where
  "Sbom source pluginDir =
     ContainerFile
       (goBase source @
        [WithWorkdir (''/src/'' @ pluginDir),
         WithExec [''go'', ''install'',
           ''github.com/CycloneDX/cyclonedx-gomod/cmd/cyclonedx-gomod@'' @ cyclonedxGomodVersion],
         WithExec [''sh'', ''-c'',
           ''$(go env GOPATH)/bin/cyclonedx-gomod mod -json -output /tmp/sbom.cdx.json'']])
       ''/tmp/sbom.cdx.json''"

definition SbomScan :: "(container \<Rightarrow> 'e + string) \<Rightarrow> dag_dir \<Rightarrow> string \<Rightarrow> 'e + string" where
  "SbomScan stdout source pluginDir =
     stdout
       [From ''alpine:3.21'', WithExec [''apk'', ''add'', ''--no-cache'', ''curl'', ''bash'', ''ca-certificates''],
        WithExec [''sh'', ''-c'',
          ''curl -sSfL https://raw.githubusercontent.com/anchore/grype/main/install.sh | sh -s -- -b /usr/local/bin v0.116.0''],
        WithFile ''/sbom.cdx.json'' (Sbom source pluginDir) None,
        WithExec [''grype'', ''sbom:/sbom.cdx.json'', ''--fail-on'', ''high'']]"

definition opengrepVersion :: string where
  "opengrepVersion = ''v1.33.1''"

definition OpengrepScan :: "(container \<Rightarrow> 'e + string) \<Rightarrow> dag_dir \<Rightarrow> 'e + string" where
  "OpengrepScan stdout source =
     (let bin = HTTP (''https://github.com/opengrep/opengrep/releases/download/'' @ opengrepVersion @ ''/opengrep_manylinux_x86'');
          rules = GitTree ''https://github.com/opengrep/opengrep-rules.git'' ''main'' in
      stdout
       [From ''debian:12-slim'', WithEnvVariable ''PYTHONUTF8'' ''1'', WithEnvVariable ''LC_ALL'' ''C.UTF-8'',
        WithFile ''/usr/local/bin/opengrep'' bin (Some 493),
        WithDirectory ''/rules'' rules, WithDirectory ''/src'' source, WithWorkdir ''/src'',
        WithExec [''opengrep'', ''scan'', ''-f'', ''/rules/go'', ''--error'', ''.'']])"

definition buildBase :: container where
  "buildBase =
     [From ''golang:1.27'',
      WithExec [''sh'', ''-c'',
        nl @ tabs 3 @ ''sed -i 's|http://deb.debian.org|https://deb.debian.org|g' '' @ backslash @
        nl @ tabs 4 @ ''/etc/apt/sources.list /etc/apt/sources.list.d/*.list /etc/apt/sources.list.d/*.sources 2>/dev/null'' @
        nl @ tabs 3 @ ''apt-get update && apt-get install -y --no-install-recommends git libcap2-bin'' @
        nl @ tabs 2]] @
     go_caches @ [WithEnvVariable ''CGO_ENABLED'' ''0'']"

section \<open>The table of plugins\<close>

record cfg_patch =
  cfgLine :: string
  replaceStockLine :: string
  insertAfterLine :: string
  modulePath :: string
  externalModule :: string
  externalVersion :: string

text \<open>A plugin of this repository that is inserted after a stock line.\<close>

abbreviation own_plugin :: "string \<Rightarrow> string \<Rightarrow> string \<times> cfg_patch" where
  "own_plugin nm after_line \<equiv>
     (nm, \<lparr>cfgLine = nm @ '':github.com/puredevotion/coredns-plugins/'' @ nm, replaceStockLine = [], insertAfterLine = after_line,
           modulePath = ''github.com/puredevotion/coredns-plugins/'' @ nm, externalModule = [], externalVersion = []\<rparr>)"

definition pluginCfgPatches :: "(string \<times> cfg_patch) list" where
  "pluginCfgPatches =
     [(''sni_tls'',
       \<lparr>cfgLine = ''sni_tls:github.com/puredevotion/coredns-plugins/sni_tls'', replaceStockLine = ''tls:tls'', insertAfterLine = [],
        modulePath = ''github.com/puredevotion/coredns-plugins/sni_tls'', externalModule = [], externalVersion = []\<rparr>),
      own_plugin ''radnr'' ''health:health'',
      own_plugin ''dynupdate'' ''hosts:hosts'',
      own_plugin ''cookie'' ''tsig:tsig'',
      own_plugin ''probe'' ''file:file'',
      (''rrl'',
       \<lparr>cfgLine = ''rrl:github.com/coredns/rrl/plugins/rrl'', replaceStockLine = [], insertAfterLine = ''rewrite:rewrite'',
        modulePath = ''github.com/coredns/rrl/plugins/rrl'', externalModule = ''github.com/coredns/rrl'',
        externalVersion = ''v0.0.0-20250915113509-ac1135e077ba''\<rparr>)]"

section \<open>The build\<close>

datatype 'e build_error =
    NoSlot string
  | FloatingExternal string string
  | GetcapFailed 'e
  | CapabilityMissing string string
  | SmokeTestFailed 'e
  | PluginMissing string string string
  | SliceOutOfRange string

text \<open>The edit of \<open>plugin.cfg\<close> for one entry.\<close>

definition sed_script :: "cfg_patch \<Rightarrow> string option" where
  "sed_script p =
     (if replaceStockLine p \<noteq> [] then Some (''s#^'' @ replaceStockLine p @ ''$#'' @ cfgLine p @ ''#'')
      else if insertAfterLine p \<noteq> [] then Some (''/^'' @ insertAfterLine p @ ''$/a '' @ cfgLine p)
      else None)"

text \<open>The loop over the table: the container so far and the third-party modules to fetch.\<close>

fun wire_plugins :: "dag_dir \<Rightarrow> (string \<times> cfg_patch) list \<Rightarrow> container \<Rightarrow> string list \<Rightarrow> 'e build_error + container \<times> string list" where
  "wire_plugins source [] ctr externalGets = Inr (ctr, externalGets)"
| "wire_plugins source ((pluginDir, p) # ps) ctr externalGets =
     (case sed_script p of
        None \<Rightarrow> Inl (NoSlot pluginDir)
      | Some script \<Rightarrow>
          let ctr = ctr @ [WithExec [''sed'', ''-i'', script, ''plugin.cfg'']] in
          if externalModule p \<noteq> [] then
            (if externalVersion p = [] then Inl (FloatingExternal pluginDir (externalModule p))
             else wire_plugins source ps ctr (externalGets @ [externalModule p @ ''@'' @ externalVersion p]))
          else
            let vendoredPath = ''/vendored/'' @ pluginDir in
            wire_plugins source ps
              (ctr @ [WithDirectory vendoredPath (Subdirectory source pluginDir),
                      WithExec [''go'', ''mod'', ''edit'', ''-replace'', modulePath p @ ''='' @ vendoredPath]])
              externalGets)"

definition go_get :: "string list \<Rightarrow> dag_op" where
  "go_get specs = WithExec ([''go'', ''get''] @ specs)"

text \<open>The container \<open>BuildCoredns\<close> builds, for the order in which the loop meets the table.\<close>

definition clone_coredns :: "string \<Rightarrow> container" where
  "clone_coredns corednsVersion =
     buildBase @
     [WithExec [''git'', ''clone'', ''--branch'', ''v'' @ corednsVersion, ''--depth'', ''1'',
        ''https://github.com/coredns/coredns.git'', ''/coredns''],
      WithWorkdir ''/coredns'']"

definition resolve_and_build :: "string list \<Rightarrow> container" where
  "resolve_and_build externalGets =
     [WithExec [''go'', ''generate'']] @
     map (\<lambda>spec. go_get [spec]) (sort externalGets) @
     [go_get [''golang.org/x/text@v0.41.0'', ''google.golang.org/grpc@v1.83.2'',
        ''go.etcd.io/etcd/client/pkg/v3@v3.6.15'', ''github.com/klauspost/compress@v1.20.2''],
      WithExec [''go'', ''mod'', ''tidy''],
      WithExec [''go'', ''build'', ''-o'', ''/coredns-out/coredns'', ''.''],
      WithExec [''setcap'', ''cap_net_raw,cap_net_bind_service+ep'', ''/coredns-out/coredns'']]"

definition coredns_container :: "dag_dir \<Rightarrow> (string \<times> cfg_patch) list \<Rightarrow> string \<Rightarrow> 'e build_error + container" where
  "coredns_container source patches corednsVersion =
     (case wire_plugins source patches (clone_coredns corednsVersion) [] of
        Inl e \<Rightarrow> Inl e
      | Inr (ctr, externalGets) \<Rightarrow> Inr (ctr @ resolve_and_build externalGets))"

text \<open>\<open>strings.Contains\<close>.\<close>

fun contains :: "string \<Rightarrow> string \<Rightarrow> bool" where
  "contains [] sub \<longleftrightarrow> sub = []"
| "contains (c # s) sub \<longleftrightarrow> has_prefix (c # s) sub \<or> contains s sub"

fun check_caps :: "string \<Rightarrow> string list \<Rightarrow> 'e build_error option" where
  "check_caps capOut [] = None"
| "check_caps capOut (want # wants) =
     (if \<not> contains capOut want then Some (CapabilityMissing capOut want) else check_caps capOut wants)"

definition BuildCoredns ::
  "(container \<Rightarrow> 'e + string) \<Rightarrow> dag_dir \<Rightarrow> (string \<times> cfg_patch) list \<Rightarrow> string \<Rightarrow> 'e build_error + dag_file" where
  "BuildCoredns stdout source patches corednsVersion =
     (case coredns_container source patches corednsVersion of
        Inl e \<Rightarrow> Inl e
      | Inr ctr \<Rightarrow>
          (case stdout (ctr @ [WithExec [''getcap'', ''/coredns-out/coredns'']]) of
             Inl e \<Rightarrow> Inl (GetcapFailed e)
           | Inr capOut \<Rightarrow>
               (case check_caps capOut [''cap_net_raw'', ''cap_net_bind_service''] of
                  Some e \<Rightarrow> Inl e
                | None \<Rightarrow> Inr (ContainerFile ctr ''/coredns-out/coredns''))))"

section \<open>The image\<close>

definition runtimeBaseRef :: string where
  "runtimeBaseRef = ''gcr.io/distroless/static-debian12:nonroot''"

definition runtime_container :: "dag_file \<Rightarrow> container" where
  "runtime_container binary =
     [From runtimeBaseRef, WithFile ''/coredns'' binary None, WithUser ''nonroot:nonroot'', WithWorkdir ''/'',
      WithExposedPort 53, WithExposedPort 853, WithExposedPort 443]"

text \<open>The smoke test looks for the name before the colon of every line; without a colon the slice is out of range.\<close>

fun smoke_test :: "string \<Rightarrow> (string \<times> cfg_patch) list \<Rightarrow> 'e build_error option" where
  "smoke_test out [] = None"
| "smoke_test out ((pluginDir, p) # ps) =
     (case index_byte (cfgLine p) (CHR '':'') of
        None \<Rightarrow> Some (SliceOutOfRange (cfgLine p))
      | Some i \<Rightarrow>
          let name = take i (cfgLine p) in
          if \<not> contains out name then Some (PluginMissing name pluginDir out) else smoke_test out ps)"

definition Containerize ::
  "(container \<Rightarrow> 'e + string) \<Rightarrow> dag_dir \<Rightarrow> (string \<times> cfg_patch) list \<Rightarrow> (string \<times> cfg_patch) list \<Rightarrow> string \<Rightarrow>
     'e build_error + dag_file" where
  "Containerize stdout source patches patches' corednsVersion =
     (case BuildCoredns stdout source patches corednsVersion of
        Inl e \<Rightarrow> Inl e
      | Inr binary \<Rightarrow>
          let ctr = runtime_container binary in
          (case stdout (ctr @ [WithExec [''/coredns'', ''-plugins'']]) of
             Inl e \<Rightarrow> Inl (SmokeTestFailed e)
           | Inr out \<Rightarrow>
               (case smoke_test out patches' of
                  Some e \<Rightarrow> Inl e
                | None \<Rightarrow> Inr (AsTarball (ctr @ [WithEntrypoint [''/coredns'']])))))"

section \<open>What sed does with the scripts\<close>

text \<open>
  The scripts name lines without characters that are special in a pattern or in a replacement. Letters, digits, colons and
  underscores are plain everywhere, slashes, dots and hyphens in a replacement. On such lines \<open>sed\<close> replaces the
  lines equal to the one named, or appends a line after each of them (POSIX \<open>s\<close>, and \<open>a\<close> with its text on the same line).
\<close>

definition plain_char :: "char \<Rightarrow> bool" where
  "plain_char c \<longleftrightarrow> (let n = of_char c :: nat in n = 95 \<or> 48 \<le> n \<and> n \<le> 58 \<or> 65 \<le> n \<and> n \<le> 90 \<or> 97 \<le> n \<and> n \<le> 122)"

definition plain_pattern :: "string \<Rightarrow> bool" where
  "plain_pattern a \<longleftrightarrow> a \<noteq> [] \<and> list_all plain_char a"

definition plain_line :: "string \<Rightarrow> bool" where
  "plain_line b \<longleftrightarrow> b \<noteq> [] \<and> list_all (\<lambda>c. plain_char c \<or> c = CHR ''/'' \<or> c = CHR ''.'' \<or> c = CHR ''-'') b"

definition expand :: "string \<times> string list \<Rightarrow> string list \<Rightarrow> string list" where
  "expand e ls = concat (map (\<lambda>l. if l = fst e then snd e else [l]) ls)"

definition sed_ok :: "(string \<Rightarrow> string list \<Rightarrow> string list) \<Rightarrow> bool" where
  "sed_ok sed \<longleftrightarrow> (\<forall>a b ls. plain_pattern a \<longrightarrow> plain_line b \<longrightarrow>
     sed (''s#^'' @ a @ ''$#'' @ b @ ''#'') ls = expand (a, [b]) ls \<and>
     sed (''/^'' @ a @ ''$/a '' @ b) ls = expand (a, [a, b]) ls)"

text \<open>The file after the commands of a container.\<close>

fun edit_cfg :: "(string \<Rightarrow> string list \<Rightarrow> string list) \<Rightarrow> dag_op \<Rightarrow> string list \<Rightarrow> string list" where
  "edit_cfg sed (WithExec [prog, flag, script, path]) cfg =
     (if prog = ''sed'' \<and> flag = ''-i'' \<and> path = ''plugin.cfg'' then sed script cfg else cfg)"
| "edit_cfg sed op cfg = cfg"

definition plugin_cfg :: "(string \<Rightarrow> string list \<Rightarrow> string list) \<Rightarrow> container \<Rightarrow> string list \<Rightarrow> string list" where
  "plugin_cfg sed ctr cfg = fold (edit_cfg sed) ctr cfg"

text \<open>A reading of the two scripts that has these properties.\<close>

definition sed_ref :: "string \<Rightarrow> string list \<Rightarrow> string list" where
  "sed_ref script ls =
     (case cut_prefix script ''s#^'' of
        Some r \<Rightarrow>
          let a = takeWhile (\<lambda>c. c \<noteq> CHR ''$'') r; b = takeWhile (\<lambda>c. c \<noteq> CHR ''#'') (drop (length a + 2) r) in expand (a, [b]) ls
      | None \<Rightarrow>
          let r = drop 2 script; a = takeWhile (\<lambda>c. c \<noteq> CHR ''$'') r; b = drop (length a + 4) r in expand (a, [a, b]) ls)"

lemma takeWhile_plain:
  assumes "list_all P xs" and "\<And>x. P x \<Longrightarrow> x \<noteq> c"
  shows "takeWhile (\<lambda>x. x \<noteq> c) (xs @ c # ys) = xs"
  using assms by (induction xs) auto

lemma sed_ref_ok: "sed_ok sed_ref"
proof -
  have no_dollar: "plain_char c \<Longrightarrow> c \<noteq> CHR ''$''" for c
    by (auto simp: plain_char_def)
  have no_hash: "plain_char c \<or> c = CHR ''/'' \<or> c = CHR ''.'' \<or> c = CHR ''-'' \<Longrightarrow> c \<noteq> CHR ''#''" for c
    by (auto simp: plain_char_def)
  show ?thesis
    by (auto simp: sed_ok_def sed_ref_def cut_prefix_def has_prefix_def plain_pattern_def plain_line_def Let_def
        takeWhile_plain [OF _ no_dollar] takeWhile_plain [OF _ no_hash])
qed

section \<open>Edits at different lines\<close>

lemma expand_Nil [simp]: "expand e [] = []"
  by (simp add: expand_def)

lemma expand_append [simp]: "expand e (xs @ ys) = expand e xs @ expand e ys"
  by (simp add: expand_def)

text \<open>Edits with different patterns, none of which produces the line of another, amount to one lookup per line.\<close>

definition place :: "(string \<times> string list) list \<Rightarrow> string \<Rightarrow> string list" where
  "place es l = (case map_of es l of Some ls \<Rightarrow> ls | None \<Rightarrow> [l])"

definition separate :: "(string \<times> string list) list \<Rightarrow> bool" where
  "separate es \<longleftrightarrow> distinct (map fst es) \<and> (\<forall>e \<in> set es. \<forall>x \<in> set (snd e). x = fst e \<or> x \<notin> fst ` set es)"

lemma place_other: "set ls \<inter> fst ` set es = {} \<Longrightarrow> concat (map (place es) ls) = ls"
proof (induction ls)
  case (Cons l ls)
  then have "map_of es l = None" by (auto simp: map_of_eq_None_iff)
  with Cons show ?case by (auto simp: place_def)
qed simp

lemma separate_edits_are_one_lookup:
  "separate es \<Longrightarrow> fold expand es ls = concat (map (place es) ls)"
proof (induction es arbitrary: ls)
  case Nil
  then show ?case by (simp add: place_def)
next
  case (Cons e es)
  obtain k v where e: "e = (k, v)" by force
  have sep: "separate es"
    unfolding separate_def
  proof (intro conjI ballI)
    show "distinct (map fst es)" using Cons.prems by (simp add: separate_def)
    fix d x assume "d \<in> set es" and "x \<in> set (snd d)"
    then have "x = fst d \<or> x \<notin> fst ` set (e # es)" using Cons.prems unfolding separate_def by (meson list.set_intros(2))
    then show "x = fst d \<or> x \<notin> fst ` set es" by auto
  qed
  have v: "set v \<inter> fst ` set es = {}"
    using Cons.prems by (auto simp: separate_def e)
  have at: "concat (map (place es) v) = place (e # es) k"
    using place_other [OF v] by (simp add: place_def e)
  have off: "place es l = place (e # es) l" if "l \<noteq> k" for l
    using that by (simp add: place_def e)
  have "concat (map (place es) (expand e ls)) = concat (map (place (e # es)) ls)"
    by (induction ls) (auto simp: expand_def e at [unfolded e] off [unfolded e])
  with Cons.IH [OF sep] show ?case by simp
qed

lemma place_any_order:
  assumes "separate es" and "mset es' = mset es"
  shows "separate es'" and "place es' = place es"
proof -
  have d: "distinct (map fst es)" using assms(1) by (simp add: separate_def)
  have s: "set es' = set es" using assms(2) by (rule mset_eq_setD)
  have "mset (map fst es') = mset (map fst es)" by (simp only: mset_map assms(2))
  then have d': "distinct (map fst es')" by (rule mset_eq_imp_distinct_iff [THEN iffD2, OF _ d])
  show "separate es'" using assms(1) d' by (simp add: separate_def s)
  have "map_of es' = map_of es" using map_of_inject_set [OF d' d] s by simp
  then show "place es' = place es" by (simp add: place_def fun_eq_iff)
qed

section \<open>The same chain from every order of the table\<close>

definition cfg_edit :: "string \<times> cfg_patch \<Rightarrow> string \<times> string list" where
  "cfg_edit x =
     (let p = snd x in
      if replaceStockLine p \<noteq> [] then (replaceStockLine p, [cfgLine p])
      else (insertAfterLine p, [insertAfterLine p, cfgLine p]))"

text \<open>An entry the loop accepts and \<open>sed\<close> reads literally.\<close>

definition good_patch :: "cfg_patch \<Rightarrow> bool" where
  "good_patch p \<longleftrightarrow> (replaceStockLine p \<noteq> [] \<or> insertAfterLine p \<noteq> []) \<and>
     (if replaceStockLine p \<noteq> [] then plain_pattern (replaceStockLine p) else plain_pattern (insertAfterLine p)) \<and>
     plain_line (cfgLine p) \<and> (externalModule p \<noteq> [] \<longrightarrow> externalVersion p \<noteq> [])"

definition vendor_ops :: "dag_dir \<Rightarrow> string \<times> cfg_patch \<Rightarrow> container" where
  "vendor_ops source x =
     (if externalModule (snd x) \<noteq> [] then []
      else [WithDirectory (''/vendored/'' @ fst x) (Subdirectory source (fst x)),
            WithExec [''go'', ''mod'', ''edit'', ''-replace'', modulePath (snd x) @ ''='' @ ''/vendored/'' @ fst x]])"

definition sed_op :: "cfg_patch \<Rightarrow> dag_op" where
  "sed_op p = WithExec [''sed'', ''-i'', the (sed_script p), ''plugin.cfg'']"

definition fetched :: "string \<times> cfg_patch \<Rightarrow> string list" where
  "fetched x = (if externalModule (snd x) = [] then [] else [externalModule (snd x) @ ''@'' @ externalVersion (snd x)])"

lemma wire_plugins_eq:
  assumes "\<forall>x \<in> set ps. good_patch (snd x)"
  shows "wire_plugins source ps ctr gets =
    Inr (ctr @ concat (map (\<lambda>x. sed_op (snd x) # vendor_ops source x) ps), gets @ concat (map fetched ps))"
  using assms
proof (induction ps arbitrary: ctr gets)
  case (Cons x ps)
  obtain d p where x: "x = (d, p)" by force
  obtain sc where sc: "sed_script p = Some sc" using Cons.prems by (auto simp: x good_patch_def sed_script_def split: if_splits)
  show ?case
    using Cons by (auto simp: x sc Let_def good_patch_def vendor_ops_def fetched_def sed_op_def)
qed simp

lemma edit_of_sed_op:
  assumes "sed_ok sed" and "good_patch (snd x)"
  shows "edit_cfg sed (sed_op (snd x)) cfg = expand (cfg_edit x) cfg"
  using assms by (auto simp: sed_op_def sed_script_def good_patch_def cfg_edit_def sed_ok_def Let_def)

lemma edit_of_vendor_ops: "fold (edit_cfg sed) (vendor_ops source x) cfg = cfg"
  by (simp add: vendor_ops_def)

lemma plugin_cfg_wired:
  assumes "sed_ok sed" and "\<forall>x \<in> set ps. good_patch (snd x)"
  shows "plugin_cfg sed (concat (map (\<lambda>x. sed_op (snd x) # vendor_ops source x) ps)) cfg = fold expand (map cfg_edit ps) cfg"
  using assms(2)
  by (induction ps arbitrary: cfg) (simp_all add: plugin_cfg_def edit_of_sed_op [OF assms(1)] edit_of_vendor_ops)

lemma plugin_cfg_append: "plugin_cfg sed (c @ d) cfg = plugin_cfg sed d (plugin_cfg sed c cfg)"
  by (simp add: plugin_cfg_def)

lemma clone_leaves_cfg: "plugin_cfg sed (clone_coredns v) cfg = cfg"
  by (simp add: plugin_cfg_def clone_coredns_def buildBase_def go_caches_def)

lemma resolve_leaves_cfg: "plugin_cfg sed (resolve_and_build gets) cfg = cfg"
proof -
  have "fold (edit_cfg sed) (map (\<lambda>spec. go_get [spec]) specs) c = c" for specs c
    by (induction specs) (simp_all add: go_get_def)
  then show ?thesis by (simp add: plugin_cfg_def resolve_and_build_def go_get_def)
qed

text \<open>What becomes of each line of the stock file: the slots the entries of the table name, written out.\<close>

definition chain_line :: "string \<Rightarrow> string list" where
  "chain_line l =
     (if l = ''tls:tls'' then [''sni_tls:github.com/puredevotion/coredns-plugins/sni_tls'']
      else if l = ''health:health'' then [l, ''radnr:github.com/puredevotion/coredns-plugins/radnr'']
      else if l = ''tsig:tsig'' then [l, ''cookie:github.com/puredevotion/coredns-plugins/cookie'']
      else if l = ''rewrite:rewrite'' then [l, ''rrl:github.com/coredns/rrl/plugins/rrl'']
      else if l = ''hosts:hosts'' then [l, ''dynupdate:github.com/puredevotion/coredns-plugins/dynupdate'']
      else if l = ''file:file'' then [l, ''probe:github.com/puredevotion/coredns-plugins/probe'']
      else [l])"

definition rrl_spec :: string where
  "rrl_spec = ''github.com/coredns/rrl@v0.0.0-20250915113509-ac1135e077ba''"

definition plugin_names :: "string list" where
  "plugin_names = [''sni_tls'', ''radnr'', ''dynupdate'', ''cookie'', ''probe'', ''rrl'']"

lemma table_is_good: "\<forall>x \<in> set pluginCfgPatches. good_patch (snd x)"
  by code_simp

lemma table_is_separate: "separate (map cfg_edit pluginCfgPatches)"
  by code_simp

lemma table_places: "place (map cfg_edit pluginCfgPatches) = chain_line"
  by (rule ext) (simp add: place_def pluginCfgPatches_def cfg_edit_def chain_line_def)

lemma table_fetches: "concat (map fetched pluginCfgPatches) = [rrl_spec]"
  by code_simp

lemma mset_concat_any_order:
  assumes "mset xs = mset ys"
  shows "mset (concat (map f xs)) = mset (concat (map f ys))"
proof -
  have "mset (concat (map f zs)) = (\<Sum>x\<in>#mset zs. mset (f x))" for zs
    by (induction zs) simp_all
  then show ?thesis by (simp only: assms)
qed

lemma sort_concat_any_order:
  fixes f :: "'a \<Rightarrow> string list"
  assumes "mset xs = mset ys"
  shows "sort (concat (map f xs)) = sort (concat (map f ys))"
  using mset_concat_any_order [OF assms] by (metis sorted_list_of_multiset_mset)

lemma resolve_sorts: "sort gets = sort gets' \<Longrightarrow> resolve_and_build gets = resolve_and_build gets'"
  by (simp add: resolve_and_build_def)

definition wiring :: "dag_dir \<Rightarrow> (string \<times> cfg_patch) list \<Rightarrow> container" where
  "wiring source ps = concat (map (\<lambda>x. sed_op (snd x) # vendor_ops source x) ps)"

lemma container_any_order:
  assumes "mset patches = mset pluginCfgPatches"
  shows "coredns_container source patches v = Inr (clone_coredns v @ wiring source patches @ resolve_and_build [rrl_spec])"
proof -
  have good: "\<forall>x \<in> set patches. good_patch (snd x)"
    using table_is_good mset_eq_setD [OF assms] by simp
  have "sort (concat (map fetched patches)) = sort [rrl_spec]"
    unfolding table_fetches [symmetric] by (rule sort_concat_any_order [OF assms])
  from resolve_sorts [OF this] show ?thesis
    by (simp add: coredns_container_def wire_plugins_eq [OF good] wiring_def)
qed

lemma chain_any_order:
  assumes "sed_ok sed" and "mset patches = mset pluginCfgPatches"
  shows "plugin_cfg sed (clone_coredns v @ wiring source patches @ resolve_and_build gets) cfg = concat (map chain_line cfg)"
proof -
  have good: "\<forall>x \<in> set patches. good_patch (snd x)"
    using table_is_good mset_eq_setD [OF assms(2)] by simp
  have m: "mset (map cfg_edit patches) = mset (map cfg_edit pluginCfgPatches)"
    by (simp only: mset_map assms(2))
  have "fold expand (map cfg_edit patches) cfg = concat (map (place (map cfg_edit patches)) cfg)"
    by (rule separate_edits_are_one_lookup [OF place_any_order(1) [OF table_is_separate m]])
  also have "\<dots> = concat (map chain_line cfg)"
    using place_any_order(2) [OF table_is_separate m] by (simp add: table_places)
  finally show ?thesis
    by (simp add: plugin_cfg_append clone_leaves_cfg resolve_leaves_cfg wiring_def plugin_cfg_wired [OF assms(1) good])
qed

lemma check_caps_None: "check_caps out ws = None \<longleftrightarrow> list_all (contains out) ws"
  by (induction ws) auto

lemma smoke_test_None:
  "smoke_test out ps = None \<longleftrightarrow>
     list_all (\<lambda>x. case index_byte (cfgLine (snd x)) (CHR '':'') of None \<Rightarrow> False | Some i \<Rightarrow> contains out (take i (cfgLine (snd x)))) ps"
  by (induction out ps rule: smoke_test.induct) (auto simp: Let_def split: option.splits)

lemma smoke_test_any_order:
  assumes "mset patches = mset pluginCfgPatches"
  shows "smoke_test out patches = None \<longleftrightarrow> list_all (contains out) plugin_names"
  by (simp add: smoke_test_None list_all_iff mset_eq_setD [OF assms]) (simp add: pluginCfgPatches_def plugin_names_def)

lemma case_sum_Inr: "(case s of Inl e \<Rightarrow> Inl (f e) | Inr x \<Rightarrow> g x) = Inr z \<longleftrightarrow> (\<exists>x. s = Inr x \<and> g x = Inr z)"
  by (cases s) auto

lemma case_option_Inr: "(case x of None \<Rightarrow> Inr y | Some e \<Rightarrow> Inl e) = Inr z \<longleftrightarrow> x = None \<and> y = z"
  by (cases x) auto

text \<open>\<open>Containerize\<close> returns an image exactly when the built file has both capabilities and the image itself lists all six plugins.\<close>

lemma containerize_any_order:
  fixes stdout :: "container \<Rightarrow> 'e + string"
  assumes "mset patches = mset pluginCfgPatches" and "mset patches' = mset pluginCfgPatches"
  shows "Containerize stdout source patches patches' v = Inr img \<longleftrightarrow>
    (let built = clone_coredns v @ wiring source patches @ resolve_and_build [rrl_spec];
         run = runtime_container (ContainerFile built ''/coredns-out/coredns'') in
     \<exists>capOut out. stdout (built @ [WithExec [''getcap'', ''/coredns-out/coredns'']]) = Inr capOut \<and>
       contains capOut ''cap_net_raw'' \<and> contains capOut ''cap_net_bind_service'' \<and>
       stdout (run @ [WithExec [''/coredns'', ''-plugins'']]) = Inr out \<and> list_all (contains out) plugin_names \<and>
       img = AsTarball (run @ [WithEntrypoint [''/coredns'']]))"
  by (auto simp: Containerize_def BuildCoredns_def container_any_order [OF assms(1)] Let_def check_caps_None case_sum_Inr
      case_sum_Inr [where f = "\<lambda>e. e"] case_option_Inr smoke_test_any_order [OF assms(2)])

section \<open>The order of the chain\<close>

text \<open>The lines of this repository's plugins and of \<open>rrl\<close>, with the stock line each is placed at.\<close>

abbreviation own_line :: "string \<Rightarrow> string" where
  "own_line nm \<equiv> nm @ '':github.com/puredevotion/coredns-plugins/'' @ nm"

abbreviation rrl_line :: string where
  "rrl_line \<equiv> ''rrl:github.com/coredns/rrl/plugins/rrl''"

definition slots :: "(string \<times> string) list" where
  "slots = [(own_line ''sni_tls'', ''tls:tls''), (own_line ''radnr'', ''health:health''), (own_line ''dynupdate'', ''hosts:hosts''),
     (own_line ''cookie'', ''tsig:tsig''), (own_line ''probe'', ''file:file''), (rrl_line, ''rewrite:rewrite'')]"

definition plugin_lines :: "string list" where
  "plugin_lines = map (cfgLine \<circ> snd) pluginCfgPatches"

text \<open>A stock file: no line twice, none of the lines to be added, and all six landmarks.\<close>

definition stock_file :: "string list \<Rightarrow> bool" where
  "stock_file cfg \<longleftrightarrow> distinct cfg \<and> set cfg \<inter> set plugin_lines = {} \<and> snd ` set slots \<subseteq> set cfg"

lemma slots_lines: "map fst slots = plugin_lines" "distinct (map fst slots)"
  by code_simp+

lemma in_chain_line: "x \<in> set (chain_line l) \<longleftrightarrow> x = l \<and> l \<noteq> ''tls:tls'' \<or> (x, l) \<in> set slots"
  by (auto simp: chain_line_def slots_def split: if_splits)

lemma slot_unique: "(x, l) \<in> set slots \<Longrightarrow> (x, l') \<in> set slots \<Longrightarrow> l = l'"
  using slots_lines(2) by (metis eq_key_imp_eq_value)

lemma slot_line: "(x, l) \<in> set slots \<Longrightarrow> x \<in> set plugin_lines"
  unfolding slots_lines(1) [symmetric] by force

lemma chain_line_distinct: "distinct (chain_line l)"
  by (simp add: chain_line_def)

lemma chain_lines_apart:
  "l \<notin> set plugin_lines \<Longrightarrow> l' \<notin> set plugin_lines \<Longrightarrow> l \<noteq> l' \<Longrightarrow> set (chain_line l) \<inter> set (chain_line l') = {}"
  using slot_unique slot_line unfolding disjoint_iff in_chain_line by metis

lemma chain_distinct: "distinct cfg \<Longrightarrow> set cfg \<inter> set plugin_lines = {} \<Longrightarrow> distinct (concat (map chain_line cfg))"
proof (induction cfg)
  case (Cons l cfg)
  have "set (chain_line l) \<inter> set (chain_line l') = {}" if "l' \<in> set cfg" for l'
    using chain_lines_apart Cons.prems that by auto
  then show ?case using Cons chain_line_distinct by auto
qed simp

lemma chain_keeps_stock:
  "set cfg \<inter> set plugin_lines = {} \<Longrightarrow>
     filter (\<lambda>l. l \<notin> set plugin_lines) (concat (map chain_line cfg)) = filter (\<lambda>l. l \<noteq> ''tls:tls'') cfg"
proof (induction cfg)
  case (Cons l cfg)
  have "filter (\<lambda>l. l \<notin> set plugin_lines) (chain_line l) = (if l = ''tls:tls'' then [] else [l])"
    using Cons.prems by (auto simp: chain_line_def plugin_lines_def pluginCfgPatches_def)
  then show ?case using Cons by simp
qed simp

lemma chain_subseq: "subseq ls cfg \<Longrightarrow> subseq (concat (map chain_line ls)) (concat (map chain_line cfg))"
  by (induction rule: list_emb.induct) (auto intro: list_emb_append_mono list_emb_append2)

lemma chain_sublist: "sublist ls cfg \<Longrightarrow> sublist (concat (map chain_line ls)) (concat (map chain_line cfg))"
  unfolding sublist_def by (metis concat_append map_append)

lemma chain_line_first: "\<exists>x r. chain_line l = x # r \<and> (x = ''file:file'' \<longleftrightarrow> l = ''file:file'')"
  by (simp add: chain_line_def)

lemma sublist_skip: "x \<notin> set xs \<Longrightarrow> sublist [x, y] (xs @ ys) \<longleftrightarrow> sublist [x, y] ys"
  by (induction xs) (auto simp: sublist_Cons_right)

text \<open>The slot of \<open>dynupdate\<close> is directly before \<open>file\<close> only where the stock file has \<open>hosts\<close> there.\<close>

lemma dynupdate_directly_before_file:
  assumes "set cfg \<inter> set plugin_lines = {}"
  shows "sublist [own_line ''dynupdate'', ''file:file''] (concat (map chain_line cfg)) \<longleftrightarrow> sublist [''hosts:hosts'', ''file:file''] cfg"
  using assms
proof (induction cfg)
  case (Cons l cfg)
  let ?d = "own_line ''dynupdate''" and ?f = "''file:file''" and ?h = "''hosts:hosts''" and ?R = "concat (map chain_line cfg)"
  have d: "(?d, ?h) \<in> set slots" by (simp add: slots_def)
  have IH: "sublist [?d, ?f] ?R \<longleftrightarrow> sublist [?h, ?f] cfg" using Cons by simp
  show ?case
  proof (cases "l = ?h")
    case True
    have "prefix [?f] ?R \<longleftrightarrow> prefix [?f] cfg"
      using chain_line_first [of "hd cfg"] by (cases cfg) auto
    moreover have "chain_line ?h = [?h, ?d]" by (simp add: chain_line_def)
    ultimately show ?thesis using True IH by (simp add: sublist_Cons_right)
  next
    case False
    then have "?d \<notin> set (chain_line l)"
      using slot_unique [OF d] slot_line [OF d] Cons.prems unfolding in_chain_line by auto
    then show ?thesis using IH False sublist_skip [of ?d "chain_line l" ?f ?R] sublist_skip [of ?h "[l]" ?f cfg] by simp
  qed
qed simp

section \<open>The property\<close>


text \<open>A run over the table from its end, with a stock file in which the landmarks are out of the table's order.\<close>

definition stock_cfg :: "string list" where
  "stock_cfg = [''tls:tls'', ''health:health'', ''tsig:tsig'', ''cache:cache'', ''rewrite:rewrite'', ''acl:acl'', ''dnssec:dnssec'',
     ''transfer:transfer'', ''hosts:hosts'', ''kubernetes:kubernetes'', ''file:file'']"


text \<open>The commands themselves come in the order of the loop: only the fetches are sorted.\<close>

lemma command_order_follows_the_table_order:
  "coredns_container Source pluginCfgPatches v \<noteq> coredns_container Source (rev pluginCfgPatches) v"
proof -
  have "wiring Source pluginCfgPatches \<noteq> wiring Source (rev pluginCfgPatches)" by code_simp
  then show ?thesis by (simp add: container_any_order)
qed

end
