(* ===== verification/Spec2Isabelle.thy ===== *)
theory Spec2Isabelle
  imports Siphash_Spec Cookie_Vectors Cookie_Metrics Dyn_Setup Ra_Shutdown Sni_Concurrent Probe_Ech Probe_Records Probe_Setup Ci_Build
begin

text \<open>
  A verification development for the CoreDNS plugins of this repository and for the pipeline that builds them into a server.

  \<^bold>\<open>The program.\<close> Five plugins, each a Go module of its own, run in one CoreDNS process. They do not call each other; they share the
  process, its reloads (Caddy drops one server instance and starts another, and may fail half-way) and the DNS messages that pass
  through the plugin chain.

  \<^item> \<open>cookie/\<close> answers DNS Cookies (RFC 7873, RFC 9018): every request is classified by its COOKIE option, a response carries a
    fresh server cookie, and in enforce mode an unvalidated UDP request is answered BADCOOKIE.
  \<^item> \<open>dynupdate/\<close> serves a zone that RFC 2136 updates change: an update passes authorisation, prerequisites and a prescan, is applied
    to a copy of the records, moves the serial and replaces the served view.
  \<^item> \<open>probe/\<close> is an authoritative zone for measuring resolvers: a name carries modifiers and a token, the reply deviates as the
    modifiers say, what the query showed is recorded under the token and read back in a TXT answer; an agent zone receives RFC 9567
    error reports; apex records, a DNS-SD tree, an ECH canary and key-tag queries are served too.
  \<^item> \<open>radnr/\<close> sends Router Advertisements with the RFC 9463 Encrypted DNS option, from a timer, a rate limit and solicitations.
  \<^item> \<open>sni_tls/\<close> selects a TLS certificate by the name a client asks for and polls the certificate files for rotation.
  \<^item> \<open>ci/\<close> wires the plugins into the plugin chain of a pinned CoreDNS, builds the binary and packages it.

  \<^bold>\<open>Foundations.\<close> \<open>Prelude\<close> has the shared types, rule collections and list facts. \<open>Go_Lib\<close>, \<open>Go_Text\<close>, \<open>Go_Net\<close> and \<open>Go_Config\<close> model what
  the sources use of Go and its standard library: byte strings, endian integers, hexadecimal and decimal text, \<open>netip.Addr\<close>, the Corefile
  token stream, \<open>Sscanf\<close> and \<open>ParseDuration\<close>. \<open>Dns_Msg\<close> is the shape of a DNS message. \<open>Codec\<close> states the contracts of encoders and
  decoders as the locales \<open>roundtrip\<close> and \<open>codec\<close>, interpreted by the query grammar, the ECH list and the Encrypted DNS option.
  Machine integers are words of their width where the sources compute with them, times are integers in nanoseconds or seconds,
  strings are lists of octets, errors are values of sum types with one constructor per return.

  \<^bold>\<open>cookie.\<close> \<open>Siphash\<close> (\<open>siphash.go\<close>) is SipHash-2-4 as the method's sequence of updates, \<open>Siphash_Spec\<close> the function of the paper. \<open>Cookie\<close> (\<open>cookie.go\<close>) has option classes, the server
  cookie, the verification window in 32-bit serial arithmetic and the secrets. \<open>Cookie_Handler\<close> (\<open>handler.go\<close>, \<open>setup.go\<close>) is the
  handler, the response writer and the Corefile block; \<open>Cookie_Metrics\<close> (\<open>metrics.go\<close>) the counters, their labels, the age gauge and
  the metadata. Shown: that the hash is the one of the paper, which cookies are accepted, that every configured secret keeps working through a rollover, that the hashed
  input is injective, the vectors of RFC 9018 (\<open>Cookie_Vectors\<close>), that a response's cookie is accepted back in time, exactly when
  BADCOOKIE is written instead of the request being passed on, what an accepted configuration guarantees, and that the counters add up in every history.

  \<^bold>\<open>dynupdate.\<close> \<open>Dyn_Zone\<close> (\<open>zone.go\<close>) has names, RRsets, record identity and serials; \<open>Dyn_Update\<close> (\<open>update.go\<close>, \<open>dynupdate.go\<close>) the stages
  of an update, routing, authorisation and the view; \<open>Dyn_Setup\<close> (\<open>setup.go\<close>) the Corefile block. \<open>Dyn_Invariant\<close> defines a
  well-formed zone and proves that each stage keeps it; \<open>Dyn_Properties\<close> proves, over every sequence of messages, that the zone
  stays well formed and the view built from it, that a refused update changes nothing, who may change the state, that the serial moves,
  and forwards when an update carries at most one SOA (a lemma shows two winding it back), that the type policy protects all other records,
  the SOA but for its automatic increment, and what exactly the prerequisites demand.

  \<^bold>\<open>probe.\<close> \<open>Probe_Labels\<close> (\<open>labels.go\<close>) is the query grammar, \<open>Probe_Keytag\<close> (\<open>keytag.go\<close>) the RFC 8145 names, \<open>Probe_Observe\<close> (\<open>observe.go\<close>,
  \<open>encrypted.go\<close>) what a query shows, \<open>Probe_Report\<close> (\<open>errorreport.go\<close>) the error reports, \<open>Probe_Sign\<close> (\<open>sign.go\<close>) the signatures and their
  deliberate defects, \<open>Probe_Edns\<close> (\<open>ede.go\<close>, \<open>zoneversion.go\<close>) two options, \<open>Probe_Dnssd\<close> (\<open>dnssd.go\<close>) the browse tree, \<open>Probe_Metrics\<close>
  (\<open>metrics.go\<close>) the counters and their caches, \<open>Probe_Summary\<close> the readout, \<open>Probe_Ech\<close> (\<open>echconfig.go\<close>) the ECH list. \<open>Probe_Store\<close> is the
  in-process store of \<open>observe.go\<close>, with the locale \<open>token_store\<close> for its contract and a map swept for expired tokens as its
  abstract specification; \<open>Probe_Valkey\<close> (\<open>valkey.go\<close>) is the shared store, with replicas as interleaved steps on one server.
  \<open>Probe_Serve\<close> (\<open>probe.go\<close>, \<open>agent.go\<close>, \<open>metadata.go\<close>) composes them into the handler, \<open>Probe_Setup\<close> (\<open>setup.go\<close>) builds it from a
  Corefile. The other theories hold what is shown of the handler: \<open>Probe_Answers\<close> the response code and the effect of the modifiers, and
  that the store cannot change an answer (locale \<open>observation_sink\<close>, interpreted by both stores and by the configured one);
  \<open>Probe_Zones\<close> which zone answers, its agreement with the metadata a rate limiter reads, and the agent zone; \<open>Probe_Soacache\<close> that a cached
  signature over the SOA is one for the window asked for; \<open>Probe_Records\<close> that every record of an answer fits the question.

  \<^bold>\<open>radnr.\<close> \<open>Dnr\<close> (\<open>pkg/dnr\<close>) and \<open>Svcparams\<close> (\<open>pkg/svcparams\<close>) are the wire formats, \<open>Radnr_Config\<close> (\<open>internal/config\<close>, \<open>setup.go\<close>, \<open>BuildRA\<close>) the
  configuration and the advertisement, \<open>Ra_Schedule\<close> (\<open>internal/advertiser\<close>) the timer and the packet filter, \<open>Ra_Shutdown\<close> (\<open>conn.go\<close>,
  \<open>radnr.go\<close>, \<open>Run\<close>) the connections (locale \<open>closable_conn\<close>, interpreted by the dry-run connection, the socket and their sum), the two goroutines
  and their end. \<open>Lifecycle\<close> is the registry of background loops of \<open>radnr\<close> and of
  \<open>sni_tls\<close>, two interpretations of one locale. Shown: exactly the valid options decode, the advertised option names the configured
  resolver, no advertisement announces a default router or a prefix unasked, the rate limit and the answer to a solicitation, that a
  cancelled advertiser ends on a real and on a dry-run connection (in every run in which the loop's select does not pass over its ready
  branch for ever), and that no loop is orphaned by any sequence of hooks.

  \<^bold>\<open>sni_tls.\<close> \<open>Sni_Store\<close> (\<open>sni_tls.go\<close>) is the certificate store, \<open>Sni_Reload\<close> (\<open>reload.go\<close>, \<open>setup.go\<close>) the poll and the Corefile block,
  \<open>Sni_Concurrent\<close> the poll as interleaved steps of several loops against a rotating file system. Shown: in strict mode exactly a matching
  certificate is served, when a store can be built, that at most one loop reloads, and that with the reload lock the
  recorded digest never stands beside other certificates, provided that rotations bring contents with digests not met before and that
  none fell between the two steps of \<open>setup\<close>; lemmas show that without the lock, or without these conditions, it can.

  \<^bold>\<open>ci.\<close> \<open>Ci_Build\<close> (\<open>ci/main.go\<close>) has the table of plugins and the commands of every function. Shown: every iteration order of the table
  gives the same plugin chain, what that chain is and which orders between plugins it keeps; a lemma says when an image is returned.

  \<^bold>\<open>Loops, goroutines, time.\<close> There is no fuel: recursions are structural or have a measure. Concurrency appears as step relations whose
  reachable states carry an invariant: messages on a zone, calls on the store under its mutex, replicas on a Valkey server, the
  goroutines of an advertiser, poll loops and rotations. A clock is an argument of the operation that reads it, one argument per reading.

  \<^bold>\<open>Code outside the repository\<close> is a parameter, and what the theorems need of it is a named hypothesis that states documented
  behaviour; where a property has one, its witness discharges it for concrete functions. \<open>dns_lib\<close> with \<open>dns_lib_ok\<close> (canonical names, record
  parsing), \<open>view_lib\<close> (\<open>file.NewZone\<close>, \<open>Zone.Insert\<close>), \<open>probe_dns\<close> with \<open>probe_dns_ok\<close> and \<open>probe_env\<close> with \<open>env_ok\<close>, \<open>scrub_ok\<close> and \<open>matches_ok\<close> (message helpers of
  CoreDNS and of the DNS library), \<open>sign_bytes\<close> and \<open>env_sign\<close> (ECDSA), \<open>valkey_client\<close> with \<open>valkey_ok\<close>, \<open>json_codec\<close>, \<open>setup_lib\<close>, \<open>parseAddr\<close>
  (\<open>netip.ParseAddr\<close>), \<open>readFile\<close>, \<open>loadX509\<close> and \<open>sha256\<close>, the socket calls of \<open>radnr\<close>, \<open>stdout\<close> (running a Dagger container) and \<open>sed\<close> with
  \<open>sed_ok\<close>.

  \<^bold>\<open>Not modelled.\<close> Log lines and the texts of errors; registration with Caddy, CoreDNS and Prometheus; the conversion of a gauge to floating
  point; mutexes whose critical section is one step; cryptography, X.509, DNS packing and the system calls behind the parameters.
  A certificate poll reads the digest's files and the build's files in two steps, with torn reads of either covered by steps of
  their own. Tests, benchmarks, documents, and the Lean and TLA models under \<open>verification/\<close> of the repository are not code of the
  program.
\<close>

end
